(* ===== verification/Prelude.thy ===== *)
theory Prelude
  imports Main "HOL-Library.Word" "HOL-Library.Signed_Division"
begin

text \<open>
  Shared vocabulary of the development: the C++ integer types as words of their width, the byte
  view of \<^verbatim>\<open>std::string\<close>, the two-result idiom of the code (a boolean or status together with a
  reason string), and the word and list lemmas that the component theories rest on.

  Signed 64-bit values (\<open>i64\<close>) are words read by \<open>sint\<close>. C++ leaves signed overflow undefined; the
  model wraps, and every theorem that gives time arithmetic its ordinary meaning carries the
  bounds under which no wrap takes place (\<open>i64_add_ok\<close>).
\<close>

section \<open>Collections of facts\<close>

named_theorems i64_simps \<open>reading signed 64-bit arithmetic as integer arithmetic\<close>
named_theorems invar_intros \<open>preservation of a component's invariant by its operations\<close>
named_theorems codec_simps \<open>readers applied to what the writers produce\<close>

section \<open>Machine integers\<close>

type_synonym u8 = "8 word"
type_synonym u32 = "32 word"
type_synonym u64 = "64 word"
type_synonym i64 = "64 word"
type_synonym bytes = "u8 list"

abbreviation i64_less :: "i64 \<Rightarrow> i64 \<Rightarrow> bool" where
  "i64_less a b \<equiv> sint a < sint b"

abbreviation i64_le :: "i64 \<Rightarrow> i64 \<Rightarrow> bool" where
  "i64_le a b \<equiv> sint a \<le> sint b"

abbreviation i64_max :: i64 where
  "i64_max \<equiv> 0x7fffffffffffffff"

abbreviation i64_add_ok :: "i64 \<Rightarrow> i64 \<Rightarrow> bool" where
  "i64_add_ok a b \<equiv> - (2 ^ 63) \<le> sint a + sint b \<and> sint a + sint b < 2 ^ 63"

abbreviation i64_sub_ok :: "i64 \<Rightarrow> i64 \<Rightarrow> bool" where
  "i64_sub_ok a b \<equiv> - (2 ^ 63) \<le> sint a - sint b \<and> sint a - sint b < 2 ^ 63"

lemma i64_range: "- (2 ^ 63) \<le> sint (a :: i64)" "sint (a :: i64) < 2 ^ 63"
  using sint_ge [of a] sint_lt [of a] by simp_all

lemma sint_i64_of_int:
  "- (2 ^ 63) \<le> k \<Longrightarrow> k < 2 ^ 63 \<Longrightarrow> sint (word_of_int k :: i64) = k"
  by (simp add: sint_sbintrunc' signed_take_bit_int_eq_self)

lemma sint_i64_add [i64_simps]: "i64_add_ok a b \<Longrightarrow> sint (a + b) = sint a + sint b"
  using sint_i64_of_int [of "sint a + sint b"] by (simp add: wi_hom_add [symmetric])

lemma sint_i64_sub [i64_simps]: "i64_sub_ok a b \<Longrightarrow> sint (a - b) = sint a - sint b"
  using sint_i64_of_int [of "sint a - sint b"] by (simp add: wi_hom_sub [symmetric])

lemma uint_of_nonneg_i64: "0 \<le> sint (a :: i64) \<Longrightarrow> uint a = sint a"
  using i64_range [of a] by (simp add: uint_sint take_bit_int_eq_self)

section \<open>Checks in sequence\<close>

text \<open>
  The code chains checks with \<^verbatim>\<open>||\<close> and \<^verbatim>\<open>&&\<close> on functions that return \<^verbatim>\<open>false\<close> and write a reason. In the
  model a failed check is \<open>Inl\<close> of the reason and the first failure wins.
\<close>

definition and_then :: "'e + 'b \<Rightarrow> 'e + 'a \<Rightarrow> 'e + 'a" where
  "and_then c r = (case c of Inl e \<Rightarrow> Inl e | Inr _ \<Rightarrow> r)"

lemma and_then_simps [simp]:
  "and_then (Inl e) r = Inl e" "and_then (Inr u) r = r"
  by (simp_all add: and_then_def)

lemma and_then_Inr: "and_then c r = Inr x \<longleftrightarrow> (\<exists>u. c = Inr u) \<and> r = Inr x"
  by (cases c) auto

lemma and_then_Inl: "and_then c r = Inl e \<longleftrightarrow> c = Inl e \<or> (\<exists>u. c = Inr u) \<and> r = Inl e"
  by (cases c) auto

definition check :: "bool \<Rightarrow> 'e \<Rightarrow> 'e + unit" where
  "check ok e = (if ok then Inr () else Inl e)"

lemma check_simps [simp]:
  "check ok e = Inr u \<longleftrightarrow> ok" "check ok e = Inl e' \<longleftrightarrow> \<not> ok \<and> e' = e"
  by (auto simp: check_def)

lemma Inr_unit_conv [simp]: "(\<exists>u. c = Inr u) \<longleftrightarrow> c = Inr ()"
  by auto

lemma unat_u64_lt: "unat (a :: u64) < 2 ^ 64"
  using unsigned_less [of a] by simp

lemma unat_Suc_less: "(l :: u64) < s \<Longrightarrow> unat (l + 1) = Suc (unat l)"
proof -
  assume "l < s"
  then have "unat l < unat s" by (simp add: word_less_nat_alt)
  then have "Suc (unat l) < 2 ^ 64" using unat_u64_lt [of s] by simp
  then show ?thesis by (simp add: unat_word_ariths)
qed

lemma unat_add_u64: "unat a + unat b < 2 ^ 64 \<Longrightarrow> unat (a + b :: u64) = unat a + unat b"
  by (simp add: unat_word_ariths)

lemma sint_i64_mult: "uint (a :: i64) * uint b < 2 ^ 63 \<Longrightarrow> sint (a * b) = uint a * uint b"
proof -
  assume b: "uint a * uint b < 2 ^ 63"
  moreover have "- (2 ^ 63) \<le> uint a * uint b"
    by (rule order_trans [OF _ mult_nonneg_nonneg]) simp_all
  ultimately show ?thesis
    using sint_i64_of_int [of "uint a * uint b"] by (simp add: wi_hom_mult [symmetric])
qed

lemma i64_pos_iff: "0 \<le> sint (a :: i64) \<Longrightarrow> 0 < sint a \<longleftrightarrow> a \<noteq> 0"
  using signed_word_eqI [where 'a = int, of a 0] by (cases "a = 0") (auto simp: order_less_le)

lemma unat_u32_lt: "unat (a :: u32) < 2 ^ 32"
  using unsigned_less [of a] by simp

lemma unat_ucast_down: "unat (ucast (q :: u64) :: u32) = unat q mod 2 ^ 32"
  by (simp add: unsigned_ucast_eq take_bit_eq_mod)

lemma unat_ucast_up: "unat (ucast (n :: u32) :: u64) = unat n"
proof -
  have "unat n < 2 ^ 64" using unat_u32_lt [of n] by simp
  then show ?thesis by (simp add: unsigned_ucast_eq take_bit_eq_mod)
qed

lemma uint_ucast_up: "uint (ucast (n :: u32) :: u64) = uint n"
  by (simp only: uint_nat unat_ucast_up)

section \<open>Invariants of transition systems\<close>

text \<open>
  A predicate that holds initially and is kept by every step. What it gives: it holds after any number
  of steps, and it may be used to prove a second predicate that is kept only where the first holds.
\<close>

locale preserved =
  fixes start :: "'s \<Rightarrow> bool" and step :: "'s \<Rightarrow> 's \<Rightarrow> bool" and inv :: "'s \<Rightarrow> bool"
  assumes inv_start: "start s \<Longrightarrow> inv s"
    and inv_step: "inv s \<Longrightarrow> step s s' \<Longrightarrow> inv s'"
begin

lemma holds: "start s \<Longrightarrow> step\<^sup>*\<^sup>* s s' \<Longrightarrow> inv s'"
  by (rotate_tac, induction rule: rtranclp_induct) (auto intro: inv_start inv_step)

lemma strengthen:
  assumes "\<And>s. start s \<Longrightarrow> P s" and "\<And>s s'. inv s \<Longrightarrow> P s \<Longrightarrow> step s s' \<Longrightarrow> P s'"
    and "start s" and "step\<^sup>*\<^sup>* s s'"
  shows "P s'"
  using assms(4)
proof (induction rule: rtranclp_induct)
  case base
  show ?case by (rule assms(1) [OF assms(3)])
next
  case (step y z)
  then show ?case using assms(2) holds [OF assms(3)] by blast
qed

end

end
