(* ===== verification/Types.thy ===== *)
theory Types
  imports Prelude
begin

text \<open>
  The value types shared by all components: \<^verbatim>\<open>include/swarm_sync_core/types.hpp\<close> and
  \<^verbatim>\<open>include/swarm_sync_core/sample_envelope.hpp\<close>.

  \<^verbatim>\<open>ClockQuality\<close> and \<^verbatim>\<open>ProducerStatus\<close> are enumerations with underlying type \<^verbatim>\<open>uint8_t\<close> that the code
  obtains by casting an arbitrary byte or integer, so any byte is a value of theirs: they are modelled
  by the underlying type with the enumerators as constants. \<^verbatim>\<open>SampleStatus\<close> is only ever one of its
  enumerators and is a datatype. Field names carry a prefix for their struct.
\<close>

section \<open>types.hpp\<close>

type_synonym ClockQuality = u8

definition ClockQuality_OK :: ClockQuality where "ClockQuality_OK = 0"
definition ClockQuality_DEGRADED :: ClockQuality where "ClockQuality_DEGRADED = 1"
definition ClockQuality_BAD :: ClockQuality where "ClockQuality_BAD = 2"
definition ClockQuality_UNKNOWN :: ClockQuality where "ClockQuality_UNKNOWN = 3"

type_synonym ProducerStatus = u8

definition ProducerStatus_Success :: ProducerStatus where "ProducerStatus_Success = 0"
definition ProducerStatus_Timeout :: ProducerStatus where "ProducerStatus_Timeout = 1"
definition ProducerStatus_Failed :: ProducerStatus where "ProducerStatus_Failed = 2"
definition ProducerStatus_Skipped :: ProducerStatus where "ProducerStatus_Skipped = 3"
definition ProducerStatus_UserFallback :: ProducerStatus where "ProducerStatus_UserFallback = 4"
definition ProducerStatus_Unknown :: ProducerStatus where "ProducerStatus_Unknown = 255"

datatype SampleStatus =
    Fresh
  | Missing
  | Late
  | WrongCycle
  | Duplicate
  | BadSchema
  | BadPayload
  | SenderClockBad
  | SenderReportedFail
  | TransportError

fun SampleStatus_code :: "SampleStatus \<Rightarrow> u8" where
  "SampleStatus_code Fresh = 0"
| "SampleStatus_code Missing = 1"
| "SampleStatus_code Late = 2"
| "SampleStatus_code WrongCycle = 3"
| "SampleStatus_code Duplicate = 4"
| "SampleStatus_code BadSchema = 5"
| "SampleStatus_code BadPayload = 6"
| "SampleStatus_code SenderClockBad = 7"
| "SampleStatus_code SenderReportedFail = 8"
| "SampleStatus_code TransportError = 9"

record ClockState =
  clock_clock_ok :: bool
  clock_offset_ns :: i64
  clock_uncertainty_ns :: u64
  clock_quality :: ClockQuality
  clock_source :: string

definition ClockState_default :: ClockState where
  "ClockState_default =
     \<lparr>clock_clock_ok = False, clock_offset_ns = 0, clock_uncertainty_ns = 0,
      clock_quality = ClockQuality_UNKNOWN, clock_source = ''''\<rparr>"

record RuntimeState =
  rt_running :: bool
  rt_zenoh_connected :: bool
  rt_current_cycle :: u64
  rt_jitter_ns :: i64
  rt_state :: string
  rt_reason :: string

definition RuntimeState_default :: RuntimeState where
  "RuntimeState_default =
     \<lparr>rt_running = False, rt_zenoh_connected = False, rt_current_cycle = 0, rt_jitter_ns = 0,
      rt_state = '''', rt_reason = ''''\<rparr>"

section \<open>sample\_envelope.hpp\<close>

definition kCurrentEnvelopeSchemaVersion :: u32 where
  "kCurrentEnvelopeSchemaVersion = 1"

definition kDefaultMaxPayloadBytes :: nat where
  "kDefaultMaxPayloadBytes = 1024 * 1024"

definition kMaxEnvelopeFieldBytes :: nat where
  "kMaxEnvelopeFieldBytes = 4096"

record SampleEnvelope =
  env_schema_version :: u32
  env_session_id :: string
  env_team_id :: string
  env_task_id :: string
  env_participant_id :: string
  env_channel :: string
  env_sender_id :: string
  env_node_id :: string
  env_seq :: u64
  env_produce_cycle :: u64
  env_target_cycle :: u64
  env_t_cycle_start_ns :: i64
  env_t_produce_start_ns :: i64
  env_t_produce_finish_ns :: i64
  env_t_publish_ns :: i64
  env_period_ns :: i64
  env_publish_deadline_ns :: i64
  env_ttl_ns :: i64
  env_producer_status :: ProducerStatus
  env_clock_ok :: bool
  env_clock_offset_ns :: i64
  env_clock_uncertainty_ns :: u64
  env_payload_type :: string
  env_schema_id :: string
  env_payload_crc32c :: u32
  env_payload :: bytes

definition SampleEnvelope_default :: SampleEnvelope where
  "SampleEnvelope_default =
     \<lparr>env_schema_version = kCurrentEnvelopeSchemaVersion,
      env_session_id = '''', env_team_id = '''', env_task_id = '''', env_participant_id = '''',
      env_channel = '''', env_sender_id = '''', env_node_id = '''',
      env_seq = 0, env_produce_cycle = 0, env_target_cycle = 0,
      env_t_cycle_start_ns = 0, env_t_produce_start_ns = 0, env_t_produce_finish_ns = 0,
      env_t_publish_ns = 0, env_period_ns = 0, env_publish_deadline_ns = 0, env_ttl_ns = 0,
      env_producer_status = ProducerStatus_Unknown,
      env_clock_ok = False, env_clock_offset_ns = 0, env_clock_uncertainty_ns = 0,
      env_payload_type = '''', env_schema_id = '''', env_payload_crc32c = 0, env_payload = []\<rparr>"

lemmas enum_defs =
  ClockQuality_OK_def ClockQuality_DEGRADED_def ClockQuality_BAD_def ClockQuality_UNKNOWN_def
  ProducerStatus_Success_def ProducerStatus_Timeout_def ProducerStatus_Failed_def
  ProducerStatus_Skipped_def ProducerStatus_UserFallback_def ProducerStatus_Unknown_def

lemmas envelope_consts =
  kCurrentEnvelopeSchemaVersion_def kDefaultMaxPayloadBytes_def kMaxEnvelopeFieldBytes_def

section \<open>Time values of ROS\<close>

text \<open>\<^verbatim>\<open>ros::Time\<close> and \<^verbatim>\<open>ros::Duration\<close>: seconds and nanoseconds.\<close>

datatype RosTime = RosTime u32 u32

datatype RosDuration = RosDuration "32 word" "32 word"

text \<open>\<^verbatim>\<open>ros::NodeHandle::param\<close>: the value of a parameter that is set, the default of one that is not.\<close>

definition param :: "'a option \<Rightarrow> 'a \<Rightarrow> 'a" where
  "param p d = (case p of Some v \<Rightarrow> v | None \<Rightarrow> d)"

end
