(* ===== verification/Transport_Keys.thy ===== *)
theory Transport_Keys
  imports Types
begin

text \<open>
  Task-semantic sample keys: \<^verbatim>\<open>src/core/transport_keys.cpp\<close>. A key has the shape
  \<^verbatim>\<open>swarm_sync/v1/session/S/task/T/channel/C/schema/D\<close> with non-empty fields over a restricted
  alphabet. The out-parameter \<^verbatim>\<open>reason\<close> is the error side of a sum. The main results are that a built
  key splits back into its fields, so that keys of different fields differ, and that
  \<open>validateTaskSampleKey\<close> accepts exactly the keys \<open>buildTaskSampleKey\<close> can build.
\<close>

section \<open>Definitions\<close>

definition kPrefix :: string where "kPrefix = ''swarm_sync''"
definition kVersion :: string where "kVersion = ''v1''"

definition isValidChar :: "char \<Rightarrow> bool" where
  "isValidChar value \<longleftrightarrow>
     (of_char value \<ge> (of_char CHR ''a'' :: nat) \<and> of_char value \<le> (of_char CHR ''z'' :: nat)) \<or>
     (of_char value \<ge> (of_char CHR ''A'' :: nat) \<and> of_char value \<le> (of_char CHR ''Z'' :: nat)) \<or>
     (of_char value \<ge> (of_char CHR ''0'' :: nat) \<and> of_char value \<le> (of_char CHR ''9'' :: nat)) \<or>
     value = CHR ''_'' \<or> value = CHR ''-'' \<or> value = CHR ''.''"

text \<open>\<open>Inl reason\<close> is the return value \<^verbatim>\<open>false\<close> with the reason written.\<close>

fun validateChars :: "string \<Rightarrow> string \<Rightarrow> string + unit" where
  "validateChars name [] = Inr ()"
| "validateChars name (c # cs) =
     (if \<not> isValidChar c then Inl (name @ '' contains an illegal character'')
      else validateChars name cs)"

definition validateField :: "string \<Rightarrow> string \<Rightarrow> string + unit" where
  "validateField name value =
     (if value = [] then Inl (name @ '' is required'') else validateChars name value)"

text \<open>
  \<^verbatim>\<open>splitSampleKey\<close> scans for the next slash from \<^verbatim>\<open>start\<close> on; \<open>rest\<close> is the suffix of the key that begins
  there. \<^verbatim>\<open>std::string::find\<close> is \<open>takeWhile\<close>.
\<close>

function splitSampleKey :: "string \<Rightarrow> string list" where
  "splitSampleKey rest =
     (let part = takeWhile (\<lambda>c. c \<noteq> CHR ''/'') rest
      in if length part = length rest then [rest]
         else part # splitSampleKey (drop (length part + 1) rest))"
  by pat_completeness auto
termination
  by (relation "measure length") (auto intro!: diff_less)

declare splitSampleKey.simps [simp del]

record TransportKeyFields =
  key_session_id :: string
  key_task_id :: string
  key_channel :: string
  key_schema_id :: string

text \<open>\<^verbatim>\<open>TransportKeyResult\<close>: the key, or the error of a result that is not ok.\<close>

type_synonym TransportKeyResult = "string + string"

definition buildTaskSampleKey :: "TransportKeyFields \<Rightarrow> TransportKeyResult" where
  "buildTaskSampleKey flds =
     and_then (validateField ''session_id'' (key_session_id flds))
    (and_then (validateField ''task_id'' (key_task_id flds))
    (and_then (validateField ''channel'' (key_channel flds))
    (and_then (validateField ''schema_id'' (key_schema_id flds))
      (Inr (kPrefix @ ''/'' @ kVersion @
            ''/session/'' @ key_session_id flds @
            ''/task/'' @ key_task_id flds @
            ''/channel/'' @ key_channel flds @
            ''/schema/'' @ key_schema_id flds)))))"

definition buildTaskSampleKey_envelope :: "SampleEnvelope \<Rightarrow> TransportKeyResult" where
  "buildTaskSampleKey_envelope envelope =
     buildTaskSampleKey
       \<lparr>key_session_id = env_session_id envelope, key_task_id = env_task_id envelope,
        key_channel = env_channel envelope, key_schema_id = env_schema_id envelope\<rparr>"

definition isValidTaskKeyField :: "string \<Rightarrow> bool" where
  "isValidTaskKeyField value \<longleftrightarrow> (case validateField ''field'' value of Inl _ \<Rightarrow> False | Inr _ \<Rightarrow> True)"

definition validateTaskSampleKey :: "string \<Rightarrow> string + unit" where
  "validateTaskSampleKey key =
     (let parts = splitSampleKey key
      in if length parts \<noteq> 10 then Inl ''sample key must have the task-semantic sample shape''
         else if parts ! 0 \<noteq> kPrefix \<or> parts ! 1 \<noteq> kVersion \<or> parts ! 2 \<noteq> ''session'' \<or>
                 parts ! 4 \<noteq> ''task'' \<or> parts ! 6 \<noteq> ''channel'' \<or> parts ! 8 \<noteq> ''schema''
              then Inl ''sample key must use task-semantic labels''
         else and_then (validateField ''session_id'' (parts ! 3))
             (and_then (validateField ''task_id'' (parts ! 5))
             (and_then (validateField ''channel'' (parts ! 7))
                       (validateField ''schema_id'' (parts ! 9)))))"

section \<open>Field validation\<close>

lemma validateChars_Inr: "validateChars name cs = Inr () \<longleftrightarrow> (\<forall>c \<in> set cs. isValidChar c)"
  by (induction cs) auto

lemma validateField_Inr: "validateField name v = Inr () \<longleftrightarrow> v \<noteq> [] \<and> (\<forall>c \<in> set v. isValidChar c)"
  by (simp add: validateField_def validateChars_Inr)

lemma isValidTaskKeyField_iff: "isValidTaskKeyField v \<longleftrightarrow> v \<noteq> [] \<and> (\<forall>c \<in> set v. isValidChar c)"
  using validateField_Inr [of "''field''" v]
  by (auto simp: isValidTaskKeyField_def split: sum.splits)

lemma isValidTaskKeyField_validateField:
  "validateField name v = Inr () \<longleftrightarrow> isValidTaskKeyField v"
  by (simp add: validateField_Inr isValidTaskKeyField_iff)

lemma slash_invalid: "isValidChar c \<Longrightarrow> c \<noteq> CHR ''/''"
  by (auto simp: isValidChar_def)

lemma valid_field_no_slash: "isValidTaskKeyField v \<Longrightarrow> CHR ''/'' \<notin> set v"
  using slash_invalid by (auto simp: isValidTaskKeyField_iff)

section \<open>Splitting\<close>

lemma split_part:
  "CHR ''/'' \<notin> set p \<Longrightarrow> splitSampleKey (p @ CHR ''/'' # rest) = p # splitSampleKey rest"
  by (subst splitSampleKey.simps) (auto simp: takeWhile_append)

lemma split_last: "CHR ''/'' \<notin> set p \<Longrightarrow> splitSampleKey p = [p]"
proof -
  assume "CHR ''/'' \<notin> set p"
  then have "takeWhile (\<lambda>c. c \<noteq> CHR ''/'') p = p" by auto
  then show ?thesis unfolding splitSampleKey.simps [of p] by (simp only: Let_def refl if_True)
qed

fun join_slash :: "string list \<Rightarrow> string" where
  "join_slash [] = []"
| "join_slash [p] = p"
| "join_slash (p # q # ps) = p @ CHR ''/'' # join_slash (q # ps)"

lemma splitSampleKey_nonempty: "splitSampleKey s \<noteq> []"
  by (subst splitSampleKey.simps) (simp add: Let_def)

lemma split_shape:
  obtains "CHR ''/'' \<notin> set s"
  | p rest where "s = p @ CHR ''/'' # rest" "CHR ''/'' \<notin> set p"
  using split_list_first [of "CHR ''/''" s] by blast

lemma join_split: "join_slash (splitSampleKey s) = s"
proof (induction s rule: length_induct)
  case (1 s)
  show ?case
  proof (rule split_shape [of s])
    assume "CHR ''/'' \<notin> set s"
    then show ?thesis by (simp add: split_last)
  next
    fix p rest
    assume s: "s = p @ CHR ''/'' # rest" and p: "CHR ''/'' \<notin> set p"
    then have "join_slash (splitSampleKey rest) = rest" using 1 by simp
    with s p show ?thesis
      using splitSampleKey_nonempty [of rest] by (auto simp: split_part neq_Nil_conv)
  qed
qed

lemma split_join:
  "ps \<noteq> [] \<Longrightarrow> \<forall>p \<in> set ps. CHR ''/'' \<notin> set p \<Longrightarrow> splitSampleKey (join_slash ps) = ps"
  by (induction ps rule: join_slash.induct) (auto simp: split_part split_last)

section \<open>Building and validating\<close>

definition valid_fields :: "TransportKeyFields \<Rightarrow> bool" where
  "valid_fields f \<longleftrightarrow>
     isValidTaskKeyField (key_session_id f) \<and> isValidTaskKeyField (key_task_id f) \<and>
     isValidTaskKeyField (key_channel f) \<and> isValidTaskKeyField (key_schema_id f)"

definition key_parts :: "TransportKeyFields \<Rightarrow> string list" where
  "key_parts f =
     [kPrefix, kVersion, ''session'', key_session_id f, ''task'', key_task_id f,
      ''channel'', key_channel f, ''schema'', key_schema_id f]"

lemma build_Inr: "buildTaskSampleKey f = Inr k \<longleftrightarrow> valid_fields f \<and> k = join_slash (key_parts f)"
  by (auto simp: buildTaskSampleKey_def and_then_Inr isValidTaskKeyField_validateField
      valid_fields_def key_parts_def)

lemma split_built:
  assumes "valid_fields f" shows "splitSampleKey (join_slash (key_parts f)) = key_parts f"
  using assms valid_field_no_slash
  by (intro split_join) (auto simp: key_parts_def valid_fields_def kPrefix_def kVersion_def)

lemma list_10:
  "length ps = 10 \<Longrightarrow>
   ps = [ps ! 0, ps ! 1, ps ! 2, ps ! 3, ps ! 4, ps ! 5, ps ! 6, ps ! 7, ps ! 8, ps ! 9]"
  by (auto simp: numeral_eq_Suc length_Suc_conv)

lemma validate_Inr:
  "validateTaskSampleKey k = Inr () \<longleftrightarrow> (\<exists>f. valid_fields f \<and> splitSampleKey k = key_parts f)"
  (is "?l \<longleftrightarrow> ?r")
proof
  assume l: ?l
  define ps where "ps = splitSampleKey k"
  let ?f = "\<lparr>key_session_id = ps ! 3, key_task_id = ps ! 5, key_channel = ps ! 7,
              key_schema_id = ps ! 9\<rparr>"
  from l have len: "length ps = 10" and v: "valid_fields ?f"
    and labels: "ps ! 0 = kPrefix" "ps ! 1 = kVersion" "ps ! 2 = ''session''" "ps ! 4 = ''task''"
      "ps ! 6 = ''channel''" "ps ! 8 = ''schema''"
    by (auto simp: validateTaskSampleKey_def ps_def Let_def valid_fields_def and_then_Inr
        isValidTaskKeyField_validateField split: if_splits)
  have "ps = key_parts ?f"
    using list_10 [OF len] unfolding key_parts_def labels by simp
  with v show ?r unfolding ps_def by blast
next
  assume ?r
  then show ?l
    by (auto simp: validateTaskSampleKey_def key_parts_def valid_fields_def
        isValidTaskKeyField_validateField and_then_Inr)
qed

text \<open>
  C22. A key validates exactly when it is a key that \<open>buildTaskSampleKey\<close> produces for some fields:
  validation accepts every built key and nothing else.
\<close>

theorem validate_iff_built:
  "validateTaskSampleKey k = Inr () \<longleftrightarrow> (\<exists>f. buildTaskSampleKey f = Inr k)"
  unfolding validate_Inr build_Inr using join_split split_built by metis

lemma built_key_validates: "buildTaskSampleKey f = Inr k \<Longrightarrow> validateTaskSampleKey k = Inr ()"
  unfolding validate_Inr build_Inr using split_built by metis

text \<open>Keys separate streams: two field tuples that build the same key are equal.\<close>

lemma build_injective:
  assumes "buildTaskSampleKey f = Inr k" and "buildTaskSampleKey g = Inr k"
  shows "f = g"
proof -
  have "key_parts f = key_parts g"
    using assms split_built unfolding build_Inr by metis
  then show ?thesis by (simp add: key_parts_def)
qed

end
