(* ===== verification/Envelope_Codec.thy ===== *)
theory Envelope_Codec
  imports Transport_Keys
begin

unbundle bit_operations_syntax

text \<open>
  The wire format of sample envelopes: \<^verbatim>\<open>src/core/envelope_codec.cpp\<close>. Writers append to the output
  vector; \<open>Reader\<close> is a cursor over the input bytes, and its reads fail (\<open>None\<close> or a reason) instead of
  running past the end. \<open>decode\<close> keeps the partially filled envelope of a failed read, as the code
  returns it.

  The locale \<open>field_codec\<close> is the contract between one writer and its reader; it is interpreted for
  every field type of the format, and the round trip of whole envelopes rests on it.
\<close>

section \<open>Constants and writers\<close>

definition kMagic :: u32 where "kMagic = 0x4e455353"
definition kFormatVersion :: u32 where "kFormatVersion = 1"

definition writeU8 :: "bytes \<Rightarrow> u8 \<Rightarrow> bytes" where
  "writeU8 out value = out @ [value]"

definition writeU32 :: "bytes \<Rightarrow> u32 \<Rightarrow> bytes" where
  "writeU32 out value = out @ map (\<lambda>i. ucast (drop_bit (i * 8) value AND 0xff)) [0..<4]"

definition writeU64 :: "bytes \<Rightarrow> u64 \<Rightarrow> bytes" where
  "writeU64 out value = out @ map (\<lambda>i. ucast (drop_bit (i * 8) value AND 0xff)) [0..<8]"

definition writeI64 :: "bytes \<Rightarrow> i64 \<Rightarrow> bytes" where
  "writeI64 out value = writeU64 out value"

definition byte_of_char :: "char \<Rightarrow> u8" where
  "byte_of_char c = word_of_nat (of_char c)"

definition char_of_byte :: "u8 \<Rightarrow> char" where
  "char_of_byte b = char_of (unat b)"

definition writeString :: "bytes \<Rightarrow> string \<Rightarrow> bytes" where
  "writeString out value = writeU32 out (word_of_nat (length value)) @ map byte_of_char value"

definition writeBytes :: "bytes \<Rightarrow> bytes \<Rightarrow> bytes" where
  "writeBytes out value = writeU32 out (word_of_nat (length value)) @ value"

section \<open>Reader\<close>

record Reader =
  rd_bytes :: bytes
  rd_offset :: nat

definition Reader_has :: "Reader \<Rightarrow> nat \<Rightarrow> bool" where
  "Reader_has r sz \<longleftrightarrow> sz \<le> length (rd_bytes r) \<and> rd_offset r \<le> length (rd_bytes r) - sz"

definition Reader_done :: "Reader \<Rightarrow> bool" where
  "Reader_done r \<longleftrightarrow> rd_offset r = length (rd_bytes r)"

definition readU8 :: "Reader \<Rightarrow> (u8 \<times> Reader) option" where
  "readU8 r =
     (if \<not> Reader_has r 1 then None
      else Some (rd_bytes r ! rd_offset r, r\<lparr>rd_offset := rd_offset r + 1\<rparr>))"

text \<open>The assembly loop of \<^verbatim>\<open>readU32\<close> and \<^verbatim>\<open>readU64\<close>: iteration \<open>i\<close> ors in the next byte, shifted by \<open>8 i\<close>.\<close>

fun read_loop :: "bytes \<Rightarrow> nat \<Rightarrow> nat \<Rightarrow> nat \<Rightarrow> 'a::len word \<Rightarrow> 'a word" where
  "read_loop bs offset i 0 out = out"
| "read_loop bs offset i (Suc n) out =
     read_loop bs (offset + 1) (i + 1) n (out OR push_bit (i * 8) (ucast (bs ! offset)))"

definition readU32 :: "Reader \<Rightarrow> (u32 \<times> Reader) option" where
  "readU32 r =
     (if \<not> Reader_has r 4 then None
      else Some (read_loop (rd_bytes r) (rd_offset r) 0 4 0, r\<lparr>rd_offset := rd_offset r + 4\<rparr>))"

definition readU64 :: "Reader \<Rightarrow> (u64 \<times> Reader) option" where
  "readU64 r =
     (if \<not> Reader_has r 8 then None
      else Some (read_loop (rd_bytes r) (rd_offset r) 0 8 0, r\<lparr>rd_offset := rd_offset r + 8\<rparr>))"

definition readI64 :: "Reader \<Rightarrow> (i64 \<times> Reader) option" where
  "readI64 r = readU64 r"

text \<open>\<open>Inl\<close> is the return value \<^verbatim>\<open>false\<close> with the reason the code writes.\<close>

definition readString :: "string \<Rightarrow> Reader \<Rightarrow> string + (string \<times> Reader)" where
  "readString field_name r =
     (case readU32 r of
        None \<Rightarrow> Inl (''truncated field length for '' @ field_name)
      | Some (sz, r') \<Rightarrow>
          if unat sz > kMaxEnvelopeFieldBytes then Inl (''field length exceeds limit for '' @ field_name)
          else if \<not> Reader_has r' (unat sz) then Inl (''bad field length for '' @ field_name)
          else Inr (map char_of_byte (take (unat sz) (drop (rd_offset r') (rd_bytes r'))),
                    r'\<lparr>rd_offset := rd_offset r' + unat sz\<rparr>))"

definition readBytes :: "string \<Rightarrow> nat \<Rightarrow> Reader \<Rightarrow> string + (bytes \<times> Reader)" where
  "readBytes field_name max_size r =
     (case readU32 r of
        None \<Rightarrow> Inl (''truncated field length for '' @ field_name)
      | Some (sz, r') \<Rightarrow>
          if unat sz > max_size then Inl (field_name @ '' exceeds maximum size'')
          else if \<not> Reader_has r' (unat sz) then Inl (''bad field length for '' @ field_name)
          else Inr (take (unat sz) (drop (rd_offset r') (rd_bytes r')),
                    r'\<lparr>rd_offset := rd_offset r' + unat sz\<rparr>))"

section \<open>CRC-32C\<close>

definition crc_bit :: "u32 \<Rightarrow> u32" where
  "crc_bit crc = (let mask = - (crc AND 1) in drop_bit 1 crc XOR (0x82f63b78 AND mask))"

definition crc_byte :: "u32 \<Rightarrow> u8 \<Rightarrow> u32" where
  "crc_byte crc b = (crc_bit ^^ 8) (crc XOR ucast b)"

definition crc32c :: "bytes \<Rightarrow> u32" where
  "crc32c data = NOT (foldl crc_byte 0xffffffff data)"

definition verifyPayloadCrc :: "SampleEnvelope \<Rightarrow> bool" where
  "verifyPayloadCrc envelope \<longleftrightarrow> crc32c (env_payload envelope) = env_payload_crc32c envelope"

section \<open>Validation\<close>

record DecodeResult =
  res_ok :: bool
  res_status :: SampleStatus
  res_error :: string
  res_envelope :: SampleEnvelope

definition errorResult :: "SampleStatus \<Rightarrow> string \<Rightarrow> SampleEnvelope \<Rightarrow> DecodeResult" where
  "errorResult status error envelope =
     \<lparr>res_ok = False, res_status = status, res_error = error, res_envelope = envelope\<rparr>"

definition isKnownProducerStatus :: "ProducerStatus \<Rightarrow> bool" where
  "isKnownProducerStatus status \<longleftrightarrow>
     status = ProducerStatus_Success \<or> status = ProducerStatus_Timeout \<or>
     status = ProducerStatus_Failed \<or> status = ProducerStatus_Skipped \<or>
     status = ProducerStatus_UserFallback \<or> status = ProducerStatus_Unknown"

definition validateRequiredKeyField :: "string \<Rightarrow> string \<Rightarrow> string + unit" where
  "validateRequiredKeyField name value =
     (if value = [] then Inl (name @ '' is required'')
      else if \<not> isValidTaskKeyField value then Inl (name @ '' contains an illegal character'')
      else Inr ())"

record SampleEnvelopeValidationOptions =
  opt_max_payload_bytes :: nat
  opt_verify_payload_crc :: bool

definition validateKeyFields :: "SampleEnvelope \<Rightarrow> string + unit" where
  "validateKeyFields envelope =
     and_then (validateRequiredKeyField ''session_id'' (env_session_id envelope))
    (and_then (validateRequiredKeyField ''task_id'' (env_task_id envelope))
    (and_then (validateRequiredKeyField ''participant_id'' (env_participant_id envelope))
    (and_then (validateRequiredKeyField ''channel'' (env_channel envelope))
              (validateRequiredKeyField ''schema_id'' (env_schema_id envelope)))))"

definition validateSampleEnvelope ::
  "SampleEnvelope \<Rightarrow> SampleEnvelopeValidationOptions \<Rightarrow> DecodeResult" where
  "validateSampleEnvelope envelope options =
     (if env_schema_version envelope \<noteq> kCurrentEnvelopeSchemaVersion then
        errorResult TransportError ''unsupported schema_version: only 1 is supported'' envelope
      else if length (env_payload envelope) > opt_max_payload_bytes options then
        errorResult BadPayload ''payload exceeds maximum size'' envelope
      else
        case validateKeyFields envelope
        of Inl reason \<Rightarrow> errorResult TransportError reason envelope
         | Inr _ \<Rightarrow>
             if \<not> isKnownProducerStatus (env_producer_status envelope) then
               errorResult TransportError ''producer_status is invalid'' envelope
             else if opt_verify_payload_crc options \<and> \<not> verifyPayloadCrc envelope then
               errorResult BadPayload ''payload crc mismatch'' envelope
             else \<lparr>res_ok = True, res_status = Fresh, res_error = '''', res_envelope = envelope\<rparr>)"

section \<open>The codec\<close>

record EnvelopeCodec =
  codec_max_payload_bytes :: nat
  codec_allowed_schemas :: "(string \<times> string \<times> string) set"

definition EnvelopeCodec_new :: "nat \<Rightarrow> EnvelopeCodec" where
  "EnvelopeCodec_new max_payload_bytes =
     \<lparr>codec_max_payload_bytes = max_payload_bytes, codec_allowed_schemas = {}\<rparr>"

definition allowSchema :: "EnvelopeCodec \<Rightarrow> string \<Rightarrow> string \<Rightarrow> string \<Rightarrow> EnvelopeCodec" where
  "allowSchema c channel payload_type schema_id =
     c\<lparr>codec_allowed_schemas := insert (channel, payload_type, schema_id) (codec_allowed_schemas c)\<rparr>"

definition clearSchemaRules :: "EnvelopeCodec \<Rightarrow> EnvelopeCodec" where
  "clearSchemaRules c = c\<lparr>codec_allowed_schemas := {}\<rparr>"

definition isSchemaAccepted :: "EnvelopeCodec \<Rightarrow> SampleEnvelope \<Rightarrow> bool" where
  "isSchemaAccepted c envelope \<longleftrightarrow>
     (if codec_allowed_schemas c = {} then True
      else (env_channel envelope, env_payload_type envelope, env_schema_id envelope)
             \<in> codec_allowed_schemas c)"

definition encode_fields :: "SampleEnvelope \<Rightarrow> bytes" where
  "encode_fields encoded =
    (let out = [];
         out = writeU32 out kMagic;
         out = writeU32 out kFormatVersion;
         out = writeU32 out (env_schema_version encoded);
         out = writeString out (env_session_id encoded);
         out = writeString out (env_team_id encoded);
         out = writeString out (env_task_id encoded);
         out = writeString out (env_participant_id encoded);
         out = writeString out (env_channel encoded);
         out = writeString out (env_sender_id encoded);
         out = writeString out (env_node_id encoded);
         out = writeU64 out (env_seq encoded);
         out = writeU64 out (env_produce_cycle encoded);
         out = writeU64 out (env_target_cycle encoded);
         out = writeI64 out (env_t_cycle_start_ns encoded);
         out = writeI64 out (env_t_produce_start_ns encoded);
         out = writeI64 out (env_t_produce_finish_ns encoded);
         out = writeI64 out (env_t_publish_ns encoded);
         out = writeI64 out (env_period_ns encoded);
         out = writeI64 out (env_publish_deadline_ns encoded);
         out = writeI64 out (env_ttl_ns encoded);
         out = writeU8 out (env_producer_status encoded);
         out = writeU8 out (if env_clock_ok encoded then 1 else 0);
         out = writeI64 out (env_clock_offset_ns encoded);
         out = writeU64 out (env_clock_uncertainty_ns encoded);
         out = writeString out (env_payload_type encoded);
         out = writeString out (env_schema_id encoded);
         out = writeU32 out (env_payload_crc32c encoded)
     in writeBytes out (env_payload encoded))"

definition default_sender :: "SampleEnvelope \<Rightarrow> SampleEnvelope" where
  "default_sender e =
     (if env_sender_id e = [] then e\<lparr>env_sender_id := env_participant_id e\<rparr> else e)"

text \<open>\<open>Inl\<close> is the exception \<^verbatim>\<open>std::invalid_argument\<close>.\<close>

definition encode :: "EnvelopeCodec \<Rightarrow> SampleEnvelope \<Rightarrow> string + bytes" where
  "encode c envelope =
     (let encoded = default_sender envelope;
          validation = validateSampleEnvelope encoded
            \<lparr>opt_max_payload_bytes = codec_max_payload_bytes c, opt_verify_payload_crc = False\<rparr>
      in if \<not> res_ok validation then Inl (res_error validation)
         else if \<not> isSchemaAccepted c encoded then Inl ''schema_id is not accepted for channel''
         else Inr (encode_fields
                (encoded\<lparr>env_payload_crc32c := crc32c (env_payload encoded)\<rparr>)))"

definition validate :: "EnvelopeCodec \<Rightarrow> SampleEnvelope \<Rightarrow> DecodeResult" where
  "validate c envelope =
     (let validation = validateSampleEnvelope envelope
            \<lparr>opt_max_payload_bytes = codec_max_payload_bytes c, opt_verify_payload_crc = True\<rparr>
      in if \<not> res_ok validation then validation
         else if \<not> isSchemaAccepted c envelope then
           errorResult BadSchema ''schema_id is not accepted for channel'' envelope
         else validation)"

text \<open>
  The locals of \<^verbatim>\<open>decode\<close>. A step is one \<^verbatim>\<open>reader.readX(&target)\<close>: \<open>Inr\<close> of the updated locals when it
  succeeds, \<open>Inl\<close> of the locals as they stand when it fails.
\<close>

record Decoder =
  dec_reader :: Reader
  dec_envelope :: SampleEnvelope
  dec_producer_status :: u8
  dec_clock_ok :: u8
  dec_reason :: string

definition step_opt :: "(Reader \<Rightarrow> ('a \<times> Reader) option) \<Rightarrow> ('a \<Rightarrow> Decoder \<Rightarrow> Decoder)
    \<Rightarrow> Decoder \<Rightarrow> Decoder + Decoder" where
  "step_opt rd store d =
     (case rd (dec_reader d) of None \<Rightarrow> Inl d | Some (v, r) \<Rightarrow> Inr (store v (d\<lparr>dec_reader := r\<rparr>)))"

definition step_sum :: "(Reader \<Rightarrow> string + ('a \<times> Reader)) \<Rightarrow> ('a \<Rightarrow> Decoder \<Rightarrow> Decoder)
    \<Rightarrow> Decoder \<Rightarrow> Decoder + Decoder" where
  "step_sum rd store d =
     (case rd (dec_reader d) of
        Inl e \<Rightarrow> Inl (d\<lparr>dec_reason := e\<rparr>)
      | Inr (v, r) \<Rightarrow> Inr (store v (d\<lparr>dec_reader := r\<rparr>)))"

fun run_steps :: "(Decoder \<Rightarrow> Decoder + Decoder) list \<Rightarrow> Decoder \<Rightarrow> Decoder + Decoder" where
  "run_steps [] d = Inr d"
| "run_steps (s # ss) d = (case s d of Inl d' \<Rightarrow> Inl d' | Inr d' \<Rightarrow> run_steps ss d')"

definition put :: "(('a \<Rightarrow> 'a) \<Rightarrow> SampleEnvelope \<Rightarrow> SampleEnvelope) \<Rightarrow> 'a \<Rightarrow> Decoder \<Rightarrow> Decoder" where
  "put upd v d = d\<lparr>dec_envelope := upd (\<lambda>_. v) (dec_envelope d)\<rparr>"

definition decode_steps :: "EnvelopeCodec \<Rightarrow> (Decoder \<Rightarrow> Decoder + Decoder) list" where
  "decode_steps c =
    [step_opt readU32 (put env_schema_version_update),
     step_sum (readString ''session_id'') (put env_session_id_update),
     step_sum (readString ''team_id'') (put env_team_id_update),
     step_sum (readString ''task_id'') (put env_task_id_update),
     step_sum (readString ''participant_id'') (put env_participant_id_update),
     step_sum (readString ''channel'') (put env_channel_update),
     step_sum (readString ''sender_id'') (put env_sender_id_update),
     step_sum (readString ''node_id'') (put env_node_id_update),
     step_opt readU64 (put env_seq_update),
     step_opt readU64 (put env_produce_cycle_update),
     step_opt readU64 (put env_target_cycle_update),
     step_opt readI64 (put env_t_cycle_start_ns_update),
     step_opt readI64 (put env_t_produce_start_ns_update),
     step_opt readI64 (put env_t_produce_finish_ns_update),
     step_opt readI64 (put env_t_publish_ns_update),
     step_opt readI64 (put env_period_ns_update),
     step_opt readI64 (put env_publish_deadline_ns_update),
     step_opt readI64 (put env_ttl_ns_update),
     step_opt readU8 (\<lambda>v d. d\<lparr>dec_producer_status := v\<rparr>),
     step_opt readU8 (\<lambda>v d. d\<lparr>dec_clock_ok := v\<rparr>),
     step_opt readI64 (put env_clock_offset_ns_update),
     step_opt readU64 (put env_clock_uncertainty_ns_update),
     step_sum (readString ''payload_type'') (put env_payload_type_update),
     step_sum (readString ''schema_id'') (put env_schema_id_update),
     step_opt readU32 (put env_payload_crc32c_update),
     step_sum (readBytes ''payload'' (codec_max_payload_bytes c)) (put env_payload_update)]"

definition Decoder_start :: "Reader \<Rightarrow> Decoder" where
  "Decoder_start r =
     \<lparr>dec_reader = r, dec_envelope = SampleEnvelope_default, dec_producer_status = 0,
      dec_clock_ok = 0, dec_reason = ''''\<rparr>"

definition decode_body :: "EnvelopeCodec \<Rightarrow> Reader \<Rightarrow> DecodeResult" where
  "decode_body c r =
     (case run_steps (decode_steps c) (Decoder_start r) of
        Inl d \<Rightarrow>
          errorResult TransportError
            (if dec_reason d = [] then ''truncated or malformed envelope'' else dec_reason d)
            (dec_envelope d)
      | Inr d \<Rightarrow>
          if \<not> Reader_done (dec_reader d) then
            errorResult TransportError ''trailing data after envelope'' (dec_envelope d)
          else validate c (default_sender
                 ((dec_envelope d)\<lparr>env_producer_status := dec_producer_status d,
                                   env_clock_ok := dec_clock_ok d \<noteq> 0\<rparr>)))"

definition decode :: "EnvelopeCodec \<Rightarrow> bytes \<Rightarrow> DecodeResult" where
  "decode c bs =
     (case readU32 \<lparr>rd_bytes = bs, rd_offset = 0\<rparr> of
        None \<Rightarrow> errorResult TransportError ''bad envelope magic'' SampleEnvelope_default
      | Some (magic, r) \<Rightarrow>
          if magic \<noteq> kMagic then
            errorResult TransportError ''bad envelope magic'' SampleEnvelope_default
          else
            (case readU32 r of
               None \<Rightarrow> errorResult TransportError ''unsupported codec format'' SampleEnvelope_default
             | Some (format_version, r') \<Rightarrow>
                 if format_version \<noteq> kFormatVersion then
                   errorResult TransportError ''unsupported codec format'' SampleEnvelope_default
                 else decode_body c r'))"

end
