(* ===== verification/Envelope_Roundtrip.thy ===== *)
theory Envelope_Roundtrip
  imports Envelope_Codec
begin

unbundle bit_operations_syntax

text \<open>
  Correctness of the wire format of \<open>Envelope_Codec\<close>: what is encoded decodes to the same envelope, an
  input that is cut short or continued is refused, what decodes satisfies every check of the
  validator, and the checksum notices every change of a single payload byte.
\<close>

section \<open>Writers\<close>

lemma write_append:
  "writeU8 out a = out @ writeU8 [] a" "writeU32 out b = out @ writeU32 [] b"
  "writeU64 out d = out @ writeU64 [] d" "writeI64 out i = out @ writeI64 [] i"
  "writeString out s = out @ writeString [] s" "writeBytes out bs = out @ writeBytes [] bs"
  by (simp_all add: writeU8_def writeU32_def writeU64_def writeI64_def writeString_def writeBytes_def)

lemma write_length [simp]:
  "length (writeU8 [] a) = 1" "length (writeU32 [] b) = 4" "length (writeU64 [] d) = 8"
  by (simp_all add: writeU8_def writeU32_def writeU64_def)

lemma and_0xff: "x AND 0xff = take_bit 8 (x :: 'a::len word)"
proof -
  have "(0xff :: 'a word) = mask 8" by (simp add: mask_eq_exp_minus_1)
  then show ?thesis by (simp add: take_bit_eq_mask)
qed

lemma write_byte: "ucast (ucast (x AND 0xff) :: u8) = (take_bit 8 x :: 'a::len word)"
  unfolding and_0xff by (rule bit_eqI) (auto simp: bit_simps)

lemma read_loop_write:
  fixes v out :: "'a::len word"
  shows "read_loop (pre @ map (\<lambda>j. ucast (drop_bit (j * 8) v AND 0xff)) [i..<i + n] @ rest)
      (length pre) i n out = out OR push_bit (i * 8) (take_bit (n * 8) (drop_bit (i * 8) v))"
proof (induction n arbitrary: i pre out)
  case (Suc n)
  let ?b = "\<lambda>j. ucast (drop_bit (j * 8) v AND 0xff) :: u8"
  have u: "[i..<i + Suc n] = i # [Suc i..<Suc i + n]"
    by (simp add: upt_conv_Cons)
  have "read_loop (pre @ map ?b [i..<i + Suc n] @ rest) (length pre) i (Suc n) out =
      read_loop ((pre @ [?b i]) @ map ?b [Suc i..<Suc i + n] @ rest) (length (pre @ [?b i])) (Suc i) n
        (out OR push_bit (i * 8) (ucast (?b i)))"
    unfolding u by (simp add: nth_append del: upt_Suc)
  also have "\<dots> = out OR push_bit (i * 8) (take_bit 8 (drop_bit (i * 8) v)) OR
      push_bit (Suc i * 8) (take_bit (n * 8) (drop_bit (Suc i * 8) v))"
    unfolding Suc.IH write_byte by (simp add: or.assoc)
  also have "\<dots> = out OR push_bit (i * 8) (take_bit (Suc n * 8) (drop_bit (i * 8) v))"
  proof (rule bit_eqI)
    fix k
    show "bit (out OR push_bit (i * 8) (take_bit 8 (drop_bit (i * 8) v)) OR
        push_bit (Suc i * 8) (take_bit (n * 8) (drop_bit (Suc i * 8) v))) k =
      bit (out OR push_bit (i * 8) (take_bit (Suc n * 8) (drop_bit (i * 8) v))) k"
      by (cases "8 + i * 8 \<le> k") (auto simp: bit_simps)
  qed
  finally show ?case .
qed simp

lemma char_byte [simp]: "char_of_byte (byte_of_char c) = c"
proof -
  have "of_char c < (256 :: nat)" by simp
  then have "unat (word_of_nat (of_char c) :: u8) = of_char c" by (simp add: unat_of_nat)
  then show ?thesis by (simp add: char_of_byte_def byte_of_char_def)
qed

section \<open>The contract of a field type\<close>

text \<open>\<open>reader_at pre rest\<close> has consumed \<open>pre\<close> and has \<open>rest\<close> before it.\<close>

definition reader_at :: "bytes \<Rightarrow> bytes \<Rightarrow> Reader" where
  "reader_at pre rest = \<lparr>rd_bytes = pre @ rest, rd_offset = length pre\<rparr>"

definition sum_opt :: "'e + 'a \<Rightarrow> 'a option" where
  "sum_opt c = (case c of Inl _ \<Rightarrow> None | Inr x \<Rightarrow> Some x)"

lemma sum_opt_Some [simp]: "sum_opt c = Some x \<longleftrightarrow> c = Inr x"
  by (cases c) (simp_all add: sum_opt_def)

definition append_input :: "bytes \<Rightarrow> Reader \<Rightarrow> Reader" where
  "append_input ext r = r\<lparr>rd_bytes := rd_bytes r @ ext\<rparr>"

locale field_codec =
  fixes enc :: "'a \<Rightarrow> bytes"
    and rd :: "Reader \<Rightarrow> ('a \<times> Reader) option"
    and fits :: "'a \<Rightarrow> bool"
  assumes rd_enc: "fits v \<Longrightarrow> rd (reader_at pre (enc v @ rest)) = Some (v, reader_at (pre @ enc v) rest)"
    and rd_extend: "rd r = Some (v, r') \<Longrightarrow> rd (append_input ext r) = Some (v, append_input ext r')"
    and rd_bounds: "rd r = Some (v, r') \<Longrightarrow> rd_offset r \<le> length (rd_bytes r) \<Longrightarrow>
      rd_bytes r' = rd_bytes r \<and> rd_offset r \<le> rd_offset r' \<and> rd_offset r' \<le> length (rd_bytes r)"

lemma put_reader [simp]:
  "put upd v (d\<lparr>dec_reader := r\<rparr>) = (put upd v d)\<lparr>dec_reader := r\<rparr>"
  "dec_reader (put upd v d) = dec_reader d"
  by (simp_all add: put_def)

context field_codec
begin

lemma step_opt_enc:
  assumes "fits v" and "\<And>r. store v (d\<lparr>dec_reader := r\<rparr>) = (store v d)\<lparr>dec_reader := r\<rparr>"
  shows "step_opt rd store (d\<lparr>dec_reader := reader_at pre (enc v @ rest)\<rparr>) =
    Inr ((store v d)\<lparr>dec_reader := reader_at (pre @ enc v) rest\<rparr>)"
  using rd_enc [OF assms(1)] by (simp add: step_opt_def assms(2))

lemma step_opt_extend:
  assumes "step_opt rd store d = Inr d'"
    and "\<And>v r. dec_reader (store v (d\<lparr>dec_reader := r\<rparr>)) = r"
    and "\<And>v r. store v (d\<lparr>dec_reader := r\<rparr>) = (store v d)\<lparr>dec_reader := r\<rparr>"
  shows "step_opt rd store (d\<lparr>dec_reader := append_input ext (dec_reader d)\<rparr>) =
    Inr (d'\<lparr>dec_reader := append_input ext (dec_reader d')\<rparr>)"
proof -
  from assms(1) obtain v r where "rd (dec_reader d) = Some (v, r)" "d' = store v (d\<lparr>dec_reader := r\<rparr>)"
    by (auto simp: step_opt_def split: option.splits)
  then show ?thesis using rd_extend [of "dec_reader d" v r ext] assms(2,3) by (simp add: step_opt_def)
qed

end

lemma step_sum_opt: "step_sum rd store d = Inr d' \<longleftrightarrow> step_opt (\<lambda>r. sum_opt (rd r)) store d = Inr d'"
  by (auto simp: step_sum_def step_opt_def sum_opt_def split: sum.splits)

lemma has_extend: "Reader_has r n \<Longrightarrow> Reader_has (append_input ext r) n"
  by (auto simp: Reader_has_def append_input_def)

lemma has_at: "Reader_has (reader_at pre rest) n \<longleftrightarrow> n \<le> length rest"
  by (auto simp: Reader_has_def reader_at_def)

lemma read_loop_extend:
  "offset + n \<le> length bs \<Longrightarrow> read_loop (bs @ ext) offset i n out = read_loop bs offset i n out"
  by (induction bs offset i n out rule: read_loop.induct) (auto simp: nth_append)

interpretation u8: field_codec "writeU8 []" readU8 "\<lambda>_. True"
  by unfold_locales
    (auto simp: readU8_def has_at has_extend Reader_has_def append_input_def reader_at_def writeU8_def nth_append
      split: if_splits)

interpretation u32: field_codec "writeU32 []" readU32 "\<lambda>_. True"
proof (unfold_locales, goal_cases)
  case (1 v pre rest)
  have "read_loop (pre @ writeU32 [] v @ rest) (length pre) 0 4 0 = v"
    using read_loop_write [of pre v 0 4 rest 0] unfolding writeU32_def by (simp add: take_bit_word_eq_self)
  then show ?case by (simp add: readU32_def has_at) (simp add: reader_at_def)
qed (auto simp: readU32_def has_extend read_loop_extend Reader_has_def append_input_def split: if_splits)

interpretation u64: field_codec "writeU64 []" readU64 "\<lambda>_. True"
proof (unfold_locales, goal_cases)
  case (1 v pre rest)
  have "read_loop (pre @ writeU64 [] v @ rest) (length pre) 0 8 0 = v"
    using read_loop_write [of pre v 0 8 rest 0] unfolding writeU64_def by (simp add: take_bit_word_eq_self)
  then show ?case by (simp add: readU64_def has_at) (simp add: reader_at_def)
qed (auto simp: readU64_def has_extend read_loop_extend Reader_has_def append_input_def split: if_splits)

interpretation i64: field_codec "writeI64 []" readI64 "\<lambda>_. True"
  unfolding writeI64_def readI64_def by (rule u64.field_codec_axioms)

lemma unat_length_word:
  "n < 2 ^ 32 \<Longrightarrow> unat (word_of_nat n :: u32) = n"
  by (simp add: unat_of_nat)

lemma readString_Inr:
  "readString f r = Inr (v, r') \<longleftrightarrow>
   (\<exists>sz r1. readU32 r = Some (sz, r1) \<and> unat sz \<le> kMaxEnvelopeFieldBytes \<and>
     Reader_has r1 (unat sz) \<and>
     v = map char_of_byte (take (unat sz) (drop (rd_offset r1) (rd_bytes r1))) \<and>
     r' = r1\<lparr>rd_offset := rd_offset r1 + unat sz\<rparr>)"
  by (auto simp: readString_def split: option.splits)

lemma readBytes_Inr:
  "readBytes f mx r = Inr (v, r') \<longleftrightarrow>
   (\<exists>sz r1. readU32 r = Some (sz, r1) \<and> unat sz \<le> mx \<and> Reader_has r1 (unat sz) \<and>
     v = take (unat sz) (drop (rd_offset r1) (rd_bytes r1)) \<and>
     r' = r1\<lparr>rd_offset := rd_offset r1 + unat sz\<rparr>)"
  by (auto simp: readBytes_def split: option.splits)

lemma has_bounds:
  assumes "readU32 r = Some (sz, r1)" "Reader_has r1 n" "rd_offset r \<le> length (rd_bytes r)"
  shows "rd_bytes r1 = rd_bytes r" "rd_offset r \<le> rd_offset r1 + n"
    "rd_offset r1 + n \<le> length (rd_bytes r)"
  using u32.rd_bounds [OF assms(1,3)] assms(2) by (auto simp: Reader_has_def)

lemma slice_extend:
  "Reader_has r n \<Longrightarrow>
   take n (drop (rd_offset r) (rd_bytes (append_input ext r))) =
   take n (drop (rd_offset r) (rd_bytes r))"
  by (auto simp: Reader_has_def append_input_def)

lemma append_input_offset [simp]:
  "append_input ext (r\<lparr>rd_offset := n\<rparr>) = (append_input ext r)\<lparr>rd_offset := n\<rparr>"
  "rd_offset (append_input ext r) = rd_offset r"
  by (simp_all add: append_input_def)

interpretation str: field_codec "writeString []" "\<lambda>r. sum_opt (readString f r)"
    "\<lambda>s. length s \<le> kMaxEnvelopeFieldBytes" for f
proof (unfold_locales, goal_cases)
  case (1 v pre rest)
  then have l: "unat (word_of_nat (length v) :: u32) = length v"
    by (intro unat_length_word) (simp add: kMaxEnvelopeFieldBytes_def)
  let ?w = "writeU32 [] (word_of_nat (length v))"
  have "readU32 (reader_at pre (writeString [] v @ rest)) =
      Some (word_of_nat (length v), reader_at (pre @ ?w) (map byte_of_char v @ rest))"
    using u32.rd_enc by (simp add: writeString_def)
  with 1 l show ?case
    by (auto simp: readString_Inr has_at) (simp_all add: reader_at_def writeString_def comp_def)
next
  case (2 r v r' ext)
  then show ?case
    using u32.rd_extend by (fastforce simp: readString_Inr has_extend slice_extend)
next
  case (3 r v r')
  then show ?case using has_bounds by (auto simp: readString_Inr)
qed

interpretation blob: field_codec "writeBytes []" "\<lambda>r. sum_opt (readBytes f mx r)"
    "\<lambda>bs. length bs \<le> mx \<and> length bs < 2 ^ 32" for f mx
proof (unfold_locales, goal_cases)
  case (1 v pre rest)
  then have l: "unat (word_of_nat (length v) :: u32) = length v"
    by (intro unat_length_word) simp
  let ?w = "writeU32 [] (word_of_nat (length v))"
  have "readU32 (reader_at pre (writeBytes [] v @ rest)) =
      Some (word_of_nat (length v), reader_at (pre @ ?w) (v @ rest))"
    using u32.rd_enc by (simp add: writeBytes_def)
  with 1 l show ?case
    by (auto simp: readBytes_Inr has_at) (simp_all add: reader_at_def writeBytes_def)
next
  case (2 r v r' ext)
  then show ?case
    using u32.rd_extend by (fastforce simp: readBytes_Inr has_extend slice_extend)
next
  case (3 r v r')
  then show ?case using has_bounds by (auto simp: readBytes_Inr)
qed


section \<open>A run over an encoded envelope\<close>

lemma step_enc [codec_simps]:
  "step_opt readU8 st (d\<lparr>dec_reader := reader_at pre (writeU8 [] a @ rest)\<rparr>) =
     Inr ((st a d)\<lparr>dec_reader := reader_at (pre @ writeU8 [] a) rest\<rparr>)"
  if "\<And>r. st a (d\<lparr>dec_reader := r\<rparr>) = (st a d)\<lparr>dec_reader := r\<rparr>"
  using that u8.step_opt_enc by blast

lemma step_enc_put [codec_simps]:
  "step_opt readU32 (put u32f) (d\<lparr>dec_reader := reader_at pre (writeU32 [] b @ rest)\<rparr>) =
     Inr ((put u32f b d)\<lparr>dec_reader := reader_at (pre @ writeU32 [] b) rest\<rparr>)"
  "step_opt readU64 (put u64f) (d\<lparr>dec_reader := reader_at pre (writeU64 [] c @ rest)\<rparr>) =
     Inr ((put u64f c d)\<lparr>dec_reader := reader_at (pre @ writeU64 [] c) rest\<rparr>)"
  "step_opt readI64 (put i64f) (d\<lparr>dec_reader := reader_at pre (writeI64 [] e @ rest)\<rparr>) =
     Inr ((put i64f e d)\<lparr>dec_reader := reader_at (pre @ writeI64 [] e) rest\<rparr>)"
  "length s \<le> kMaxEnvelopeFieldBytes \<Longrightarrow>
   step_sum (readString f) (put strf) (d\<lparr>dec_reader := reader_at pre (writeString [] s @ rest)\<rparr>) =
     Inr ((put strf s d)\<lparr>dec_reader := reader_at (pre @ writeString [] s) rest\<rparr>)"
  "length bs \<le> mx \<Longrightarrow> length bs < 2 ^ 32 \<Longrightarrow>
   step_sum (readBytes f mx) (put bytesf) (d\<lparr>dec_reader := reader_at pre (writeBytes [] bs)\<rparr>) =
     Inr ((put bytesf bs d)\<lparr>dec_reader := reader_at (pre @ writeBytes [] bs) []\<rparr>)"
  using blob.step_opt_enc [of bs mx "put bytesf" d f pre "[]"]
  by (simp_all add: step_sum_opt u32.step_opt_enc u64.step_opt_enc i64.step_opt_enc str.step_opt_enc)

definition fields_fit :: "EnvelopeCodec \<Rightarrow> SampleEnvelope \<Rightarrow> bool" where
  "fields_fit c e \<longleftrightarrow>
     (\<forall>s \<in> {env_session_id e, env_team_id e, env_task_id e, env_participant_id e, env_channel e,
        env_sender_id e, env_node_id e, env_payload_type e, env_schema_id e}.
        length s \<le> kMaxEnvelopeFieldBytes) \<and>
     length (env_payload e) \<le> codec_max_payload_bytes c \<and> length (env_payload e) < 2 ^ 32"

definition encode_tail :: "SampleEnvelope \<Rightarrow> bytes" where
  "encode_tail e =
     writeU32 [] (env_schema_version e) @ writeString [] (env_session_id e) @
     writeString [] (env_team_id e) @ writeString [] (env_task_id e) @
     writeString [] (env_participant_id e) @ writeString [] (env_channel e) @
     writeString [] (env_sender_id e) @ writeString [] (env_node_id e) @
     writeU64 [] (env_seq e) @ writeU64 [] (env_produce_cycle e) @ writeU64 [] (env_target_cycle e) @
     writeI64 [] (env_t_cycle_start_ns e) @ writeI64 [] (env_t_produce_start_ns e) @
     writeI64 [] (env_t_produce_finish_ns e) @ writeI64 [] (env_t_publish_ns e) @
     writeI64 [] (env_period_ns e) @ writeI64 [] (env_publish_deadline_ns e) @
     writeI64 [] (env_ttl_ns e) @ writeU8 [] (env_producer_status e) @
     writeU8 [] (if env_clock_ok e then 1 else 0) @ writeI64 [] (env_clock_offset_ns e) @
     writeU64 [] (env_clock_uncertainty_ns e) @ writeString [] (env_payload_type e) @
     writeString [] (env_schema_id e) @ writeU32 [] (env_payload_crc32c e) @
     writeBytes [] (env_payload e)"

lemma encode_fields_eq:
  "encode_fields e = writeU32 [] kMagic @ writeU32 [] kFormatVersion @ encode_tail e"
  unfolding encode_fields_def encode_tail_def Let_def
  by (simp only: writeU8_def writeU32_def writeU64_def writeI64_def writeString_def writeBytes_def
      append_assoc append_Nil)

lemma Decoder_start_reader: "Decoder_start r = (Decoder_start undefined)\<lparr>dec_reader := r\<rparr>"
  by (simp add: Decoder_start_def)

lemma run_steps_encode:
  assumes "fields_fit c e"
  shows "\<exists>d. run_steps (decode_steps c) (Decoder_start (reader_at pre (encode_tail e))) = Inr d \<and>
    Reader_done (dec_reader d) \<and> dec_producer_status d = env_producer_status e \<and>
    (dec_clock_ok d \<noteq> 0 \<longleftrightarrow> env_clock_ok e) \<and>
    (dec_envelope d)\<lparr>env_producer_status := env_producer_status e, env_clock_ok := env_clock_ok e\<rparr> = e"
  using assms
  unfolding fields_fit_def decode_steps_def encode_tail_def
  by (subst Decoder_start_reader, simp add: codec_simps, cases e)
    (simp add: put_def Decoder_start_def SampleEnvelope_default_def Reader_done_def reader_at_def)

section \<open>Round trip\<close>

lemma decode_header:
  "decode c (writeU32 [] kMagic @ writeU32 [] kFormatVersion @ rest) =
   decode_body c (reader_at (writeU32 [] kMagic @ writeU32 [] kFormatVersion) rest)"
proof -
  have "\<lparr>rd_bytes = writeU32 [] kMagic @ writeU32 [] kFormatVersion @ rest, rd_offset = 0\<rparr> =
      reader_at [] (writeU32 [] kMagic @ writeU32 [] kFormatVersion @ rest)"
    by (simp add: reader_at_def)
  then show ?thesis by (simp add: decode_def u32.rd_enc)
qed

lemma validateSampleEnvelope_ok:
  "res_ok (validateSampleEnvelope e opts) \<longleftrightarrow>
     env_schema_version e = kCurrentEnvelopeSchemaVersion \<and>
     length (env_payload e) \<le> opt_max_payload_bytes opts \<and>
     isValidTaskKeyField (env_session_id e) \<and> isValidTaskKeyField (env_task_id e) \<and>
     isValidTaskKeyField (env_participant_id e) \<and> isValidTaskKeyField (env_channel e) \<and>
     isValidTaskKeyField (env_schema_id e) \<and> isKnownProducerStatus (env_producer_status e) \<and>
     (opt_verify_payload_crc opts \<longrightarrow> verifyPayloadCrc e)"
proof -
  have "validateRequiredKeyField n v = Inr () \<longleftrightarrow> isValidTaskKeyField v" for n v
    by (auto simp: validateRequiredKeyField_def isValidTaskKeyField_iff)
  then have "validateKeyFields e = Inr () \<longleftrightarrow>
      isValidTaskKeyField (env_session_id e) \<and> isValidTaskKeyField (env_task_id e) \<and>
      isValidTaskKeyField (env_participant_id e) \<and> isValidTaskKeyField (env_channel e) \<and>
      isValidTaskKeyField (env_schema_id e)"
    by (simp add: validateKeyFields_def and_then_Inr)
  then show ?thesis
    unfolding validateSampleEnvelope_def errorResult_def
    by (cases "validateKeyFields e") (simp_all, blast)
qed

lemma validateSampleEnvelope_result:
  "res_ok (validateSampleEnvelope e opts) \<Longrightarrow>
   validateSampleEnvelope e opts =
     \<lparr>res_ok = True, res_status = Fresh, res_error = '''', res_envelope = e\<rparr>"
  unfolding validateSampleEnvelope_def errorResult_def by (auto split: if_splits sum.splits)

definition accepted :: "EnvelopeCodec \<Rightarrow> SampleEnvelope \<Rightarrow> bool" where
  "accepted c e \<longleftrightarrow>
     env_schema_version e = kCurrentEnvelopeSchemaVersion \<and>
     length (env_payload e) \<le> codec_max_payload_bytes c \<and>
     isValidTaskKeyField (env_session_id e) \<and> isValidTaskKeyField (env_task_id e) \<and>
     isValidTaskKeyField (env_participant_id e) \<and> isValidTaskKeyField (env_channel e) \<and>
     isValidTaskKeyField (env_schema_id e) \<and> isKnownProducerStatus (env_producer_status e) \<and>
     isSchemaAccepted c e"

lemma validate_ok: "res_ok (validate c e) \<longleftrightarrow> accepted c e \<and> verifyPayloadCrc e"
  by (auto simp: validate_def accepted_def validateSampleEnvelope_ok Let_def errorResult_def)

lemma validate_result:
  "res_ok (validate c e) \<Longrightarrow>
   validate c e = \<lparr>res_ok = True, res_status = Fresh, res_error = '''', res_envelope = e\<rparr>"
  using validateSampleEnvelope_result
  by (auto simp: validate_def Let_def errorResult_def split: if_splits)

definition sealed :: "SampleEnvelope \<Rightarrow> SampleEnvelope" where
  "sealed e = (default_sender e)\<lparr>env_payload_crc32c := crc32c (env_payload e)\<rparr>"

lemma default_sender_simps [simp]:
  "env_payload (default_sender e) = env_payload e"
  "default_sender (default_sender e) = default_sender e"
  "default_sender (e\<lparr>env_payload_crc32c := v\<rparr>) = (default_sender e)\<lparr>env_payload_crc32c := v\<rparr>"
  by (simp_all add: default_sender_def)

lemma accepted_crc [simp]: "accepted c (e\<lparr>env_payload_crc32c := v\<rparr>) = accepted c e"
  by (simp add: accepted_def isSchemaAccepted_def)

lemma encode_Inr:
  "encode c e = Inr bs \<longleftrightarrow> accepted c (default_sender e) \<and> bs = encode_fields (sealed e)"
  by (auto simp: encode_def Let_def validateSampleEnvelope_ok accepted_def sealed_def)

lemma decode_encode_fields:
  assumes "fields_fit c e" "default_sender e = e"
  shows "decode c (encode_fields e) = validate c e"
proof -
  let ?pre = "writeU32 [] kMagic @ writeU32 [] kFormatVersion"
  obtain d where "run_steps (decode_steps c) (Decoder_start (reader_at ?pre (encode_tail e))) = Inr d"
    "Reader_done (dec_reader d)" "dec_producer_status d = env_producer_status e"
    "dec_clock_ok d \<noteq> 0 \<longleftrightarrow> env_clock_ok e"
    "(dec_envelope d)\<lparr>env_producer_status := env_producer_status e, env_clock_ok := env_clock_ok e\<rparr> = e"
    using run_steps_encode [OF assms(1), of ?pre] by blast
  then show ?thesis
    unfolding encode_fields_eq decode_header decode_body_def by (simp add: assms(2))
qed

definition strings_fit :: "SampleEnvelope \<Rightarrow> bool" where
  "strings_fit e \<longleftrightarrow>
     (\<forall>s \<in> {env_session_id e, env_team_id e, env_task_id e, env_participant_id e, env_channel e,
        env_sender_id e, env_node_id e, env_payload_type e, env_schema_id e}.
        length s \<le> kMaxEnvelopeFieldBytes)"

lemma fits_sealed:
  "strings_fit e \<Longrightarrow> accepted c (default_sender e) \<Longrightarrow> codec_max_payload_bytes c < 2 ^ 32 \<Longrightarrow>
   fields_fit c (sealed e)"
  by (auto simp: strings_fit_def fields_fit_def sealed_def accepted_def default_sender_def)

text \<open>
  C1. Round trip. When \<open>encode\<close> accepts an envelope whose text fields respect the field limit of the
  format, \<open>decode\<close> of the bytes succeeds and returns that envelope, with the sender defaulted to the
  participant and the checksum filled in.
\<close>

theorem decode_encode:
  assumes "encode c e = Inr bs" and "strings_fit e" and "codec_max_payload_bytes c < 2 ^ 32"
  shows "decode c bs = \<lparr>res_ok = True, res_status = Fresh, res_error = '''',
    res_envelope = (default_sender e)\<lparr>env_payload_crc32c := crc32c (env_payload e)\<rparr>\<rparr>"
proof -
  from assms(1) have a: "accepted c (default_sender e)" and bs: "bs = encode_fields (sealed e)"
    by (simp_all add: encode_Inr)
  have "decode c bs = validate c (sealed e)"
    unfolding bs using fits_sealed [OF assms(2) a assms(3)]
    by (intro decode_encode_fields) (simp_all add: sealed_def)
  moreover have "res_ok (validate c (sealed e))"
    using a by (simp add: validate_ok sealed_def verifyPayloadCrc_def)
  ultimately show ?thesis using validate_result by (simp add: sealed_def)
qed

section \<open>Truncation and trailing data\<close>

definition extensible :: "(Decoder \<Rightarrow> Decoder + Decoder) \<Rightarrow> bool" where
  "extensible s \<longleftrightarrow>
     (\<forall>d d' ext. s d = Inr d' \<longrightarrow>
       s (d\<lparr>dec_reader := append_input ext (dec_reader d)\<rparr>) =
         Inr (d'\<lparr>dec_reader := append_input ext (dec_reader d')\<rparr>))"

lemma steps_extensible: "\<forall>s \<in> set (decode_steps c). extensible s"
  unfolding decode_steps_def extensible_def
  by (simp add: step_sum_opt u8.step_opt_extend u32.step_opt_extend u64.step_opt_extend
      i64.step_opt_extend str.step_opt_extend blob.step_opt_extend)

lemma run_steps_extend:
  "\<forall>s \<in> set ss. extensible s \<Longrightarrow> run_steps ss d = Inr d' \<Longrightarrow>
   run_steps ss (d\<lparr>dec_reader := append_input ext (dec_reader d)\<rparr>) =
     Inr (d'\<lparr>dec_reader := append_input ext (dec_reader d')\<rparr>)"
  by (induction ss arbitrary: d) (auto simp: extensible_def split: sum.splits)

text \<open>What a successful decode went through.\<close>

lemma decode_ok_elim:
  assumes "res_ok (decode c bs)"
  obtains r r' d where
    "readU32 \<lparr>rd_bytes = bs, rd_offset = 0\<rparr> = Some (kMagic, r)" "readU32 r = Some (kFormatVersion, r')"
    "run_steps (decode_steps c) (Decoder_start r') = Inr d" "Reader_done (dec_reader d)"
    "decode c bs = validate c (default_sender
       ((dec_envelope d)\<lparr>env_producer_status := dec_producer_status d,
                         env_clock_ok := dec_clock_ok d \<noteq> 0\<rparr>))"
  using assms unfolding decode_def decode_body_def
  by (fastforce simp: errorResult_def split: option.splits if_splits sum.splits)

text \<open>A prefix that decodes leaves the reader before the end of the longer input.\<close>

lemma decode_append_runs:
  assumes ok: "res_ok (decode c bs)" and ext: "ext \<noteq> []"
  obtains r r' d where
    "readU32 \<lparr>rd_bytes = bs @ ext, rd_offset = 0\<rparr> = Some (kMagic, r)" "readU32 r = Some (kFormatVersion, r')"
    "run_steps (decode_steps c) (Decoder_start r') = Inr d" "\<not> Reader_done (dec_reader d)"
proof -
  obtain r r' d where hdr: "readU32 \<lparr>rd_bytes = bs, rd_offset = 0\<rparr> = Some (kMagic, r)"
      "readU32 r = Some (kFormatVersion, r')"
    and run: "run_steps (decode_steps c) (Decoder_start r') = Inr d"
    and fin: "Reader_done (dec_reader d)"
    using ok by (rule decode_ok_elim) blast
  have "readU32 \<lparr>rd_bytes = bs @ ext, rd_offset = 0\<rparr> = Some (kMagic, append_input ext r)"
    using u32.rd_extend [OF hdr(1), of ext] by (simp add: append_input_def)
  moreover have "readU32 (append_input ext r) = Some (kFormatVersion, append_input ext r')"
    using hdr(2) by (rule u32.rd_extend)
  moreover have "run_steps (decode_steps c) (Decoder_start (append_input ext r')) =
      Inr (d\<lparr>dec_reader := append_input ext (dec_reader d)\<rparr>)"
    using run_steps_extend [OF steps_extensible run, of ext] by (simp add: Decoder_start_def)
  moreover have "\<not> Reader_done (dec_reader (d\<lparr>dec_reader := append_input ext (dec_reader d)\<rparr>))"
    using fin ext by (simp add: Reader_done_def append_input_def)
  ultimately show thesis by (rule that)
qed

lemma decode_append_trailing:
  assumes "res_ok (decode c bs)" and "ext \<noteq> []"
  shows "\<exists>e. decode c (bs @ ext) = errorResult TransportError ''trailing data after envelope'' e"
proof -
  obtain r r' d where "readU32 \<lparr>rd_bytes = bs @ ext, rd_offset = 0\<rparr> = Some (kMagic, r)"
    "readU32 r = Some (kFormatVersion, r')" "run_steps (decode_steps c) (Decoder_start r') = Inr d"
    "\<not> Reader_done (dec_reader d)"
    using decode_append_runs [OF assms] by blast
  then show ?thesis by (auto simp: decode_def decode_body_def)
qed

lemma decodable_truncated:
  "res_ok (decode c (p @ q)) \<Longrightarrow> q \<noteq> [] \<Longrightarrow> \<not> res_ok (decode c p)"
  using decode_append_trailing [of c p q] by (auto simp: errorResult_def)

text \<open>
  A step that succeeds on what a writer produced consumes exactly that, and so does a whole run. A text
  field beyond the decoder's limit makes its step fail instead.
\<close>

definition consumes :: "(Decoder \<Rightarrow> Decoder + Decoder) \<Rightarrow> bytes \<Rightarrow> bool" where
  "consumes st w \<longleftrightarrow>
     (\<forall>d d' pre rest. dec_reader d = reader_at pre (w @ rest) \<longrightarrow> st d = Inr d' \<longrightarrow>
        dec_reader d' = reader_at (pre @ w) rest)"

lemma consumesD:
  "consumes st w \<Longrightarrow> dec_reader d = reader_at pre (w @ rest) \<Longrightarrow> st d = Inr d' \<Longrightarrow>
   dec_reader d' = reader_at (pre @ w) rest"
  unfolding consumes_def by blast

context field_codec
begin

lemma step_opt_consumes:
  assumes "fits v" and "\<And>v d. dec_reader (store v d) = dec_reader d"
  shows "consumes (step_opt rd store) (enc v)"
  unfolding consumes_def step_opt_def using rd_enc [OF assms(1)] assms(2) by simp

end

lemma consumes_sum: "consumes (step_sum rd store) w \<longleftrightarrow> consumes (step_opt (\<lambda>r. sum_opt (rd r)) store) w"
  by (simp only: consumes_def step_sum_opt)

lemma step_string_consumes:
  assumes "length s < 2 ^ 32" and "\<And>v d. dec_reader (store v d) = dec_reader d"
  shows "consumes (step_sum (readString f) store) (writeString [] s)"
proof (cases "length s \<le> kMaxEnvelopeFieldBytes")
  case True
  show ?thesis unfolding consumes_sum by (rule str.step_opt_consumes [OF True assms(2)])
next
  case False
  have "readU32 (reader_at pre (writeString [] s @ rest)) =
      Some (word_of_nat (length s), reader_at (pre @ writeU32 [] (word_of_nat (length s))) (map byte_of_char s @ rest))"
    for pre rest using u32.rd_enc by (simp add: writeString_def)
  then have "\<exists>why. readString f (reader_at pre (writeString [] s @ rest)) = Inl why" for pre rest
    using False unat_length_word [OF assms(1)] by (simp add: readString_def)
  then have "step_sum (readString f) store d \<noteq> Inr d'" if "dec_reader d = reader_at pre (writeString [] s @ rest)"
    for d d' pre rest unfolding step_sum_def that by (metis (lifting) Inl_Inr_False old.sum.simps(5))
  then show ?thesis unfolding consumes_def by blast
qed

lemma step_bytes_consumes:
  assumes "length bs \<le> mx" "length bs < 2 ^ 32" and "\<And>v d. dec_reader (store v d) = dec_reader d"
  shows "consumes (step_sum (readBytes f mx) store) (writeBytes [] bs)"
  unfolding consumes_sum by (rule blob.step_opt_consumes [OF conjI [OF assms(1,2)] assms(3)])

lemmas step_consumes = step_string_consumes step_bytes_consumes u8.step_opt_consumes u32.step_opt_consumes
  u64.step_opt_consumes i64.step_opt_consumes

lemma run_consumes:
  assumes "list_all2 consumes ss ws" and "dec_reader d = reader_at pre (concat ws @ rest)"
    and "run_steps ss d = Inr d'"
  shows "dec_reader d' = reader_at (pre @ concat ws) rest"
  using assms
proof (induction ss ws arbitrary: d pre rule: list_all2_induct)
  case (Cons st ss w ws)
  obtain d1 where d1: "st d = Inr d1" "run_steps ss d1 = Inr d'"
    using Cons.prems(2) by (auto split: sum.splits)
  have "dec_reader d1 = reader_at (pre @ w) (concat ws @ rest)"
    using consumesD [OF Cons.hyps(1) _ d1(1)] Cons.prems(1) by simp
  from Cons.IH [OF this d1(2)] show ?case by simp
qed simp

text \<open>All text fields are short enough for their length to fit the 32 bits the format has for it.\<close>

definition lengths_representable :: "SampleEnvelope \<Rightarrow> bool" where
  "lengths_representable e \<longleftrightarrow>
     (\<forall>s \<in> {env_session_id e, env_team_id e, env_task_id e, env_participant_id e, env_channel e,
        env_sender_id e, env_node_id e, env_payload_type e, env_schema_id e}. length s < 2 ^ 32)"

lemma run_steps_encode_done:
  assumes "lengths_representable e" and "length (env_payload e) \<le> codec_max_payload_bytes c"
    and "length (env_payload e) < 2 ^ 32"
    and "run_steps (decode_steps c) (Decoder_start (reader_at pre (encode_tail e))) = Inr d"
  shows "Reader_done (dec_reader d)"
proof -
  obtain ws where ws: "list_all2 consumes (decode_steps c) ws" "concat ws = encode_tail e"
  proof
    show "list_all2 consumes (decode_steps c)
      [writeU32 [] (env_schema_version e), writeString [] (env_session_id e), writeString [] (env_team_id e),
       writeString [] (env_task_id e), writeString [] (env_participant_id e), writeString [] (env_channel e),
       writeString [] (env_sender_id e), writeString [] (env_node_id e), writeU64 [] (env_seq e),
       writeU64 [] (env_produce_cycle e), writeU64 [] (env_target_cycle e), writeI64 [] (env_t_cycle_start_ns e),
       writeI64 [] (env_t_produce_start_ns e), writeI64 [] (env_t_produce_finish_ns e),
       writeI64 [] (env_t_publish_ns e), writeI64 [] (env_period_ns e), writeI64 [] (env_publish_deadline_ns e),
       writeI64 [] (env_ttl_ns e), writeU8 [] (env_producer_status e),
       writeU8 [] (if env_clock_ok e then 1 else 0), writeI64 [] (env_clock_offset_ns e),
       writeU64 [] (env_clock_uncertainty_ns e), writeString [] (env_payload_type e),
       writeString [] (env_schema_id e), writeU32 [] (env_payload_crc32c e), writeBytes [] (env_payload e)]"
      using assms(1-3) unfolding decode_steps_def lengths_representable_def
      by (intro list.rel_intros step_consumes) simp_all
  qed (simp add: encode_tail_def)
  have "dec_reader (Decoder_start (reader_at pre (encode_tail e))) = reader_at pre (concat ws @ [])"
    by (simp add: Decoder_start_def ws(2))
  from run_consumes [OF ws(1) this assms(4)] show ?thesis by (simp add: Reader_done_def reader_at_def)
qed

text \<open>
  C11. No proper prefix of an encoded envelope is accepted: whatever envelope \<open>encode\<close> accepts, also one
  that the decoder refuses for an oversized text field, cutting its bytes short anywhere gives bytes that
  \<open>decode\<close> rejects. The lengths of the text fields and the payload bound must fit in 32 bits, the width
  of the length fields of the format.
\<close>

theorem decode_rejects_truncated:
  assumes "encode c e = Inr bs" and "lengths_representable e" and "codec_max_payload_bytes c < 2 ^ 32"
    and "bs = p @ q" and "q \<noteq> []"
  shows "\<not> res_ok (decode c p)"
proof
  assume "res_ok (decode c p)"
  from decode_append_runs [OF this assms(5)] obtain r r' d where
    d: "readU32 \<lparr>rd_bytes = bs, rd_offset = 0\<rparr> = Some (kMagic, r)" "readU32 r = Some (kFormatVersion, r')"
      "run_steps (decode_steps c) (Decoder_start r') = Inr d" "\<not> Reader_done (dec_reader d)"
    unfolding assms(4) by blast
  let ?e = "sealed e" and ?pre = "writeU32 [] kMagic @ writeU32 [] kFormatVersion"
  have a: "accepted c (default_sender e)" and bs: "bs = encode_fields ?e"
    using assms(1) by (simp_all add: encode_Inr)
  have "\<lparr>rd_bytes = bs, rd_offset = 0\<rparr> = reader_at [] (?pre @ encode_tail ?e)"
    by (simp add: bs encode_fields_eq reader_at_def)
  then have "r' = reader_at ?pre (encode_tail ?e)" using d(1,2) by (auto simp: u32.rd_enc)
  moreover have "lengths_representable ?e" "length (env_payload ?e) \<le> codec_max_payload_bytes c"
    using assms(2) a by (auto simp: lengths_representable_def sealed_def default_sender_def accepted_def)
  ultimately show False using run_steps_encode_done [of ?e c ?pre d] assms(3) d(3,4) by simp
qed

text \<open>
  C19. Everything \<open>decode\<close> accepts has passed every check: schema version, payload bound, key fields,
  producer status, accepted schema and checksum; and it names a sender.
\<close>

theorem decode_ok_valid:
  assumes "res_ok (decode c bs)"
  shows "res_status (decode c bs) = Fresh \<and> accepted c (res_envelope (decode c bs)) \<and>
    verifyPayloadCrc (res_envelope (decode c bs)) \<and> env_sender_id (res_envelope (decode c bs)) \<noteq> []"
proof -
  obtain e where d: "decode c bs = validate c (default_sender e)"
    using decode_ok_elim [OF assms] by metis
  with assms have v: "accepted c (default_sender e)" "verifyPayloadCrc (default_sender e)"
    by (simp_all add: validate_ok)
  then have "env_sender_id (default_sender e) \<noteq> []"
    by (auto simp: accepted_def default_sender_def isValidTaskKeyField_iff split: if_splits)
  with d v validate_result [of c "default_sender e"] assms show ?thesis by simp
qed

section \<open>Fields that encode but do not decode\<close>

lemma oversized_session_id_refused:
  assumes "encode c e = Inr bs"
    and "kMaxEnvelopeFieldBytes < length (env_session_id e)" "length (env_session_id e) < 2 ^ 32"
  shows "\<not> res_ok (decode c bs) \<and>
    res_error (decode c bs) = ''field length exceeds limit for session_id''"
proof -
  let ?pre = "writeU32 [] kMagic @ writeU32 [] kFormatVersion" and ?e = "sealed e"
  let ?id = "env_session_id ?e" and ?d = "put env_schema_version_update (env_schema_version ?e)"
  have id: "?id = env_session_id e" by (simp add: sealed_def default_sender_def)
  obtain rest where tl: "encode_tail ?e = writeU32 [] (env_schema_version ?e) @
      writeU32 [] (word_of_nat (length ?id)) @ rest"
    by (simp add: encode_tail_def writeString_def)
  have "unat (word_of_nat (length ?id) :: u32) = length ?id"
    using assms(3) by (simp add: id unat_of_nat)
  then have "step_sum (readString ''session_id'') (put env_session_id_update)
      (d\<lparr>dec_reader := reader_at pre (writeU32 [] (word_of_nat (length ?id)) @ rest)\<rparr>) =
      Inl (d\<lparr>dec_reader := reader_at pre (writeU32 [] (word_of_nat (length ?id)) @ rest),
             dec_reason := ''field length exceeds limit for session_id''\<rparr>)" for d pre
    using assms(2) by (simp add: step_sum_def readString_def u32.rd_enc id)
  then have "\<exists>d. run_steps (decode_steps c) (Decoder_start (reader_at ?pre (encode_tail ?e))) = Inl d \<and>
      dec_reason d = ''field length exceeds limit for session_id''"
    unfolding decode_steps_def tl
    by (subst Decoder_start_reader) (simp add: codec_simps)
  moreover have "bs = encode_fields ?e" using assms(1) by (simp add: encode_Inr)
  ultimately show ?thesis
    unfolding encode_fields_eq by (auto simp: decode_header decode_body_def errorResult_def)
qed

lemma default_sender_session_id:
  "default_sender (e\<lparr>env_session_id := s\<rparr>) = (default_sender e)\<lparr>env_session_id := s\<rparr>"
  by (simp add: default_sender_def)

text \<open>
  C25. The encoder does not apply the decoder's limit on text fields. In any envelope that \<open>encode\<close> accepts,
  the session id can be replaced by any valid key field longer than 4096 bytes: \<open>encode\<close> accepts that
  envelope too, and \<open>decode\<close> refuses the bytes it produced because of the length of the session id.
\<close>

theorem oversized_session_id_not_decodable:
  assumes "encode c e = Inr bs" and "isValidTaskKeyField s"
    and "kMaxEnvelopeFieldBytes < length s" and "length s < 2 ^ 32"
  shows "\<exists>bs'. encode c (e\<lparr>env_session_id := s\<rparr>) = Inr bs' \<and> \<not> res_ok (decode c bs') \<and>
    res_error (decode c bs') = ''field length exceeds limit for session_id''"
proof -
  have "accepted c (default_sender (e\<lparr>env_session_id := s\<rparr>))"
    using assms(1,2) by (simp add: encode_Inr accepted_def isSchemaAccepted_def default_sender_session_id)
  then have "encode c (e\<lparr>env_session_id := s\<rparr>) = Inr (encode_fields (sealed (e\<lparr>env_session_id := s\<rparr>)))"
    by (simp add: encode_Inr)
  with oversized_session_id_refused [OF this] assms(3,4) show ?thesis by simp
qed

section \<open>The checksum detects a corrupted byte\<close>

lemma crc_bit_alt: "crc_bit c = drop_bit 1 c XOR (if odd c then 0x82f63b78 else 0)"
  by (auto simp: crc_bit_def and_one_eq odd_iff_mod_2_eq_one)

lemma crc_bit_msb: "bit (crc_bit c) 31 \<longleftrightarrow> odd c"
  by (auto simp: crc_bit_alt bit_simps dest: bit_imp_le_length)

lemma xor_right_cancel: "a XOR k = b XOR k \<longleftrightarrow> a = (b :: 'a::len word)"
  by (metis xor.assoc xor.right_neutral xor_self_eq)

lemma crc_bit_inj: "inj crc_bit"
proof (rule injI)
  fix x y assume eq: "crc_bit x = crc_bit y"
  then have par: "odd x \<longleftrightarrow> odd y" using crc_bit_msb by metis
  with eq have "drop_bit 1 x = drop_bit 1 y" by (auto simp: crc_bit_alt xor_right_cancel split: if_splits)
  show "x = y"
  proof (rule bit_eqI)
    fix n
    show "bit x n = bit y n"
    proof (cases n)
      case 0
      then show ?thesis using par by (simp add: bit_0)
    next
      case (Suc m)
      then show ?thesis
        using \<open>drop_bit 1 x = drop_bit 1 y\<close> bit_drop_bit_eq [of 1 x] bit_drop_bit_eq [of 1 y]
        by (metis comp_apply plus_1_eq_Suc)
    qed
  qed
qed

lemma crc_byte_inj: "crc_byte x a = crc_byte y b \<Longrightarrow> x XOR ucast a = y XOR ucast b"
  unfolding crc_byte_def by (rule injD [OF inj_fn [OF crc_bit_inj]])

lemma crc_byte_inj_crc: "crc_byte x b = crc_byte y b \<Longrightarrow> x = y"
  using crc_byte_inj xor_right_cancel by blast

lemma crc_byte_inj_byte: "crc_byte x a = crc_byte x b \<Longrightarrow> a = b"
proof -
  assume "crc_byte x a = crc_byte x b"
  then have "x XOR ucast a = x XOR (ucast b :: u32)" by (rule crc_byte_inj)
  then have "(ucast a :: u32) = ucast b"
    unfolding xor.commute [of x] xor_right_cancel .
  then have "(ucast (ucast a :: u32) :: u8) = ucast (ucast b :: u32)" by (rule arg_cong)
  then show "a = b" by (simp add: ucast_up_ucast_id is_up)
qed

lemma crc_fold_inj: "foldl crc_byte x bs = foldl crc_byte y bs \<Longrightarrow> x = y"
  by (induction bs arbitrary: x y) (auto dest: crc_byte_inj_crc)

lemma crc32c_byte_inj: "crc32c (xs @ a # ys) = crc32c (xs @ b # ys) \<Longrightarrow> a = b"
  unfolding crc32c_def foldl_append foldl_Cons
  by (auto dest: crc_fold_inj crc_byte_inj_byte)

text \<open>
  C20. If the checksum of an envelope verifies, then changing any one byte of the payload to another value
  makes verification fail.
\<close>

theorem crc_detects_byte_change:
  assumes "verifyPayloadCrc e" and "i < length (env_payload e)" and "b \<noteq> env_payload e ! i"
  shows "\<not> verifyPayloadCrc (e\<lparr>env_payload := (env_payload e)[i := b]\<rparr>)"
proof
  let ?p = "env_payload e"
  assume "verifyPayloadCrc (e\<lparr>env_payload := ?p[i := b]\<rparr>)"
  with assms(1) have "crc32c (?p[i := b]) = crc32c ?p" by (simp add: verifyPayloadCrc_def)
  also have "crc32c ?p = crc32c (take i ?p @ ?p ! i # drop (Suc i) ?p)"
    using id_take_nth_drop [OF assms(2)] by (rule arg_cong)
  finally show False
    using crc32c_byte_inj assms(2,3) by (simp add: upd_conv_take_nth_drop)
qed

section \<open>A concrete envelope\<close>

definition demo_envelope :: SampleEnvelope where
  "demo_envelope = SampleEnvelope_default
     \<lparr>env_session_id := ''s1'', env_task_id := ''t1'', env_participant_id := ''uav01'',
      env_channel := ''state'', env_schema_id := ''state.v1'', env_payload_type := ''bytes'',
      env_seq := 7, env_target_cycle := 3, env_producer_status := ProducerStatus_Success,
      env_clock_ok := True, env_payload := [1, 2, 3]\<rparr>"

definition demo_codec :: EnvelopeCodec where
  "demo_codec = allowSchema (EnvelopeCodec_new kDefaultMaxPayloadBytes) ''state'' ''bytes'' ''state.v1''"

lemmas demo_simps =
  demo_envelope_def demo_codec_def SampleEnvelope_default_def EnvelopeCodec_new_def allowSchema_def
  default_sender_def isValidTaskKeyField_iff isValidChar_def isKnownProducerStatus_def
  isSchemaAccepted_def enum_defs envelope_consts

lemma demo_accepted: "accepted demo_codec (default_sender demo_envelope)"
  by (simp add: accepted_def demo_simps)

lemma demo_encode: "encode demo_codec demo_envelope = Inr (encode_fields (sealed demo_envelope))"
  using demo_accepted by (simp add: encode_Inr)

theorem decode_encode_witness:
  "decode demo_codec (encode_fields (sealed demo_envelope)) =
    \<lparr>res_ok = True, res_status = Fresh, res_error = '''',
     res_envelope = (default_sender demo_envelope)
       \<lparr>env_payload_crc32c := crc32c (env_payload demo_envelope)\<rparr>\<rparr>"
  by (rule decode_encode [OF demo_encode]) (simp_all add: strings_fit_def demo_simps)

lemma demo_decode_ok: "res_ok (decode demo_codec (encode_fields (sealed demo_envelope)))"
proof -
  have "fields_fit demo_codec (sealed demo_envelope)"
    by (rule fits_sealed [OF _ demo_accepted]) (simp_all add: strings_fit_def demo_simps)
  then have "decode demo_codec (encode_fields (sealed demo_envelope)) =
      validate demo_codec (sealed demo_envelope)"
    by (rule decode_encode_fields) (simp add: sealed_def)
  then show ?thesis
    using demo_accepted by (simp add: validate_ok sealed_def verifyPayloadCrc_def)
qed

text \<open>An envelope whose session id the decoder refuses; cutting its last byte does not help.\<close>

definition long_envelope :: SampleEnvelope where
  "long_envelope = demo_envelope\<lparr>env_session_id := replicate 5000 CHR ''a''\<rparr>"

lemma long_encode: "encode demo_codec long_envelope = Inr (encode_fields (sealed long_envelope))"
  by (simp add: encode_Inr accepted_def long_envelope_def demo_simps)

theorem decode_rejects_truncated_witness:
  "\<not> res_ok (decode demo_codec (butlast (encode_fields (sealed demo_envelope)))) \<and>
   \<not> res_ok (decode demo_codec (butlast (encode_fields (sealed long_envelope))))"
proof -
  have ne: "encode_fields e \<noteq> []" for e by (simp add: encode_fields_eq writeU32_def)
  note split = append_butlast_last_id [OF ne, symmetric]
  have l: "lengths_representable demo_envelope" "lengths_representable long_envelope"
    "codec_max_payload_bytes demo_codec < 2 ^ 32"
    by (simp_all add: lengths_representable_def long_envelope_def demo_simps)
  show ?thesis
    using decode_rejects_truncated [OF demo_encode l(1,3) split]
      decode_rejects_truncated [OF long_encode l(2,3) split] by simp
qed

theorem decode_ok_valid_witness:
  "accepted demo_codec (res_envelope (decode demo_codec (encode_fields (sealed demo_envelope))))"
  using decode_ok_valid [OF demo_decode_ok] by simp

theorem oversized_session_id_not_decodable_witness:
  "encode demo_codec long_envelope = Inr (encode_fields (sealed long_envelope)) \<and>
   \<not> res_ok (decode demo_codec (encode_fields (sealed long_envelope)))"
proof -
  let ?s = "replicate 5000 CHR ''a''"
  have v: "isValidTaskKeyField ?s" by (simp add: isValidTaskKeyField_iff isValidChar_def)
  have "\<exists>bs'. encode demo_codec long_envelope = Inr bs' \<and> \<not> res_ok (decode demo_codec bs')"
    using oversized_session_id_not_decodable [OF demo_encode v]
    unfolding long_envelope_def [symmetric] by (auto simp: kMaxEnvelopeFieldBytes_def)
  then show ?thesis using long_encode by simp
qed

theorem crc_detects_byte_change_witness:
  "\<not> verifyPayloadCrc ((sealed demo_envelope)\<lparr>env_payload := (env_payload (sealed demo_envelope))[1 := 9]\<rparr>)"
  by (rule crc_detects_byte_change)
    (simp_all add: sealed_def verifyPayloadCrc_def, simp_all add: demo_envelope_def)

end
