(* ===== verification/Ordered_Map.thy ===== *)
theory Ordered_Map
  imports Prelude "HOL-Library.Char_ord" "HOL-Library.List_Lexorder" "HOL-Library.Product_Lexorder"
begin

text \<open>
  The part of \<^verbatim>\<open>std::map\<close> that the code uses. A map is the list of its entries in key order, so that
  iteration (\<^verbatim>\<open>for (auto& item : m)\<close>, \<^verbatim>\<open>begin()\<close>, \<^verbatim>\<open>rbegin()\<close>) is iteration over that list. Keys compare as
  in C++: unsigned bytes lexicographically for strings, tuples lexicographically.

  The locale \<open>ordered_map\<close> is the contract the component theories rely on; the interpretation at the
  end of the theory discharges it for the list representation.
\<close>

section \<open>Operations\<close>

type_synonym ('k, 'v) omap = "('k \<times> 'v) list"

abbreviation omap_find :: "('k, 'v) omap \<Rightarrow> 'k \<Rightarrow> 'v option" where
  "omap_find m \<equiv> map_of m"

fun omap_assign :: "'k::linorder \<Rightarrow> 'v \<Rightarrow> ('k, 'v) omap \<Rightarrow> ('k, 'v) omap" where
  "omap_assign k v [] = [(k, v)]"
| "omap_assign k v (e # m) =
     (if k < fst e then (k, v) # e # m
      else if k = fst e then (k, v) # m
      else e # omap_assign k v m)"

definition omap_erase :: "'k \<Rightarrow> ('k, 'v) omap \<Rightarrow> ('k, 'v) omap" where
  "omap_erase k m = filter (\<lambda>e. fst e \<noteq> k) m"

definition omap_wf :: "('k::linorder, 'v) omap \<Rightarrow> bool" where
  "omap_wf m \<longleftrightarrow> sorted_wrt (<) (map fst m)"

text \<open>\<^verbatim>\<open>m[k]\<close> on a mutable map inserts a default value when the key is absent.\<close>

definition omap_ref :: "'v \<Rightarrow> 'k::linorder \<Rightarrow> ('k, 'v) omap \<Rightarrow> 'v \<times> ('k, 'v) omap" where
  "omap_ref d k m = (case omap_find m k of Some v \<Rightarrow> (v, m) | None \<Rightarrow> (d, omap_assign k d m))"

section \<open>The contract\<close>

locale ordered_map =
  fixes find :: "'m \<Rightarrow> 'k::linorder \<Rightarrow> 'v option"
    and assign :: "'k \<Rightarrow> 'v \<Rightarrow> 'm \<Rightarrow> 'm"
    and erase :: "'k \<Rightarrow> 'm \<Rightarrow> 'm"
    and entries :: "'m \<Rightarrow> ('k \<times> 'v) list"
    and wf :: "'m \<Rightarrow> bool"
  assumes find_assign: "wf m \<Longrightarrow> find (assign k v m) = (find m)(k \<mapsto> v)"
    and find_erase: "wf m \<Longrightarrow> find (erase k m) = (find m)(k := None)"
    and wf_assign: "wf m \<Longrightarrow> wf (assign k v m)"
    and wf_erase: "wf m \<Longrightarrow> wf (erase k m)"
    and entries_find: "wf m \<Longrightarrow> (k, v) \<in> set (entries m) \<longleftrightarrow> find m k = Some v"
    and entries_sorted: "wf m \<Longrightarrow> sorted_wrt (<) (map fst (entries m))"
begin

definition count :: "('k \<Rightarrow> bool) \<Rightarrow> 'm \<Rightarrow> nat" where
  "count P m = length (filter (\<lambda>e. P (fst e)) (entries m))"

lemma distinct_keys: "wf m \<Longrightarrow> distinct (map fst (entries m))"
  using entries_sorted strict_sorted_iff by blast

lemma set_keys: "wf m \<Longrightarrow> fst ` set (entries m) = dom (find m)"
  by (auto simp: entries_find dom_def) (metis entries_find fst_conv image_eqI)

lemma finite_dom: "wf m \<Longrightarrow> finite (dom (find m))"
  by (metis set_keys List.finite_set finite_imageI)

lemma count_card: "wf m \<Longrightarrow> count P m = card {k \<in> dom (find m). P k}"
proof -
  assume w: "wf m"
  have d: "distinct (filter P (map fst (entries m)))"
    using distinct_keys [OF w] by (rule distinct_filter)
  have "count P m = length (filter P (map fst (entries m)))"
    by (simp add: count_def filter_map comp_def)
  also have "\<dots> = card (set (filter P (map fst (entries m))))"
    using distinct_card [OF d] by simp
  also have "set (filter P (map fst (entries m))) = {k \<in> dom (find m). P k}"
    using set_keys [OF w] by auto
  finally show ?thesis .
qed

lemma count_assign:
  assumes "wf m"
  shows "count P (assign k v m) =
    (if P k \<and> find m k = None then Suc (count P m) else count P m)"
proof -
  have "{j \<in> dom (find (assign k v m)). P j} =
      (if P k then insert k {j \<in> dom (find m). P j} else {j \<in> dom (find m). P j})"
    using assms by (auto simp: find_assign)
  then show ?thesis
    using assms finite_dom [OF assms]
    by (auto simp: count_card wf_assign card_insert_if dom_def)
qed

lemma count_erase:
  assumes "wf m" "P k" "find m k \<noteq> None"
  shows "Suc (count P (erase k m)) = count P m"
proof -
  let ?S = "{j \<in> dom (find m). P j}"
  have "{j \<in> dom (find (erase k m)). P j} = ?S - {k}"
    using assms by (auto simp: find_erase split: if_splits)
  moreover have "k \<in> ?S" "finite ?S"
    using assms finite_dom [OF assms(1)] by auto
  ultimately show ?thesis
    using assms card_Suc_Diff1 [of ?S k] by (simp add: count_card wf_erase)
qed

lemma count_erase_other:
  assumes "wf m" "\<not> P k"
  shows "count P (erase k m) = count P m"
proof -
  have "{j \<in> dom (find (erase k m)). P j} = {j \<in> dom (find m). P j}"
    using assms by (auto simp: find_erase split: if_splits)
  then show ?thesis using assms by (simp add: count_card wf_erase)
qed

end

section \<open>The list representation satisfies it\<close>

lemma omap_wf_simps [simp]:
  "omap_wf []"
  "omap_wf (e # m) \<longleftrightarrow> (\<forall>x \<in> set m. fst e < fst x) \<and> omap_wf m"
  by (auto simp: omap_wf_def)

lemma omap_find_assign [simp]: "omap_find (omap_assign k v m) = (omap_find m)(k \<mapsto> v)"
  by (induction m) (auto simp: fun_eq_iff)

lemma set_omap_assign: "set (omap_assign k v m) \<subseteq> insert (k, v) (set m)"
  by (induction m) auto

lemma omap_wf_assign [simp]: "omap_wf m \<Longrightarrow> omap_wf (omap_assign k v m)"
proof (induction m)
  case (Cons e m)
  then have "x \<in> set (omap_assign k v m) \<Longrightarrow> fst e < k \<Longrightarrow> fst e < fst x" for x
    using set_omap_assign [of k v m] by force
  with Cons show ?case by force
qed simp

lemma omap_find_erase [simp]: "omap_find (omap_erase k m) = (omap_find m)(k := None)"
  by (induction m) (auto simp: omap_erase_def)

lemma omap_wf_erase [simp]: "omap_wf m \<Longrightarrow> omap_wf (omap_erase k m)"
  by (simp add: omap_erase_def omap_wf_def sorted_wrt_filter sorted_wrt_map)

lemma omap_wf_distinct: "omap_wf m \<Longrightarrow> distinct (map fst m)"
  unfolding omap_wf_def using strict_sorted_iff by blast

interpretation om: ordered_map map_of omap_assign omap_erase "\<lambda>m. m" omap_wf
  by unfold_locales (auto simp: omap_wf_distinct omap_wf_def [symmetric])

lemma omap_assign_keys:
  "omap_wf m \<Longrightarrow> k \<in> dom (omap_find m) \<Longrightarrow> map fst (omap_assign k v m) = map fst m"
proof (induction m)
  case (Cons e m)
  then have "\<not> k < fst e"
    by (auto split: if_splits) (metis fst_conv map_of_SomeD order_less_not_sym)
  with Cons show ?case by (auto simp: domIff split: if_splits)
qed simp

lemma set_omap_assign_iff:
  "omap_wf m \<Longrightarrow> x \<in> set (omap_assign k v m) \<longleftrightarrow> x = (k, v) \<or> x \<in> set m \<and> fst x \<noteq> k"
  by (cases x) (auto simp: om.entries_find split: if_splits)

lemma omap_wf_suffix: "omap_wf (m @ m') \<Longrightarrow> omap_wf m'"
  by (simp add: omap_wf_def sorted_wrt_append)

lemma omap_ref_find:
  "omap_ref d k m = (v, m') \<Longrightarrow> omap_find m' k = Some v"
  by (auto simp: omap_ref_def split: option.splits)

lemma omap_ref_snd:
  "omap_find (snd (omap_ref d k m)) = (omap_find m)(k \<mapsto> fst (omap_ref d k m))"
  by (auto simp: omap_ref_def fun_eq_iff split: option.splits)

lemma omap_ref_fst: "fst (omap_ref d k m) = (case omap_find m k of Some v \<Rightarrow> v | None \<Rightarrow> d)"
  by (simp add: omap_ref_def split: option.splits)

lemma omap_ref_wf [simp]: "omap_wf m \<Longrightarrow> omap_wf (snd (omap_ref d k m))"
  by (simp add: omap_ref_def split: option.splits)

end
