(* ===== verification/Transport.thy ===== *)
theory Transport
  imports Transport_Keys Ordered_Map
begin

text \<open>
  The in-memory transport: \<^verbatim>\<open>src/core/transport.cpp\<close>. Every member function takes the mutex for its whole
  access to the table, so a step of the model is one critical section. \<^verbatim>\<open>publish\<close> copies the callbacks
  under the lock and invokes them afterwards; in the model it returns the list of invocations, and the
  state after it is the state before it.

  Callbacks are client code and appear as values of a type parameter, \<open>None\<close> being an empty
  \<^verbatim>\<open>std::function\<close>. A subscription handle is the pair of key and identifier; its destructor is
  \<open>unsubscribe\<close>. The transport outlives its handles (the \<^verbatim>\<open>weak_ptr\<close> is never expired in the model).
\<close>

section \<open>State and operations\<close>

record TransportMessage =
  msg_key :: string
  msg_cycle_id :: u64
  msg_participant_id :: string
  msg_payload :: SampleEnvelope

record TransportSubscription =
  sub_key :: string
  sub_id :: u64

type_synonym 'cb Subscriber = "u64 \<times> 'cb"

record 'cb InMemoryTransport =
  tr_subscribers :: "(string, 'cb Subscriber list) omap"
  tr_next_id :: u64

definition InMemoryTransport_new :: "'cb InMemoryTransport" where
  "InMemoryTransport_new = \<lparr>tr_subscribers = [], tr_next_id = 1\<rparr>"

definition subscribe ::
    "string \<Rightarrow> 'cb option \<Rightarrow> 'cb InMemoryTransport \<Rightarrow> (string + TransportSubscription) \<times> 'cb InMemoryTransport" where
  "subscribe key callback t =
     (case validateTaskSampleKey key of
        Inl why \<Rightarrow> (Inl why, t)
      | Inr _ \<Rightarrow>
          (case callback of
             None \<Rightarrow> (Inl ''callback is required'', t)
           | Some cb \<Rightarrow>
               let sid = tr_next_id t; (subs, m) = omap_ref [] key (tr_subscribers t)
               in (Inr \<lparr>sub_key = key, sub_id = sid\<rparr>,
                   t\<lparr>tr_next_id := sid + 1, tr_subscribers := omap_assign key (subs @ [(sid, cb)]) m\<rparr>)))"

definition publish ::
    "TransportMessage \<Rightarrow> 'cb InMemoryTransport \<Rightarrow> string + ('cb \<times> TransportMessage) list" where
  "publish message t =
     (case validateTaskSampleKey (msg_key message) of
        Inl why \<Rightarrow> Inl why
      | Inr _ \<Rightarrow>
          (case omap_find (tr_subscribers t) (msg_key message) of
             None \<Rightarrow> Inr []
           | Some subs \<Rightarrow> Inr (map (\<lambda>s. (snd s, message)) subs)))"

definition isActive :: "string \<Rightarrow> u64 \<Rightarrow> 'cb InMemoryTransport \<Rightarrow> bool" where
  "isActive key sid t =
     (case omap_find (tr_subscribers t) key of
        None \<Rightarrow> False
      | Some subs \<Rightarrow> list_ex (\<lambda>s. fst s = sid) subs)"

definition transport_remove :: "string \<Rightarrow> u64 \<Rightarrow> 'cb InMemoryTransport \<Rightarrow> 'cb InMemoryTransport" where
  "transport_remove key sid t =
     (case omap_find (tr_subscribers t) key of
        None \<Rightarrow> t
      | Some subs \<Rightarrow>
          let subs' = filter (\<lambda>s. fst s \<noteq> sid) subs
          in if subs' = [] then t\<lparr>tr_subscribers := omap_erase key (tr_subscribers t)\<rparr>
             else t\<lparr>tr_subscribers := omap_assign key subs' (tr_subscribers t)\<rparr>)"

definition active :: "TransportSubscription \<Rightarrow> 'cb InMemoryTransport \<Rightarrow> bool" where
  "active s t = isActive (sub_key s) (sub_id s) t"

definition unsubscribe :: "TransportSubscription option \<Rightarrow> 'cb InMemoryTransport \<Rightarrow> 'cb InMemoryTransport" where
  "unsubscribe subscription t =
     (case subscription of None \<Rightarrow> t | Some s \<Rightarrow> transport_remove (sub_key s) (sub_id s) t)"

section \<open>The table as a contract\<close>

text \<open>What the operations promise of the list of subscribers of a key.\<close>

locale subscriber_table =
  fixes subs_at :: "'t \<Rightarrow> string \<Rightarrow> 'cb Subscriber list"
    and add :: "string \<Rightarrow> 'cb \<Rightarrow> 't \<Rightarrow> 't"
    and rem :: "string \<Rightarrow> u64 \<Rightarrow> 't \<Rightarrow> 't"
    and next_id :: "'t \<Rightarrow> u64"
  assumes subs_add: "subs_at (add k cb t) k' = (if k' = k then subs_at t k @ [(next_id t, cb)] else subs_at t k')"
    and subs_rem: "subs_at (rem k i t) k' = (if k' = k then filter (\<lambda>s. fst s \<noteq> i) (subs_at t k) else subs_at t k')"
    and next_add: "next_id (add k cb t) = next_id t + 1"
    and next_rem: "next_id (rem k i t) = next_id t"
begin

definition fresh_id :: "'t \<Rightarrow> bool" where
  "fresh_id t \<longleftrightarrow> (\<forall>k. \<forall>s \<in> set (subs_at t k). fst s \<noteq> next_id t)"

lemma add_rem_undoes: "fresh_id t \<Longrightarrow> subs_at (rem k (next_id t) (add k cb t)) k' = subs_at t k'"
  by (simp add: subs_add subs_rem fresh_id_def)

definition ids_below :: "'t \<Rightarrow> nat \<Rightarrow> bool" where
  "ids_below t n \<longleftrightarrow> unat (next_id t) = Suc n \<and> (\<forall>k. \<forall>s \<in> set (subs_at t k). unat (fst s) \<le> n)"

lemma ids_below_fresh: "ids_below t n \<Longrightarrow> fresh_id t"
  by (force simp: ids_below_def fresh_id_def)

lemma ids_below_add:
  assumes "ids_below t n" "Suc (Suc n) < 2 ^ 64"
  shows "ids_below (add k cb t) (Suc n)"
  using assms unat_add_u64 [of "next_id t" 1] by (auto simp: ids_below_def subs_add next_add le_Suc_eq)

lemma ids_below_rem: "ids_below t n \<Longrightarrow> ids_below (rem k i t) n"
  by (fastforce simp: ids_below_def subs_rem next_rem)

end

definition subs_at :: "'cb InMemoryTransport \<Rightarrow> string \<Rightarrow> 'cb Subscriber list" where
  "subs_at t key = (case omap_find (tr_subscribers t) key of None \<Rightarrow> [] | Some subs \<Rightarrow> subs)"

definition table_add :: "string \<Rightarrow> 'cb \<Rightarrow> 'cb InMemoryTransport \<Rightarrow> 'cb InMemoryTransport" where
  "table_add key cb t =
     t\<lparr>tr_next_id := tr_next_id t + 1,
       tr_subscribers := omap_assign key (subs_at t key @ [(tr_next_id t, cb)])
         (snd (omap_ref [] key (tr_subscribers t)))\<rparr>"

lemma subscribe_eq:
  "subscribe key callback t =
     (case validateTaskSampleKey key of
        Inl why \<Rightarrow> (Inl why, t)
      | Inr _ \<Rightarrow>
          (case callback of
             None \<Rightarrow> (Inl ''callback is required'', t)
           | Some cb \<Rightarrow> (Inr \<lparr>sub_key = key, sub_id = tr_next_id t\<rparr>, table_add key cb t)))"
  by (simp add: subscribe_def table_add_def subs_at_def Let_def case_prod_beta omap_ref_fst
      split: sum.splits option.splits)

interpretation tb: subscriber_table subs_at table_add transport_remove tr_next_id
proof
  fix k k' :: string and cb :: 'cb and t :: "'cb InMemoryTransport" and i :: u64
  show "subs_at (table_add k cb t) k' = (if k' = k then subs_at t k @ [(tr_next_id t, cb)] else subs_at t k')"
    by (simp add: subs_at_def table_add_def omap_ref_snd)
  show "subs_at (transport_remove k i t) k' =
      (if k' = k then filter (\<lambda>s. fst s \<noteq> i) (subs_at t k) else subs_at t k')"
    by (simp add: subs_at_def transport_remove_def Let_def split: option.splits)
  show "tr_next_id (table_add k cb t) = tr_next_id t + 1" by (simp add: table_add_def)
  show "tr_next_id (transport_remove k i t) = tr_next_id t"
    by (simp add: transport_remove_def Let_def split: option.splits)
qed

section \<open>Refinement of a broadcast list\<close>

text \<open>
  The abstract transport is the list of live subscriptions in the order in which they were made. A
  message goes to the subscriptions of its key, in that order.
\<close>

record 'cb Broadcast =
  bc_live :: "(string \<times> u64 \<times> 'cb) list"
  bc_next :: u64

datatype 'cb TransportOp =
    Subscribe string "'cb option"
  | Unsubscribe "TransportSubscription option"
  | Publish TransportMessage

datatype 'cb TransportOut =
    Subscribed "string + TransportSubscription"
  | Unsubscribed
  | Published "string + ('cb \<times> TransportMessage) list"

fun transport_step :: "'cb TransportOp \<Rightarrow> 'cb InMemoryTransport \<Rightarrow> 'cb TransportOut \<times> 'cb InMemoryTransport" where
  "transport_step (Subscribe k cb) t = (case subscribe k cb t of (r, t') \<Rightarrow> (Subscribed r, t'))"
| "transport_step (Unsubscribe s) t = (Unsubscribed, unsubscribe s t)"
| "transport_step (Publish m) t = (Published (publish m t), t)"

fun broadcast_step :: "'cb TransportOp \<Rightarrow> 'cb Broadcast \<Rightarrow> 'cb TransportOut \<times> 'cb Broadcast" where
  "broadcast_step (Subscribe k cb) b =
     (case validateTaskSampleKey k of
        Inl why \<Rightarrow> (Subscribed (Inl why), b)
      | Inr _ \<Rightarrow>
          (case cb of
             None \<Rightarrow> (Subscribed (Inl ''callback is required''), b)
           | Some c \<Rightarrow> (Subscribed (Inr \<lparr>sub_key = k, sub_id = bc_next b\<rparr>),
                        \<lparr>bc_live = bc_live b @ [(k, bc_next b, c)], bc_next = bc_next b + 1\<rparr>)))"
| "broadcast_step (Unsubscribe s) b =
     (Unsubscribed,
      case s of None \<Rightarrow> b
      | Some s \<Rightarrow> b\<lparr>bc_live := filter (\<lambda>x. \<not> (fst x = sub_key s \<and> fst (snd x) = sub_id s)) (bc_live b)\<rparr>)"
| "broadcast_step (Publish m) b =
     (Published
        (case validateTaskSampleKey (msg_key m) of
           Inl why \<Rightarrow> Inl why
         | Inr _ \<Rightarrow> Inr (map (\<lambda>x. (snd (snd x), m)) (filter (\<lambda>x. fst x = msg_key m) (bc_live b)))),
      b)"

fun run_outputs :: "('x \<Rightarrow> 's \<Rightarrow> 'y \<times> 's) \<Rightarrow> 'x list \<Rightarrow> 's \<Rightarrow> 'y list" where
  "run_outputs step [] s = []"
| "run_outputs step (x # xs) s = (case step x s of (y, s') \<Rightarrow> y # run_outputs step xs s')"

definition Broadcast_new :: "'cb Broadcast" where
  "Broadcast_new = \<lparr>bc_live = [], bc_next = 1\<rparr>"

definition refines :: "'cb InMemoryTransport \<Rightarrow> 'cb Broadcast \<Rightarrow> bool" where
  "refines t b \<longleftrightarrow>
     tr_next_id t = bc_next b \<and> (\<forall>k. subs_at t k = map snd (filter (\<lambda>x. fst x = k) (bc_live b)))"

lemma publish_eq:
  "publish m t =
     (case validateTaskSampleKey (msg_key m) of
        Inl why \<Rightarrow> Inl why | Inr _ \<Rightarrow> Inr (map (\<lambda>s. (snd s, m)) (subs_at t (msg_key m))))"
  by (simp add: publish_def subs_at_def split: option.splits sum.splits)

lemma refines_step:
  assumes "refines t b"
  shows "fst (transport_step x t) = fst (broadcast_step x b)"
    "refines (snd (transport_step x t)) (snd (broadcast_step x b))"
proof -
  have eq: "tr_next_id t = bc_next b" "\<And>k. subs_at t k = map snd (filter (\<lambda>x. fst x = k) (bc_live b))"
    using assms by (simp_all add: refines_def)
  show "fst (transport_step x t) = fst (broadcast_step x b)"
    by (cases x) (auto simp: subscribe_eq publish_eq eq split: sum.splits option.splits)
  show "refines (snd (transport_step x t)) (snd (broadcast_step x b))"
  proof (cases x)
    case (Subscribe k cb)
    then show ?thesis
      using assms by (auto simp: subscribe_eq refines_def tb.subs_add tb.next_add split: sum.splits option.splits)
  next
    case (Unsubscribe s)
    have "filter (\<lambda>s. fst s \<noteq> i) (map snd (filter (\<lambda>x. fst x = k) xs)) =
        map snd (filter (\<lambda>x. fst x = k) (filter (\<lambda>x. fst x = k \<longrightarrow> fst (snd x) \<noteq> i) xs))"
      for i k and xs :: "(string \<times> u64 \<times> 'a) list"
      by (induction xs) auto
    moreover have "k' \<noteq> k \<Longrightarrow> filter (\<lambda>x. fst x = k') xs =
        filter (\<lambda>x. fst x = k') (filter (\<lambda>x. fst x = k \<longrightarrow> fst (snd x) \<noteq> i) xs)"
      for i k k' and xs :: "(string \<times> u64 \<times> 'a) list"
      by (induction xs) auto
    ultimately show ?thesis
      using assms Unsubscribe
      by (auto simp: unsubscribe_def refines_def tb.subs_rem tb.next_rem split: option.splits)
  qed (use assms in auto)
qed

text \<open>
  C7. The transport implements the broadcast list. For every sequence of subscriptions, removals and
  publications, including rejected ones, the in-memory transport gives exactly the results of the
  abstract list of live subscriptions: a message reaches each live subscription of its key once, in
  the order of subscription, and nobody else.
\<close>
theorem transport_refines_broadcast:
  "run_outputs transport_step ops InMemoryTransport_new = run_outputs broadcast_step ops Broadcast_new"
proof -
  have "refines t b \<Longrightarrow> run_outputs transport_step ops t = run_outputs broadcast_step ops b"
    for t :: "'a InMemoryTransport" and b
  proof (induction ops arbitrary: t b)
    case (Cons x ops)
    show ?case using Cons.IH [OF refines_step(2) [OF Cons.prems, of x]] refines_step(1) [OF Cons.prems, of x]
      by (simp add: case_prod_beta)
  qed simp
  moreover have "refines InMemoryTransport_new (Broadcast_new :: 'a Broadcast)"
    by (simp add: refines_def InMemoryTransport_new_def Broadcast_new_def subs_at_def)
  ultimately show ?thesis .
qed

section \<open>Handles\<close>

inductive transport_reach :: "nat \<Rightarrow> 'cb InMemoryTransport \<Rightarrow> bool" where
  reach_new: "transport_reach 0 InMemoryTransport_new"
| reach_subscribe: "transport_reach n t \<Longrightarrow> subscribe k cb t = (Inr s, t') \<Longrightarrow> transport_reach (Suc n) t'"
| reach_unsubscribe: "transport_reach n t \<Longrightarrow> transport_reach n (unsubscribe s t)"

lemma transport_reach_ids: "transport_reach n t \<Longrightarrow> n < 2 ^ 64 - 1 \<Longrightarrow> tb.ids_below t n"
proof (induction rule: transport_reach.induct)
  case reach_new
  have "subs_at (InMemoryTransport_new :: 'a InMemoryTransport) k = []" for k
    by (simp add: InMemoryTransport_new_def subs_at_def)
  then show ?case by (simp add: tb.ids_below_def) (simp add: InMemoryTransport_new_def)
next
  case (reach_subscribe n t k cb s t')
  then obtain c where "t' = table_add k c t"
    by (auto simp: subscribe_eq split: sum.splits option.splits)
  with reach_subscribe tb.ids_below_add [of t n k c] show ?case by simp
next
  case (reach_unsubscribe n t s)
  then show ?case by (auto simp: unsubscribe_def tb.ids_below_rem split: option.splits)
qed

lemma isActive_subs: "isActive k i t \<longleftrightarrow> (\<exists>s \<in> set (subs_at t k). fst s = i)"
  by (force simp: isActive_def subs_at_def list_ex_iff split: option.splits)

text \<open>
  C21. A subscription handle controls its own subscription and nothing else. As long as fewer than
  2^64 - 1 subscriptions were ever made, a new subscription is active and is the last to receive a
  message of its key; removing it through its handle makes it inactive and restores, for every key,
  exactly the deliveries there were before it was made.
\<close>
theorem subscription_handle_is_private:
  assumes "transport_reach n t" and "n < 2 ^ 64 - 1"
    and "subscribe key (Some cb) t = (Inr s, t')"
  shows "active s t' \<and> subs_at t' key = subs_at t key @ [(sub_id s, cb)] \<and>
    \<not> active s (unsubscribe (Some s) t') \<and>
    (\<forall>m. publish m (unsubscribe (Some s) t') = publish m t)"
proof -
  have f: "tb.fresh_id t" using transport_reach_ids [OF assms(1,2)] by (rule tb.ids_below_fresh)
  have s: "s = \<lparr>sub_key = key, sub_id = tr_next_id t\<rparr>" "t' = table_add key cb t"
    using assms(3) by (auto simp: subscribe_eq split: sum.splits)
  have u: "subs_at (unsubscribe (Some s) t') k = subs_at t k" for k
    using tb.add_rem_undoes [OF f] by (simp add: unsubscribe_def s)
  have "\<not> active s (unsubscribe (Some s) t')"
    unfolding active_def isActive_subs u using f by (simp add: s(1) tb.fresh_id_def)
  moreover have "\<forall>m. publish m (unsubscribe (Some s) t') = publish m t" unfolding publish_eq u by simp
  moreover have "active s t'" by (simp add: active_def isActive_subs s tb.subs_add)
  moreover have "subs_at t' key = subs_at t key @ [(sub_id s, cb)]" by (simp add: s tb.subs_add)
  ultimately show ?thesis by blast
qed

definition demo_key :: string where
  "demo_key = ''swarm_sync/v1/session/s/task/t/channel/pose/schema/p''"

lemma demo_key_valid: "validateTaskSampleKey demo_key = Inr ()"
  by code_simp

theorem subscription_handle_is_private_witness:
  "active \<lparr>sub_key = demo_key, sub_id = 1\<rparr> (snd (subscribe demo_key (Some ()) InMemoryTransport_new))"
proof -
  have "subscribe demo_key (Some ()) InMemoryTransport_new =
      (Inr \<lparr>sub_key = demo_key, sub_id = 1\<rparr>, snd (subscribe demo_key (Some ()) InMemoryTransport_new))"
    by (simp add: subscribe_eq demo_key_valid InMemoryTransport_new_def)
  from subscription_handle_is_private [OF reach_new _ this] show ?thesis by simp
qed

end
