(* ===== verification/Double.thy ===== *)
theory Double
  imports Complex_Main Prelude "HOL-Library.Log_Nat"
begin

text \<open>
  IEEE 754 binary64, the \<^verbatim>\<open>double\<close> of the code: round-to-nearest-even over a 53-bit significand with
  gradual underflow, infinities and one NaN. A finite value is the rational number it denotes, so
  positive and negative zero are one value; the code never observes the sign of a zero.

  Every operation is executable, so the thresholds of the code are evaluated with the rounding the
  machine applies. The lemmas are the ones the component theories need to get back to exact
  arithmetic: rounding is monotone, exact on 53-bit integers and their binary fractions, and keeps
  apart numbers that differ by at least \<open>2\<^sup>-\<^sup>4\<^sup>5\<close> in the unit interval.
\<close>

section \<open>Rounding\<close>

definition log2_floor :: "rat \<Rightarrow> int" where
  "log2_floor q =
     (let (n, d) = quotient_of q; e = int (floorlog 2 (nat n)) - int (floorlog 2 (nat d))
      in if 2 powi e \<le> q then e else e - 1)"

definition round_half_even :: "rat \<Rightarrow> int" where
  "round_half_even x =
     (let f = \<lfloor>x\<rfloor>; r = x - of_int f
      in if r < 1 / 2 then f else if 1 / 2 < r then f + 1 else if even f then f else f + 1)"

definition ulp_exp :: "rat \<Rightarrow> int" where
  "ulp_exp q = max (log2_floor \<bar>q\<bar> - 52) (- 1074)"

definition round_rat :: "rat \<Rightarrow> rat" where
  "round_rat q =
     (if q = 0 then 0 else of_int (round_half_even (q / 2 powi ulp_exp q)) * 2 powi ulp_exp q)"

section \<open>Values and operations\<close>

datatype double = NaN | Infinity bool | Fin rat

definition mk_double :: "rat \<Rightarrow> double" where
  "mk_double q =
     (let r = round_rat q
      in if 2 ^ 1024 \<le> r then Infinity False else if r \<le> - (2 ^ 1024) then Infinity True
         else Fin r)"

fun isfinite :: "double \<Rightarrow> bool" where
  "isfinite (Fin _) = True"
| "isfinite _ = False"

fun dneg :: "double \<Rightarrow> double" where
  "dneg NaN = NaN"
| "dneg (Infinity s) = Infinity (\<not> s)"
| "dneg (Fin x) = Fin (- x)"

fun dabs :: "double \<Rightarrow> double" where
  "dabs NaN = NaN"
| "dabs (Infinity s) = Infinity False"
| "dabs (Fin x) = Fin \<bar>x\<bar>"

fun dadd :: "double \<Rightarrow> double \<Rightarrow> double" where
  "dadd (Fin x) (Fin y) = mk_double (x + y)"
| "dadd (Infinity s) (Fin y) = Infinity s"
| "dadd (Fin x) (Infinity s) = Infinity s"
| "dadd (Infinity s) (Infinity t) = (if s = t then Infinity s else NaN)"
| "dadd _ _ = NaN"

definition dsub :: "double \<Rightarrow> double \<Rightarrow> double" where
  "dsub a b = dadd a (dneg b)"

fun dmul :: "double \<Rightarrow> double \<Rightarrow> double" where
  "dmul (Fin x) (Fin y) = mk_double (x * y)"
| "dmul (Infinity s) (Fin y) = (if y = 0 then NaN else Infinity (s \<noteq> (y < 0)))"
| "dmul (Fin x) (Infinity s) = (if x = 0 then NaN else Infinity (s \<noteq> (x < 0)))"
| "dmul (Infinity s) (Infinity t) = Infinity (s \<noteq> t)"
| "dmul _ _ = NaN"

text \<open>
  Division; the sign of an infinity obtained by dividing by zero is that of a positive zero, the
  only zero of the model.
\<close>

fun ddiv :: "double \<Rightarrow> double \<Rightarrow> double" where
  "ddiv (Fin x) (Fin y) =
     (if y = 0 then (if x = 0 then NaN else Infinity (x < 0)) else mk_double (x / y))"
| "ddiv (Infinity s) (Fin y) = Infinity (s \<noteq> (y < 0))"
| "ddiv (Fin x) (Infinity s) = Fin 0"
| "ddiv _ _ = NaN"

text \<open>Ordered comparisons are false as soon as one side is NaN.\<close>

fun dle :: "double \<Rightarrow> double \<Rightarrow> bool" where
  "dle (Fin x) (Fin y) = (x \<le> y)"
| "dle (Infinity s) (Infinity t) = (s \<or> \<not> t)"
| "dle (Infinity s) (Fin y) = s"
| "dle (Fin x) (Infinity t) = (\<not> t)"
| "dle _ _ = False"

fun dlt :: "double \<Rightarrow> double \<Rightarrow> bool" where
  "dlt (Fin x) (Fin y) = (x < y)"
| "dlt (Infinity s) (Infinity t) = (s \<and> \<not> t)"
| "dlt (Infinity s) (Fin y) = s"
| "dlt (Fin x) (Infinity t) = (\<not> t)"
| "dlt _ _ = False"

definition deq :: "double \<Rightarrow> double \<Rightarrow> bool" where
  "deq a b \<longleftrightarrow> dle a b \<and> dle b a"

text \<open>
  \<^verbatim>\<open>std::max<double>(a, b)\<close> is \<^verbatim>\<open>(a < b) ? b : a\<close> and \<^verbatim>\<open>std::min<double>(a, b)\<close> is \<^verbatim>\<open>(b < a) ? b : a\<close>.
\<close>

definition dmax :: "double \<Rightarrow> double \<Rightarrow> double" where
  "dmax a b = (if dlt a b then b else a)"

definition dmin :: "double \<Rightarrow> double \<Rightarrow> double" where
  "dmin a b = (if dlt b a then b else a)"

definition d_of_nat :: "nat \<Rightarrow> double" where
  "d_of_nat n = mk_double (of_nat n)"

definition d_of_int :: "int \<Rightarrow> double" where
  "d_of_int n = mk_double (of_int n)"

text \<open>
  \<^verbatim>\<open>std::llround\<close>: nearest integer, halves away from zero. The result is unspecified for NaN, an
  infinity or a value outside the range of \<^verbatim>\<open>long long\<close>, which the model shows as \<open>None\<close>.
\<close>

definition round_half_away :: "rat \<Rightarrow> int" where
  "round_half_away x = (if 0 \<le> x then \<lfloor>x + 1 / 2\<rfloor> else - \<lfloor>1 / 2 - x\<rfloor>)"

fun llround :: "double \<Rightarrow> i64 option" where
  "llround (Fin x) =
     (let n = round_half_away x
      in if - (2 ^ 63) \<le> n \<and> n < 2 ^ 63 then Some (word_of_int n) else None)"
| "llround _ = None"

text \<open>
  \<^verbatim>\<open>std::sqrt\<close>, correctly rounded. The operand is scaled by \<open>4\<^sup>6\<^sup>0\<^sup>0\<close>, so that its integer square root has
  more than 54 bits; one more bit records whether the root is inexact, which decides the rounding.
\<close>

fun isqrt :: "nat \<Rightarrow> nat" where
  "isqrt n =
     (if n = 0 then 0
      else let r = 2 * isqrt (n div 4) in if (r + 1) * (r + 1) \<le> n then r + 1 else r)"

declare isqrt.simps [simp del]

fun dsqrt :: "double \<Rightarrow> double" where
  "dsqrt NaN = NaN"
| "dsqrt (Infinity s) = (if s then NaN else Infinity False)"
| "dsqrt (Fin x) =
     (if x < 0 then NaN
      else let n = \<lfloor>x * 4 ^ 600\<rfloor>; r = isqrt (nat n);
               inexact = (of_nat (r * r) \<noteq> x * 4 ^ 600)
           in mk_double ((2 * of_nat r + (if inexact then 1 else 0)) / 2 ^ 601))"

lemma isqrt_bounds: "isqrt n * isqrt n \<le> n \<and> n < (isqrt n + 1) * (isqrt n + 1)"
proof (induction n rule: isqrt.induct)
  case (1 n)
  show ?case
  proof (cases "n = 0")
    case False
    let ?r = "isqrt (n div 4)"
    have "?r * ?r \<le> n div 4" "n div 4 < (?r + 1) * (?r + 1)" using 1 [OF False] by auto
    then have b: "4 * (?r * ?r) \<le> n" "n < 4 * ((?r + 1) * (?r + 1))" by linarith+
    have "2 * ?r * (2 * ?r) \<le> n" "n < (2 * ?r + 1 + 1) * (2 * ?r + 1 + 1)"
      using b by (simp_all add: algebra_simps)
    then show ?thesis using False by (subst (1 2 3 4) isqrt.simps) (auto simp: Let_def)
  qed (simp add: isqrt.simps)
qed

section \<open>Rounding to an integer grid\<close>

lemma round_half_even_of_int [simp]: "round_half_even (of_int n) = n"
  by (simp add: round_half_even_def)

lemma round_half_even_bounds:
  "of_int (round_half_even x) \<le> x + 1 / 2" "x \<le> of_int (round_half_even x) + 1 / 2"
proof -
  have "of_int \<lfloor>x\<rfloor> \<le> x" "x < of_int \<lfloor>x\<rfloor> + 1"
    by linarith+
  then show "of_int (round_half_even x) \<le> x + 1 / 2" "x \<le> of_int (round_half_even x) + 1 / 2"
    unfolding round_half_even_def Let_def
    by (simp_all only: of_int_add of_int_1 split: if_split) linarith+
qed

lemma round_half_even_mono:
  assumes "x \<le> y" shows "round_half_even x \<le> round_half_even y"
proof (rule ccontr)
  assume "\<not> ?thesis"
  then have "round_half_even y + 1 \<le> round_half_even x" by simp
  then have "of_int (round_half_even y) + 1 \<le> (of_int (round_half_even x) :: rat)"
    by (metis of_int_1 of_int_add of_int_le_iff)
  with round_half_even_bounds [of x] round_half_even_bounds [of y] assms have "x = y"
    by linarith
  with \<open>\<not> ?thesis\<close> show False by simp
qed

lemma round_half_even_minus: "round_half_even (- x) = - round_half_even x"
proof (cases "x = of_int \<lfloor>x\<rfloor>")
  case True
  then show ?thesis by (metis of_int_minus round_half_even_of_int)
next
  case False
  have b: "of_int \<lfloor>x\<rfloor> \<le> x" "x < of_int \<lfloor>x\<rfloor> + 1" by linarith+
  with False have "of_int \<lfloor>x\<rfloor> < x" by linarith
  then have f: "\<lfloor>- x\<rfloor> = - \<lfloor>x\<rfloor> - 1"
    using b by (intro floor_unique) auto
  show ?thesis
    unfolding round_half_even_def f Let_def by (auto simp: field_simps)
qed

section \<open>The binary logarithm\<close>

lemma floorlog_rat:
  fixes n :: int
  assumes "0 < n"
  defines "a \<equiv> int (floorlog 2 (nat n))"
  shows "2 powi (a - 1) \<le> (of_int n :: rat)" "(of_int n :: rat) < 2 powi a"
proof -
  let ?f = "floorlog 2 (nat n)"
  have f: "2 ^ (?f - 1) \<le> nat n" "nat n < 2 ^ ?f"
    using floorlog_bounds [of "nat n" 2] assms by auto
  then have "0 < ?f" using assms by (auto intro: gr0I)
  then have a: "a - 1 = int (?f - 1)" by (simp add: a_def)
  from f have "2 ^ (?f - 1) \<le> n" "n < 2 ^ ?f"
    using assms(1) by (simp_all add: le_nat_iff nat_less_iff)
  then have "of_int (2 ^ (?f - 1)) \<le> (of_int n :: rat)" "of_int n < (of_int (2 ^ ?f) :: rat)"
    by (simp_all only: of_int_le_iff of_int_less_iff)
  then show "2 powi (a - 1) \<le> (of_int n :: rat)" "(of_int n :: rat) < 2 powi a"
    unfolding a by (simp_all add: a_def)
qed

lemma log2_floor_bounds:
  assumes "0 < q"
  shows "2 powi log2_floor q \<le> q" "q < 2 powi (log2_floor q + 1)"
proof -
  obtain n d where nd: "quotient_of q = (n, d)" by fastforce
  have q: "q = of_int n / of_int d" and d: "0 < d"
    using nd by (auto simp: quotient_of_div quotient_of_denom_pos)
  with assms have n: "0 < n" by (simp add: zero_less_divide_iff)
  define a b where "a = floorlog 2 (nat n)" and "b = floorlog 2 (nat d)"
  have n_b: "2 powi (int a - 1) \<le> (of_int n :: rat)" "(of_int n :: rat) < 2 powi int a"
    and d_b: "2 powi (int b - 1) \<le> (of_int d :: rat)" "(of_int d :: rat) < 2 powi int b"
    using floorlog_rat n d by (simp_all add: a_def b_def)
  have "q < 2 powi int a / 2 powi (int b - 1)"
    unfolding q using n_b d_b d n by (intro frac_less) auto
  then have up: "q < 2 powi (int a - int b + 1)"
    by (simp add: power_int_diff power_int_add)
  have "2 powi (int a - 1) / 2 powi int b < q"
    unfolding q using n_b d_b d n by (intro frac_less2) auto
  then have lo: "2 powi (int a - int b - 1) < q"
    by (simp add: power_int_diff power_int_add field_simps)
  have e: "log2_floor q = (if 2 powi (int a - int b) \<le> q then int a - int b else int a - int b - 1)"
    by (simp add: log2_floor_def nd a_def b_def)
  show "2 powi log2_floor q \<le> q" "q < 2 powi (log2_floor q + 1)"
    unfolding e using up lo by auto
qed

lemma log2_floor_mono:
  assumes "0 < x" "x \<le> y" shows "log2_floor x \<le> log2_floor y"
proof (rule ccontr)
  assume "\<not> ?thesis"
  then have "2 powi (log2_floor y + 1) \<le> (2 powi log2_floor x :: rat)"
    by (intro power_int_increasing) auto
  with log2_floor_bounds [of x] log2_floor_bounds [of y] assms show False by linarith
qed

section \<open>Rounding to binary64 is monotone and exact on short significands\<close>

lemma round_rat_0 [simp]: "round_rat 0 = 0"
  by (simp add: round_rat_def)

lemma round_rat_minus: "round_rat (- q) = - round_rat q"
  by (simp add: round_rat_def ulp_exp_def round_half_even_minus)

lemma round_rat_grid:
  assumes "q \<noteq> 0" "q = of_int n * 2 powi ulp_exp q"
  shows "round_rat q = q"
proof -
  from assms(2) have "q / 2 powi ulp_exp q = of_int n"
    by (metis nonzero_mult_div_cancel_right power_int_eq_0_iff zero_neq_numeral)
  with assms show ?thesis by (simp add: round_rat_def)
qed

lemma round_rat_exact:
  assumes n: "\<bar>n\<bar> < 2 ^ 53" and k: "- 1074 \<le> k"
  shows "round_rat (of_int n * 2 powi k) = of_int n * 2 powi k"
proof (cases "n = 0")
  case False
  let ?q = "of_int n * 2 powi k :: rat"
  let ?e = "log2_floor \<bar>?q\<bar>"
  have pos: "0 < \<bar>?q\<bar>" using False by simp
  have "\<bar>?q\<bar> = of_int \<bar>n\<bar> * 2 powi k" by (simp add: abs_mult)
  also have "\<dots> < 2 ^ 53 * 2 powi k"
    using n by (simp flip: of_int_less_iff [where 'a = rat])
  also have "\<dots> = 2 powi (53 + k)" by (simp add: power_int_add)
  finally have "2 powi ?e < (2 powi (53 + k) :: rat)"
    using log2_floor_bounds(1) [OF pos] by linarith
  then have "?e < 53 + k" 
    by (metis linorder_not_less one_le_numeral power_int_increasing)
  with k have le: "ulp_exp ?q \<le> k" by (simp add: ulp_exp_def)
  define u where "u = ulp_exp ?q"
  from le obtain j where j: "k = u + int j" using zle_iff_zadd by (auto simp: u_def)
  have "?q = of_int (n * 2 ^ j) * 2 powi u"
    by (simp add: j power_int_add)
  then have "?q = of_int (n * 2 ^ j) * 2 powi ulp_exp ?q"
    by (simp only: u_def)
  moreover have "?q \<noteq> 0" using False by simp
  ultimately show ?thesis by (rule round_rat_grid [rotated])
qed simp

text \<open>Monotonicity: on one binade both numbers share a grid; across binades the power of two that
  separates them lies on both grids.\<close>

lemma round_rat_same_grid:
  assumes "0 < x" "x \<le> y" "ulp_exp x = ulp_exp y"
  shows "round_rat x \<le> round_rat y"
  using assms
  by (auto simp: round_rat_def intro!: mult_right_mono round_half_even_mono divide_right_mono)

lemma round_half_even_bound_int:
  "x \<le> of_int n \<Longrightarrow> round_half_even x \<le> n" "of_int n \<le> x \<Longrightarrow> n \<le> round_half_even x"
  using round_half_even_mono [of x "of_int n"] round_half_even_mono [of "of_int n" x] by simp_all

lemma round_rat_bound_pow:
  assumes "0 < x" "ulp_exp x \<le> e"
  shows "x \<le> 2 powi e \<Longrightarrow> round_rat x \<le> 2 powi e" "2 powi e \<le> x \<Longrightarrow> 2 powi e \<le> round_rat x"
proof -
  from assms(2) obtain j where j: "e = ulp_exp x + int j" using zle_iff_zadd by auto
  have e: "2 powi e = (of_int (2 ^ j) * 2 powi ulp_exp x :: rat)"
    by (simp add: j power_int_add)
  show "round_rat x \<le> 2 powi e" if "x \<le> 2 powi e"
  proof -
    have "x / 2 powi ulp_exp x \<le> of_int (2 ^ j)"
      using that by (simp add: e field_simps)
    then have "round_half_even (x / 2 powi ulp_exp x) \<le> 2 ^ j"
      by (rule round_half_even_bound_int)
    then have "of_int (round_half_even (x / 2 powi ulp_exp x)) \<le> (of_int (2 ^ j) :: rat)"
      by (simp only: of_int_le_iff)
    then show ?thesis
      unfolding e using assms(1) by (simp add: round_rat_def del: of_int_power)
  qed
  show "2 powi e \<le> round_rat x" if "2 powi e \<le> x"
  proof -
    have "of_int (2 ^ j) \<le> x / 2 powi ulp_exp x"
      using that by (simp add: e field_simps)
    then have "2 ^ j \<le> round_half_even (x / 2 powi ulp_exp x)"
      by (rule round_half_even_bound_int)
    then have "of_int (2 ^ j) \<le> (of_int (round_half_even (x / 2 powi ulp_exp x)) :: rat)"
      by (simp only: of_int_le_iff)
    then show ?thesis
      unfolding e using assms(1) by (simp add: round_rat_def del: of_int_power)
  qed
qed

lemma round_rat_mono_pos:
  assumes "0 < x" "x \<le> y" shows "round_rat x \<le> round_rat y"
proof (cases "ulp_exp x = ulp_exp y")
  case False
  have y: "0 < y" using assms by simp
  have ex: "ulp_exp x \<le> ulp_exp y" "log2_floor x \<le> log2_floor y"
    using assms log2_floor_mono [OF assms] by (simp_all add: ulp_exp_def)
  with False assms have up: "ulp_exp y = log2_floor y - 52" "log2_floor x < log2_floor y"
    by (auto simp: ulp_exp_def max_def split: if_splits)
  let ?p = "2 powi log2_floor y :: rat"
  have "2 powi (log2_floor x + 1) \<le> ?p"
    using up by (intro power_int_increasing) auto
  then have "x \<le> ?p"
    using log2_floor_bounds(2) [OF assms(1)] by simp
  then have "round_rat x \<le> ?p"
    using assms ex up by (intro round_rat_bound_pow) auto
  also have "?p \<le> round_rat y"
    using y up log2_floor_bounds(1) [OF y] by (intro round_rat_bound_pow) auto
  finally show ?thesis .
qed (use assms round_rat_same_grid in blast)

lemma round_rat_nonneg: "0 \<le> x \<Longrightarrow> 0 \<le> round_rat x"
  using round_half_even_bound_int(2) [of 0 "x / 2 powi ulp_exp x"] by (simp add: round_rat_def)

lemma round_rat_mono:
  assumes "x \<le> y" shows "round_rat x \<le> round_rat y"
proof -
  consider "0 < x" | "x \<le> 0" "0 \<le> y" | "y < 0" by linarith
  then show ?thesis
  proof cases
    case 1 then show ?thesis using assms round_rat_mono_pos by blast
  next
    case 2
    then have "round_rat x \<le> 0" "0 \<le> round_rat y"
      using round_rat_nonneg [of "- x"] round_rat_nonneg [of y] by (auto simp: round_rat_minus)
    then show ?thesis by simp
  next
    case 3
    then have "round_rat (- y) \<le> round_rat (- x)"
      using assms by (intro round_rat_mono_pos) auto
    then show ?thesis by (simp add: round_rat_minus)
  qed
qed

text \<open>Between two numbers of the unit interval at least \<open>2\<^sup>-\<^sup>4\<^sup>5\<close> apart lie two multiples of \<open>2\<^sup>-\<^sup>4\<^sup>6\<close>,
  which are doubles; so rounding keeps the two numbers apart.\<close>

lemma round_rat_strict:
  assumes "0 \<le> x" "y \<le> 1" "x + 1 / 2 ^ 45 \<le> y"
  shows "round_rat x < round_rat y"
proof -
  define m where "m = \<lceil>x * 2 ^ 46\<rceil>"
  have m: "x * 2 ^ 46 \<le> of_int m" "of_int m < x * 2 ^ 46 + 1"
    unfolding m_def by linarith+
  have "0 \<le> m" using assms(1) by (simp add: m_def)
  have le1: "of_int (m + 1) \<le> y * 2 ^ 46"
    using m assms(3) by (simp add: field_simps)
  also have "\<dots> \<le> 2 ^ 46" using assms(2) by simp
  finally have "m + 1 \<le> 2 ^ 46"
    by (metis (mono_tags) of_int_le_iff of_int_numeral of_int_power)
  with \<open>0 \<le> m\<close> have r: "round_rat (of_int m * 2 powi - 46) = of_int m * 2 powi - 46"
    "round_rat (of_int (m + 1) * 2 powi - 46) = of_int (m + 1) * 2 powi - 46"
    by (intro round_rat_exact; simp)+
  have "x \<le> of_int m * 2 powi - 46" "of_int (m + 1) * 2 powi - 46 \<le> y"
    using m(1) le1 by (simp_all add: power_int_minus field_simps)
  then have "round_rat x \<le> of_int m * 2 powi - 46" "of_int (m + 1) * 2 powi - 46 \<le> round_rat y"
    using round_rat_mono r by metis+
  then show ?thesis by (simp add: power_int_minus field_simps)
qed

text \<open>Up to \<open>2\<^sup>5\<^sup>2\<close> neighbouring doubles are at most 1 apart.\<close>

lemma round_rat_error:
  assumes "0 \<le> q" "q \<le> 2 ^ 52" shows "\<bar>round_rat q - q\<bar> \<le> 1 / 2"
proof (cases "q = 0")
  case False
  then have q: "0 < q" using assms(1) by simp
  let ?u = "2 powi ulp_exp q :: rat" and ?m = "round_half_even (q / 2 powi ulp_exp q)"
  have "log2_floor q \<le> 52"
  proof (rule ccontr)
    assume "\<not> ?thesis"
    then have "2 powi 53 \<le> (2 powi log2_floor q :: rat)" by (intro power_int_increasing) auto
    with log2_floor_bounds(1) [OF q] assms(2) show False by simp
  qed
  then have "?u \<le> 2 powi 0" using q by (intro power_int_increasing) (auto simp: ulp_exp_def)
  then have u: "0 < ?u" "?u \<le> 1" by simp_all
  have "of_int ?m * ?u \<le> q + ?u / 2" "q \<le> of_int ?m * ?u + ?u / 2"
    using round_half_even_bounds [of "q / ?u"] u(1) by (simp_all add: field_simps)
  then have "\<bar>of_int ?m * ?u - q\<bar> \<le> 1 / 2" using u(2) by linarith
  then show ?thesis using False by (simp add: round_rat_def)
qed simp

lemma round_rat_of_int: "\<bar>n\<bar> < 2 ^ 53 \<Longrightarrow> round_rat (of_int n) = of_int n"
  using round_rat_exact [of n 0] by simp

lemma round_rat_of_nat: "n < 2 ^ 53 \<Longrightarrow> round_rat (of_nat n) = of_nat n"
  using round_rat_of_int [of "int n"] by simp

section \<open>Getting back to exact arithmetic\<close>

lemma mk_double_Fin:
  assumes "\<bar>q\<bar> \<le> 2 ^ 52" shows "mk_double q = Fin (round_rat q)"
proof -
  have "round_rat (of_int (2 ^ 52)) = 2 ^ 52" "round_rat (- of_int (2 ^ 52)) = - (2 ^ 52)"
    using round_rat_of_int [of "2 ^ 52"] by (simp_all add: round_rat_minus)
  then have "round_rat q \<le> 2 ^ 52" "- (2 ^ 52) \<le> round_rat q"
    using assms round_rat_mono [of q "of_int (2 ^ 52)"] round_rat_mono [of "- of_int (2 ^ 52)" q]
    by (auto simp: abs_le_iff)
  moreover have "(2 :: rat) ^ 52 < 2 ^ 1024" by (intro power_strict_increasing) auto
  ultimately show ?thesis by (simp add: mk_double_def Let_def)
qed

lemma d_of_nat_exact: "n \<le> 2 ^ 52 \<Longrightarrow> d_of_nat n = Fin (of_nat n)"
proof -
  assume "n \<le> 2 ^ 52"
  then have "(of_nat n :: rat) \<le> of_nat (2 ^ 52)" "n < 2 ^ 53"
    by (simp_all only: of_nat_le_iff) simp
  then show ?thesis by (simp add: d_of_nat_def mk_double_Fin round_rat_of_nat)
qed

text \<open>
  A ratio of two counts compared with a threshold of the unit interval behaves as the exact fraction
  does, as long as the denominator and the threshold's denominator are moderate.
\<close>

lemma frac_gap:
  fixes k n p r :: nat
  assumes n: "0 < n" and r: "0 < r" and size: "n * r \<le> 2 ^ 45" and less: "k * r < p * n"
  shows "of_nat k / of_nat n + 1 / 2 ^ 45 \<le> (of_nat p / of_nat r :: rat)"
proof -
  have "k * r + 1 \<le> p * n" using less by simp
  then have "of_nat (k * r + 1) \<le> (of_nat (p * n) :: rat)" by (simp only: of_nat_le_iff)
  then have "(of_nat k * of_nat r + 1) / (of_nat n * of_nat r) \<le>
      (of_nat p * of_nat n / (of_nat n * of_nat r) :: rat)"
    by (intro divide_right_mono) simp_all
  then have "(of_nat k * of_nat r + 1) / (of_nat n * of_nat r) \<le> (of_nat p / of_nat r :: rat)"
    using n by simp
  moreover have "(of_nat k * of_nat r + 1) / (of_nat n * of_nat r) =
      of_nat k / of_nat n + 1 / (of_nat (n * r) :: rat)"
    using n r by (simp add: field_simps)
  moreover have "1 / 2 ^ 45 \<le> 1 / (of_nat (n * r) :: rat)"
  proof -
    have "(of_nat (n * r) :: rat) \<le> of_nat (2 ^ 45)" using size by (simp only: of_nat_le_iff)
    then show ?thesis using n r by (simp add: frac_le)
  qed
  ultimately show ?thesis by linarith
qed

lemma ratio_less_iff:
  fixes k n p r :: nat
  assumes "0 < n" "k \<le> n" "0 < r" "p \<le> r" "n * r \<le> 2 ^ 45"
  shows "round_rat (of_nat k / of_nat n) < round_rat (of_nat p / of_nat r) \<longleftrightarrow> k * r < p * n"
    "round_rat (of_nat p / of_nat r) < round_rat (of_nat k / of_nat n) \<longleftrightarrow> p * n < k * r"
proof -
  let ?x = "of_nat k / of_nat n :: rat" and ?y = "of_nat p / of_nat r :: rat"
  have u: "0 \<le> ?x" "?x \<le> 1" "0 \<le> ?y" "?y \<le> 1" using assms by simp_all
  have xy: "?x \<le> ?y \<longleftrightarrow> k * r \<le> p * n"
    using assms by (simp add: field_simps flip: of_nat_mult)
  have yx: "?y \<le> ?x \<longleftrightarrow> p * n \<le> k * r"
    using assms by (simp add: field_simps flip: of_nat_mult)
  have 1: "k * r < p * n \<Longrightarrow> round_rat ?x < round_rat ?y"
    using frac_gap [of n r k p] u assms by (intro round_rat_strict) auto
  have 2: "p * n < k * r \<Longrightarrow> round_rat ?y < round_rat ?x"
    using frac_gap [of r n p k] u assms by (intro round_rat_strict) (auto simp: mult.commute)
  show "round_rat ?x < round_rat ?y \<longleftrightarrow> k * r < p * n"
    using 1 round_rat_mono [of ?y ?x] yx by (auto simp: not_less)
  show "round_rat ?y < round_rat ?x \<longleftrightarrow> p * n < k * r"
    using 2 round_rat_mono [of ?x ?y] xy by (auto simp: not_less)
qed

lemma dmul_exact: "a * b \<le> 2 ^ 52 \<Longrightarrow> dmul (Fin (of_nat a)) (Fin (of_nat b)) = Fin (of_nat (a * b))"
  using d_of_nat_exact [of "a * b"] by (simp add: d_of_nat_def)

lemma dadd_exact: "a + b \<le> 2 ^ 52 \<Longrightarrow> dadd (Fin (of_nat a)) (Fin (of_nat b)) = Fin (of_nat (a + b))"
  using d_of_nat_exact [of "a + b"] by (simp add: d_of_nat_def)

end
