(* ===== verification/Sync_Coordinator.thy ===== *)
theory Sync_Coordinator
  imports Double Types Ordered_Map
begin

text \<open>
  The periodic sync coordinator, \<^verbatim>\<open>src/sync_coordinator_node.cpp\<close>: it waits until every expected
  participant has reported ready, then triggers numbered rounds, collects acknowledgements, and judges
  each participant (OK, SLOW, MISSING, FAILED, DEGRADED).

  The state of the class is the record \<open>SyncCoordinator\<close>; its callbacks are functions on it. What the
  node publishes is appended to \<open>co_log\<close> in order. ROS itself is a parameter, \<open>RosEnv\<close>: the value of the
  \<open>n\<close>-th call of \<^verbatim>\<open>ros::Time::now()\<close>, and \<^verbatim>\<open>(a - b).toSec()\<close> on times. Creating a timer is registering it in
  the state; its firing is a step of the environment. Log output (\<^verbatim>\<open>ROS_INFO\<close>, \<^verbatim>\<open>ROS_WARN\<close>) is left out.
\<close>

section \<open>Messages\<close>

definition STATUS_OK :: u8 where "STATUS_OK = 0"
definition STATUS_SLOW :: u8 where "STATUS_SLOW = 1"
definition STATUS_MISSING :: u8 where "STATUS_MISSING = 2"
definition STATUS_FAILED :: u8 where "STATUS_FAILED = 3"
definition STATUS_DEGRADED :: u8 where "STATUS_DEGRADED = 4"

definition EVENT_READY :: u8 where "EVENT_READY = 0"
definition EVENT_ALL_READY :: u8 where "EVENT_ALL_READY = 1"
definition EVENT_SLOW :: u8 where "EVENT_SLOW = 2"
definition EVENT_MISSED :: u8 where "EVENT_MISSED = 3"
definition EVENT_LATE_ACK :: u8 where "EVENT_LATE_ACK = 4"
definition EVENT_FAILURE :: u8 where "EVENT_FAILURE = 5"
definition EVENT_RECOVERED :: u8 where "EVENT_RECOVERED = 6"
definition EVENT_UNKNOWN_PARTICIPANT :: u8 where "EVENT_UNKNOWN_PARTICIPANT = 7"
definition EVENT_CLOCK_ANOMALY :: u8 where "EVENT_CLOCK_ANOMALY = 8"
definition EVENT_DEGRADED :: u8 where "EVENT_DEGRADED = 9"

lemmas status_defs = STATUS_OK_def STATUS_SLOW_def STATUS_MISSING_def STATUS_FAILED_def STATUS_DEGRADED_def

record RosEnv =
  ros_now :: "nat \<Rightarrow> RosTime"
  ros_diff_sec :: "RosTime \<Rightarrow> RosTime \<Rightarrow> double"

record SyncReady =
  rdy_participant_id :: u32
  rdy_node_name :: string
  rdy_ready_time :: RosTime

record SyncAck =
  ack_participant_id :: u32
  ack_sequence_id :: u64
  ack_received_time :: RosTime
  ack_finished_time :: RosTime
  ack_computation_ms :: double
  ack_success :: bool
  ack_error_msg :: string

record SyncTrigger =
  trg_sequence_id :: u64
  trg_trigger_time :: RosTime
  trg_active_participant_ids :: "u32 list"

record SyncEvent =
  sev_stamp :: RosTime
  sev_event_type :: u8
  sev_participant_id :: u32
  sev_sequence_id :: u64
  sev_message :: string
  sev_cycle_ms :: double
  sev_computation_ms :: double
  sev_threshold_ms :: double

record SyncParticipantStats =
  sps_participant_id :: u32
  sps_ready :: bool
  sps_node_name :: string
  sps_last_ack_sequence_id :: u64
  sps_last_response_time :: RosTime
  sps_last_computation_ms :: double
  sps_last_cycle_ms :: double
  sps_computation_ewma_ms :: double
  sps_cycle_ewma_ms :: double
  sps_computation_mean_ms :: double
  sps_computation_max_ms :: double
  sps_computation_stddev_ms :: double
  sps_cycle_mean_ms :: double
  sps_cycle_max_ms :: double
  sps_cycle_stddev_ms :: double
  sps_missed_count :: u32
  sps_consecutive_missed_count :: u32
  sps_slow_count :: u32
  sps_consecutive_slow_count :: u32
  sps_failure_count :: u32
  sps_consecutive_failure_count :: u32
  sps_good_cycle_count :: u32
  sps_status :: u8

record SyncStatistics =
  sst_stamp :: RosTime
  sst_sequence_id :: u64
  sst_sync_period_ms :: double
  sst_expected_response_count :: u32
  sst_actual_response_count :: u32
  sst_missing_response_count :: u32
  sst_round_finish_ms :: double
  sst_max_cycle_ms :: double
  sst_mean_cycle_ms :: double
  sst_stddev_cycle_ms :: double
  sst_straggler_participant_id :: u32
  sst_participants :: "SyncParticipantStats list"

datatype CoordinatorMsg = TriggerMsg SyncTrigger | StatisticsMsg SyncStatistics | EventMsg SyncEvent

section \<open>State\<close>

record TimingSample =
  ts_computation_ms :: double
  ts_cycle_ms :: double

record ParticipantStatus =
  ps_ready :: bool
  ps_node_name :: string
  ps_last_response_time :: RosTime
  ps_last_ack_sequence_id :: u64
  ps_last_computation_ms :: double
  ps_last_cycle_ms :: double
  ps_computation_ewma_ms :: double
  ps_cycle_ewma_ms :: double
  ps_has_sample :: bool
  ps_samples :: "TimingSample list"
  ps_missed_count :: u32
  ps_consecutive_missed_count :: u32
  ps_slow_count :: u32
  ps_consecutive_slow_count :: u32
  ps_failure_count :: u32
  ps_consecutive_failure_count :: u32
  ps_good_cycle_count :: u32
  ps_status :: u8

definition ParticipantStatus_default :: ParticipantStatus where
  "ParticipantStatus_default =
     \<lparr>ps_ready = False, ps_node_name = '''', ps_last_response_time = RosTime 0 0,
      ps_last_ack_sequence_id = 0, ps_last_computation_ms = Fin 0, ps_last_cycle_ms = Fin 0,
      ps_computation_ewma_ms = Fin 0, ps_cycle_ewma_ms = Fin 0, ps_has_sample = False, ps_samples = [],
      ps_missed_count = 0, ps_consecutive_missed_count = 0, ps_slow_count = 0,
      ps_consecutive_slow_count = 0, ps_failure_count = 0, ps_consecutive_failure_count = 0,
      ps_good_cycle_count = 0, ps_status = STATUS_OK\<rparr>"

text \<open>A \<^verbatim>\<open>std::set<uint32_t>\<close> is the sorted list of its elements.\<close>

record RoundStatus =
  rs_trigger_time :: RosTime
  rs_pending :: "u32 list"
  rs_responded :: "u32 list"
  rs_round_finish_ms :: double
  rs_straggler_participant_id :: u32
  rs_monitor_checked :: bool

definition sset_insert :: "'a::linorder \<Rightarrow> 'a list \<Rightarrow> 'a list" where
  "sset_insert x xs = (if x \<in> set xs then xs else insort x xs)"

definition sset_erase :: "'a \<Rightarrow> 'a list \<Rightarrow> 'a list" where
  "sset_erase x xs = filter (\<lambda>y. y \<noteq> x) xs"

text \<open>The parameters of the node after the constructor has read them.\<close>

record CoordinatorConfig =
  cc_participant_count :: int
  cc_first_participant_id :: int
  cc_sync_period :: double
  cc_timeout_threshold_ms :: double
  cc_max_consecutive_timeouts :: int
  cc_statistics_publish_period :: double
  cc_statistics_publish_every_n_cycles :: int
  cc_stats_window_size :: int
  cc_slow_ratio_threshold :: double
  cc_recovery_good_cycles :: int
  cc_spin_rate_hz :: double

record SyncCoordinator =
  co_config :: CoordinatorConfig
  co_sequence_id :: u64
  co_all_ready :: bool
  co_participant_status :: "(u32, ParticipantStatus) omap"
  co_rounds :: "(u64, RoundStatus) omap"
  co_response_timers :: "u64 list"
  co_sync_timer :: bool
  co_statistics_timer :: bool
  co_clock_reads :: nat
  co_log :: "CoordinatorMsg list"

section \<open>Parameters and construction\<close>

text \<open>The private parameters as the parameter server holds them; \<open>None\<close> is a parameter that is not set.\<close>

record CoordinatorParams =
  par_participant_count :: "int option"
  par_num_participants :: "int option"
  par_num_uavs :: "int option"
  par_first_participant_id :: "int option"
  par_sampling_time :: "double option"
  par_sync_period :: "double option"
  par_timeout_threshold_ms :: "double option"
  par_max_consecutive_timeouts :: "int option"
  par_statistics_publish_period :: "double option"
  par_statistics_publish_every_n_cycles :: "int option"
  par_stats_window_size :: "int option"
  par_slow_ratio_threshold :: "double option"
  par_recovery_good_cycles :: "int option"
  par_spin_rate_hz :: "double option"

definition literal :: "nat \<Rightarrow> nat \<Rightarrow> double" where
  "literal p r = mk_double (of_nat p / of_nat r)"

definition readParams :: "CoordinatorParams \<Rightarrow> CoordinatorConfig" where
  "readParams p =
     (let count = param (par_participant_count p) 0;
          count = (if count \<le> 0 then param (par_num_participants p) 0 else count);
          count = (if count \<le> 0 then param (par_num_uavs p) 4 else count);
          sampling_time = param (par_sampling_time p) (literal 1 10);
          sync_period = param (par_sync_period p) sampling_time;
          sync_period =
            (if \<not> isfinite sync_period \<or> dle sync_period (Fin 0)
             then if isfinite sampling_time \<and> dlt (Fin 0) sampling_time then sampling_time else literal 1 10
             else sync_period);
          spin_rate = param (par_spin_rate_hz p) (Fin 200);
          spin_rate = (if \<not> isfinite spin_rate \<or> dle spin_rate (Fin 0) then Fin 200 else spin_rate)
      in \<lparr>cc_participant_count = count,
          cc_first_participant_id = param (par_first_participant_id p) 1,
          cc_sync_period = sync_period,
          cc_timeout_threshold_ms = param (par_timeout_threshold_ms p) (Fin 100),
          cc_max_consecutive_timeouts = param (par_max_consecutive_timeouts p) 3,
          cc_statistics_publish_period = param (par_statistics_publish_period p) (Fin 1),
          cc_statistics_publish_every_n_cycles = param (par_statistics_publish_every_n_cycles p) 0,
          cc_stats_window_size = max 1 (param (par_stats_window_size p) 100),
          cc_slow_ratio_threshold = param (par_slow_ratio_threshold p) (literal 8 10),
          cc_recovery_good_cycles = max 1 (param (par_recovery_good_cycles p) 5),
          cc_spin_rate_hz = spin_rate\<rparr>)"

fun addParticipants :: "int \<Rightarrow> nat \<Rightarrow> nat \<Rightarrow> (u32, ParticipantStatus) omap \<Rightarrow> (u32, ParticipantStatus) omap" where
  "addParticipants first offset 0 m = m"
| "addParticipants first offset (Suc n) m =
     addParticipants first (offset + 1) n
       (omap_assign (word_of_int (first + int offset)) ParticipantStatus_default m)"

definition SyncCoordinator_new :: "CoordinatorParams \<Rightarrow> SyncCoordinator" where
  "SyncCoordinator_new p =
     (let config = readParams p
      in \<lparr>co_config = config, co_sequence_id = 0, co_all_ready = False,
          co_participant_status =
            addParticipants (cc_first_participant_id config) 0 (nat (cc_participant_count config)) [],
          co_rounds = [], co_response_timers = [], co_sync_timer = False,
          co_statistics_timer = dlt (Fin 0) (cc_statistics_publish_period config),
          co_clock_reads = 0, co_log = []\<rparr>)"

section \<open>Publishing\<close>

definition readClock :: "RosEnv \<Rightarrow> SyncCoordinator \<Rightarrow> RosTime \<times> SyncCoordinator" where
  "readClock env c = (ros_now env (co_clock_reads c), c\<lparr>co_clock_reads := co_clock_reads c + 1\<rparr>)"

definition emit :: "CoordinatorMsg \<Rightarrow> SyncCoordinator \<Rightarrow> SyncCoordinator" where
  "emit m c = c\<lparr>co_log := co_log c @ [m]\<rparr>"

definition publishEvent :: "RosEnv \<Rightarrow> u8 \<Rightarrow> u32 \<Rightarrow> u64 \<Rightarrow> string \<Rightarrow> double \<Rightarrow> double \<Rightarrow> double
    \<Rightarrow> SyncCoordinator \<Rightarrow> SyncCoordinator" where
  "publishEvent env event_type participant_id sequence_id text cycle_ms computation_ms threshold_ms c =
     (let (stamp, c) = readClock env c
      in emit (EventMsg \<lparr>sev_stamp = stamp, sev_event_type = event_type, sev_participant_id = participant_id,
           sev_sequence_id = sequence_id, sev_message = text, sev_cycle_ms = cycle_ms,
           sev_computation_ms = computation_ms, sev_threshold_ms = threshold_ms\<rparr>) c)"

record SeriesStats =
  ss_mean :: double
  ss_max :: double
  ss_stddev :: double

definition computeStats :: "double list \<Rightarrow> SeriesStats" where
  "computeStats values =
     (if values = [] then \<lparr>ss_mean = Fin 0, ss_max = Fin 0, ss_stddev = Fin 0\<rparr>
      else
        let mx = foldl (\<lambda>m x. if dlt m x then x else m) (hd values) (tl values);
            sum = foldl dadd (Fin 0) values;
            mean = ddiv sum (d_of_nat (length values));
            squared_error_sum =
              foldl (\<lambda>acc v. let err = dsub v mean in dadd acc (dmul err err)) (Fin 0) values
        in \<lparr>ss_mean = mean, ss_max = mx, ss_stddev = dsqrt (ddiv squared_error_sum (d_of_nat (length values)))\<rparr>)"

definition toParticipantStats :: "u32 \<Rightarrow> ParticipantStatus \<Rightarrow> SyncParticipantStats" where
  "toParticipantStats participant_id status =
     (let computation_stats = computeStats (map ts_computation_ms (ps_samples status));
          cycle_stats = computeStats (map ts_cycle_ms (ps_samples status))
      in \<lparr>sps_participant_id = participant_id, sps_ready = ps_ready status,
          sps_node_name = ps_node_name status, sps_last_ack_sequence_id = ps_last_ack_sequence_id status,
          sps_last_response_time = ps_last_response_time status,
          sps_last_computation_ms = ps_last_computation_ms status,
          sps_last_cycle_ms = ps_last_cycle_ms status,
          sps_computation_ewma_ms = ps_computation_ewma_ms status,
          sps_cycle_ewma_ms = ps_cycle_ewma_ms status,
          sps_computation_mean_ms = ss_mean computation_stats,
          sps_computation_max_ms = ss_max computation_stats,
          sps_computation_stddev_ms = ss_stddev computation_stats,
          sps_cycle_mean_ms = ss_mean cycle_stats, sps_cycle_max_ms = ss_max cycle_stats,
          sps_cycle_stddev_ms = ss_stddev cycle_stats,
          sps_missed_count = ps_missed_count status,
          sps_consecutive_missed_count = ps_consecutive_missed_count status,
          sps_slow_count = ps_slow_count status,
          sps_consecutive_slow_count = ps_consecutive_slow_count status,
          sps_failure_count = ps_failure_count status,
          sps_consecutive_failure_count = ps_consecutive_failure_count status,
          sps_good_cycle_count = ps_good_cycle_count status, sps_status = ps_status status\<rparr>)"

definition latestRound :: "SyncCoordinator \<Rightarrow> RoundStatus option" where
  "latestRound c = (if co_rounds c = [] then None else Some (snd (last (co_rounds c))))"

definition publishStatistics :: "RosEnv \<Rightarrow> SyncCoordinator \<Rightarrow> SyncCoordinator" where
  "publishStatistics env c =
     (let (stamp, c) = readClock env c;
          expected = of_nat (length (co_participant_status c)) :: u32;
          participants = map (\<lambda>(i, s). toParticipantStats i s) (co_participant_status c);
          latest_cycle_samples =
            map (\<lambda>(i, s). ps_last_cycle_ms s) (filter (\<lambda>(i, s). ps_has_sample s) (co_participant_status c));
          global_cycle_stats = computeStats latest_cycle_samples;
          (actual, missing, finish, straggler) =
            (case latestRound c of
               Some rnd \<Rightarrow> (of_nat (length (rs_responded rnd)), of_nat (length (rs_pending rnd)),
                 rs_round_finish_ms rnd, rs_straggler_participant_id rnd)
             | None \<Rightarrow> (0, expected, Fin 0, 0))
      in emit (StatisticsMsg \<lparr>sst_stamp = stamp, sst_sequence_id = co_sequence_id c,
           sst_sync_period_ms = dmul (cc_sync_period (co_config c)) (Fin 1000),
           sst_expected_response_count = expected, sst_actual_response_count = actual,
           sst_missing_response_count = missing, sst_round_finish_ms = finish,
           sst_max_cycle_ms = ss_max global_cycle_stats, sst_mean_cycle_ms = ss_mean global_cycle_stats,
           sst_stddev_cycle_ms = ss_stddev global_cycle_stats, sst_straggler_participant_id = straggler,
           sst_participants = participants\<rparr>) c)"

definition publishStatisticsIfCycleDue :: "RosEnv \<Rightarrow> SyncCoordinator \<Rightarrow> SyncCoordinator" where
  "publishStatisticsIfCycleDue env c =
     (let n = cc_statistics_publish_every_n_cycles (co_config c)
      in if n > 0 \<and> co_sequence_id c > 0 \<and> co_sequence_id c mod word_of_int n = 0
         then publishStatistics env c else c)"

section \<open>Judging a participant\<close>

definition statusRank :: "u8 \<Rightarrow> nat" where
  "statusRank st =
     (if st = STATUS_OK then 0 else if st = STATUS_SLOW then 1 else if st = STATUS_MISSING then 2
      else if st = STATUS_FAILED then 3 else if st = STATUS_DEGRADED then 4 else 0)"

definition setStatus :: "u8 \<Rightarrow> ParticipantStatus \<Rightarrow> ParticipantStatus" where
  "setStatus candidate s =
     (if statusRank candidate \<ge> statusRank (ps_status s) then s\<lparr>ps_status := candidate\<rparr> else s)"

definition degradedIfNeeded :: "CoordinatorConfig \<Rightarrow> ParticipantStatus \<Rightarrow> u8 \<Rightarrow> u8" where
  "degradedIfNeeded cfg s fallback =
     (let mx = word_of_int (cc_max_consecutive_timeouts cfg) :: u32
      in if ps_consecutive_missed_count s \<ge> mx \<or> ps_consecutive_slow_count s \<ge> mx \<or>
            ps_consecutive_failure_count s \<ge> mx
         then STATUS_DEGRADED else fallback)"

definition slowThresholdMs :: "CoordinatorConfig \<Rightarrow> double" where
  "slowThresholdMs cfg = dmul (dmul (cc_sync_period cfg) (Fin 1000)) (cc_slow_ratio_threshold cfg)"

fun trimSamples :: "nat \<Rightarrow> TimingSample list \<Rightarrow> TimingSample list" where
  "trimSamples w [] = []"
| "trimSamples w (x # xs) = (if length (x # xs) > w then trimSamples w xs else x # xs)"

definition recordSample :: "CoordinatorConfig \<Rightarrow> double \<Rightarrow> double \<Rightarrow> ParticipantStatus \<Rightarrow> ParticipantStatus" where
  "recordSample cfg computation_ms cycle_ms s =
     (let alpha = literal 5 100; keep = dsub (Fin 1) alpha;
          s = s\<lparr>ps_last_computation_ms := computation_ms, ps_last_cycle_ms := cycle_ms\<rparr>;
          s = (if \<not> ps_has_sample s
               then s\<lparr>ps_computation_ewma_ms := computation_ms, ps_cycle_ewma_ms := cycle_ms, ps_has_sample := True\<rparr>
               else s\<lparr>ps_computation_ewma_ms :=
                        dadd (dmul (ps_computation_ewma_ms s) keep) (dmul computation_ms alpha),
                      ps_cycle_ewma_ms := dadd (dmul (ps_cycle_ewma_ms s) keep) (dmul cycle_ms alpha)\<rparr>)
      in s\<lparr>ps_samples := trimSamples (nat (cc_stats_window_size cfg))
             (ps_samples s @ [\<lparr>ts_computation_ms = computation_ms, ts_cycle_ms = cycle_ms\<rparr>])\<rparr>)"

definition recordFailure :: "ParticipantStatus \<Rightarrow> ParticipantStatus" where
  "recordFailure s =
     s\<lparr>ps_failure_count := ps_failure_count s + 1,
       ps_consecutive_failure_count := ps_consecutive_failure_count s + 1, ps_good_cycle_count := 0\<rparr>"

text \<open>The boolean says whether the recovery event is published.\<close>

definition recordHealthyAck :: "CoordinatorConfig \<Rightarrow> ParticipantStatus \<Rightarrow> bool \<times> ParticipantStatus" where
  "recordHealthyAck cfg s =
     (let was_abnormal = (ps_status s \<noteq> STATUS_OK);
          s = s\<lparr>ps_consecutive_missed_count := 0, ps_consecutive_slow_count := 0,
                ps_consecutive_failure_count := 0, ps_good_cycle_count := ps_good_cycle_count s + 1\<rparr>
      in if was_abnormal
         then if ps_good_cycle_count s \<ge> word_of_int (cc_recovery_good_cycles cfg)
              then (True, s\<lparr>ps_status := STATUS_OK\<rparr>) else (False, s)
         else (False, s\<lparr>ps_status := STATUS_OK\<rparr>))"

section \<open>Callbacks\<close>

fun cleanupLoop :: "u64 \<Rightarrow> u64 \<Rightarrow> (u64, RoundStatus) omap \<Rightarrow> (u64, RoundStatus) omap" where
  "cleanupLoop keep_count sequence_id [] = []"
| "cleanupLoop keep_count sequence_id (r # rs) =
     (if fst r + keep_count < sequence_id then cleanupLoop keep_count sequence_id rs else r # rs)"

definition cleanupRounds :: "SyncCoordinator \<Rightarrow> SyncCoordinator" where
  "cleanupRounds c =
     (let keep_count = word_of_int (max (cc_stats_window_size (co_config c)) 10)
      in c\<lparr>co_rounds := cleanupLoop keep_count (co_sequence_id c) (co_rounds c)\<rparr>)"

definition readyCallback :: "RosEnv \<Rightarrow> SyncReady \<Rightarrow> SyncCoordinator \<Rightarrow> SyncCoordinator" where
  "readyCallback env msg c =
     (case omap_find (co_participant_status c) (rdy_participant_id msg) of
        None \<Rightarrow>
          publishEvent env EVENT_UNKNOWN_PARTICIPANT (rdy_participant_id msg) (co_sequence_id c)
            ''Ignoring ready message from unexpected participant'' (Fin 0) (Fin 0) (Fin 0) c
      | Some status \<Rightarrow>
          if \<not> ps_ready status then
            let status = status\<lparr>ps_ready := True, ps_node_name := rdy_node_name msg,
                  ps_last_response_time := rdy_ready_time msg\<rparr>;
                c = c\<lparr>co_participant_status :=
                  omap_assign (rdy_participant_id msg) status (co_participant_status c)\<rparr>;
                c = publishEvent env EVENT_READY (rdy_participant_id msg) (co_sequence_id c)
                  ''Participant is ready'' (Fin 0) (Fin 0) (Fin 0) c
            in publishStatistics env c
          else c)"

text \<open>
  \<^verbatim>\<open>syncAckCallback\<close>. The update of the round comes first; \<open>None\<close> is a null \<^verbatim>\<open>round\<close> pointer. The boolean is
  \<^verbatim>\<open>late_ack\<close>.
\<close>

definition ackRound :: "RosEnv \<Rightarrow> SyncAck \<Rightarrow> RosTime \<Rightarrow> RoundStatus \<Rightarrow> bool \<times> RoundStatus" where
  "ackRound env msg ack_time rnd =
     (let i = ack_participant_id msg;
          late_ack = (rs_monitor_checked rnd \<and> i \<in> set (rs_pending rnd));
          rnd = rnd\<lparr>rs_pending := sset_erase i (rs_pending rnd), rs_responded := sset_insert i (rs_responded rnd)\<rparr>;
          ack_delay_ms = dmul (ros_diff_sec env ack_time (rs_trigger_time rnd)) (Fin 1000);
          rnd = (if dle (rs_round_finish_ms rnd) ack_delay_ms
                 then rnd\<lparr>rs_round_finish_ms := ack_delay_ms, rs_straggler_participant_id := i\<rparr> else rnd)
      in (late_ack, rnd))"

definition ackCycleMs :: "RosEnv \<Rightarrow> SyncAck \<Rightarrow> double" where
  "ackCycleMs env msg = dmul (ros_diff_sec env (ack_finished_time msg) (ack_received_time msg)) (Fin 1000)"

definition clockAnomaly :: "double \<Rightarrow> bool" where
  "clockAnomaly cycle_ms \<longleftrightarrow> dlt cycle_ms (Fin 0) \<or> \<not> isfinite cycle_ms"

definition isSlow :: "CoordinatorConfig \<Rightarrow> double \<Rightarrow> bool" where
  "isSlow cfg cycle_ms \<longleftrightarrow> \<not> clockAnomaly cycle_ms \<and> dlt (slowThresholdMs cfg) cycle_ms"

text \<open>The effect of an acknowledgement on the participant's status, with the recovery flag.\<close>

definition ackStatus :: "CoordinatorConfig \<Rightarrow> SyncAck \<Rightarrow> double \<Rightarrow> RosTime \<Rightarrow> ParticipantStatus
    \<Rightarrow> bool \<times> ParticipantStatus" where
  "ackStatus cfg msg cycle_ms response_time s =
     (let clock_anomaly = clockAnomaly cycle_ms; slow = isSlow cfg cycle_ms; failed = \<not> ack_success msg;
          s = s\<lparr>ps_last_response_time := response_time, ps_last_ack_sequence_id := ack_sequence_id msg\<rparr>;
          s = (if clock_anomaly
               then let s = recordFailure s in setStatus (degradedIfNeeded cfg s STATUS_FAILED) s
               else recordSample cfg (ack_computation_ms msg) cycle_ms s);
          s = (if failed
               then let s = (if \<not> clock_anomaly then recordFailure s else s)
                    in setStatus (degradedIfNeeded cfg s STATUS_FAILED) s
               else s);
          s = (if slow
               then let s = s\<lparr>ps_slow_count := ps_slow_count s + 1,
                      ps_consecutive_slow_count := ps_consecutive_slow_count s + 1,
                      ps_consecutive_missed_count := 0, ps_good_cycle_count := 0\<rparr>
                    in setStatus (degradedIfNeeded cfg s STATUS_SLOW) s
               else s)
      in if \<not> clock_anomaly \<and> \<not> failed \<and> \<not> slow then recordHealthyAck cfg s else (False, s))"

text \<open>The events an acknowledgement publishes, in the order of the code.\<close>

definition ackEvents :: "RosEnv \<Rightarrow> SyncAck \<Rightarrow> double \<Rightarrow> bool \<Rightarrow> bool \<Rightarrow> bool \<Rightarrow> SyncCoordinator \<Rightarrow> SyncCoordinator" where
  "ackEvents env msg cycle_ms late_ack recovered newly_degraded c =
     (let cfg = co_config c; i = ack_participant_id msg; sq = ack_sequence_id msg;
          comp = ack_computation_ms msg; anomaly = clockAnomaly cycle_ms;
          shown = (if anomaly then Fin 0 else cycle_ms);
          c = (if anomaly then publishEvent env EVENT_CLOCK_ANOMALY i sq
                 ''Participant reported invalid cycle timestamps'' cycle_ms comp (Fin 0) c else c);
          c = (if late_ack then publishEvent env EVENT_LATE_ACK i sq
                 ''Ack arrived after the response timeout'' shown comp (cc_timeout_threshold_ms cfg) c else c);
          c = (if \<not> ack_success msg then publishEvent env EVENT_FAILURE i sq
                 (if ack_error_msg msg = '''' then ''Participant reported failure'' else ack_error_msg msg)
                 shown comp (Fin 0) c else c);
          c = (if isSlow cfg cycle_ms then publishEvent env EVENT_SLOW i sq
                 ''Participant cycle time exceeded the slow threshold'' cycle_ms comp (slowThresholdMs cfg) c else c);
          c = (if recovered then publishEvent env EVENT_RECOVERED i sq
                 ''Participant recovered after consecutive healthy acks'' cycle_ms comp (Fin 0) c else c)
      in if newly_degraded then publishEvent env EVENT_DEGRADED i sq
           ''Participant entered degraded status'' shown comp (cc_timeout_threshold_ms cfg) c else c)"

definition syncAckCallback :: "RosEnv \<Rightarrow> SyncAck \<Rightarrow> SyncCoordinator \<Rightarrow> SyncCoordinator" where
  "syncAckCallback env msg c =
     (case omap_find (co_participant_status c) (ack_participant_id msg) of
        None \<Rightarrow>
          publishEvent env EVENT_UNKNOWN_PARTICIPANT (ack_participant_id msg) (ack_sequence_id msg)
            ''Ignoring ack from unexpected participant'' (Fin 0) (ack_computation_ms msg) (Fin 0) c
      | Some status \<Rightarrow>
          let (ack_time, c) = readClock env c;
              (late_ack, rounds) =
                (case omap_find (co_rounds c) (ack_sequence_id msg) of
                   None \<Rightarrow> (False, co_rounds c)
                 | Some rnd \<Rightarrow>
                     let (late, rnd) = ackRound env msg ack_time rnd
                     in (late, omap_assign (ack_sequence_id msg) rnd (co_rounds c)));
              c = c\<lparr>co_rounds := rounds\<rparr>;
              (response_time, c) = readClock env c;
              cycle_ms = ackCycleMs env msg;
              (recovered, status') = ackStatus (co_config c) msg cycle_ms response_time status;
              healthy = (\<not> clockAnomaly cycle_ms \<and> ack_success msg \<and> \<not> isSlow (co_config c) cycle_ms);
              newly_degraded = (\<not> healthy \<and> ps_status status \<noteq> STATUS_DEGRADED \<and> ps_status status' = STATUS_DEGRADED);
              c = c\<lparr>co_participant_status :=
                    omap_assign (ack_participant_id msg) status' (co_participant_status c)\<rparr>;
              c = ackEvents env msg cycle_ms late_ack recovered newly_degraded c
          in cleanupRounds (publishStatisticsIfCycleDue env c))"

definition checkAllReady :: "SyncCoordinator \<Rightarrow> bool" where
  "checkAllReady c \<longleftrightarrow>
     list_all (\<lambda>p. ps_ready (snd p)) (co_participant_status c) \<and> co_participant_status c \<noteq> []"

definition startSyncTimer :: "SyncCoordinator \<Rightarrow> SyncCoordinator" where
  "startSyncTimer c = c\<lparr>co_sync_timer := True\<rparr>"

definition syncTimerCallback :: "RosEnv \<Rightarrow> SyncCoordinator \<Rightarrow> SyncCoordinator" where
  "syncTimerCallback env c =
     (let sq = co_sequence_id c + 1;
          (now, c) = readClock env (c\<lparr>co_sequence_id := sq\<rparr>);
          ids = map fst (co_participant_status c);
          rnd = \<lparr>rs_trigger_time = now, rs_pending = foldl (\<lambda>p i. sset_insert i p) [] ids, rs_responded = [],
                 rs_round_finish_ms = Fin 0, rs_straggler_participant_id = 0, rs_monitor_checked = False\<rparr>;
          c = c\<lparr>co_rounds := omap_assign sq rnd (co_rounds c)\<rparr>;
          c = emit (TriggerMsg \<lparr>trg_sequence_id = sq, trg_trigger_time = now, trg_active_participant_ids = ids\<rparr>) c;
          c = c\<lparr>co_response_timers := sset_insert sq (co_response_timers c)\<rparr>
      in cleanupRounds (publishStatisticsIfCycleDue env c))"

text \<open>One iteration of the loop of \<^verbatim>\<open>checkResponses\<close>.\<close>

definition missedStatus :: "CoordinatorConfig \<Rightarrow> ParticipantStatus \<Rightarrow> ParticipantStatus" where
  "missedStatus cfg s =
     (let s = s\<lparr>ps_missed_count := ps_missed_count s + 1,
            ps_consecutive_missed_count := ps_consecutive_missed_count s + 1, ps_good_cycle_count := 0\<rparr>
      in setStatus (degradedIfNeeded cfg s STATUS_MISSING) s)"

definition checkOne :: "RosEnv \<Rightarrow> u64 \<Rightarrow> SyncCoordinator \<Rightarrow> u32 \<Rightarrow> SyncCoordinator" where
  "checkOne env sq c i =
     (let (status, m) = omap_ref ParticipantStatus_default i (co_participant_status c);
          status' = missedStatus (co_config c) status;
          c = c\<lparr>co_participant_status := omap_assign i status' m\<rparr>;
          c = publishEvent env EVENT_MISSED i sq ''Participant did not ack before the response timeout''
                (Fin 0) (Fin 0) (cc_timeout_threshold_ms (co_config c)) c
      in if ps_status status \<noteq> STATUS_DEGRADED \<and> ps_status status' = STATUS_DEGRADED
         then publishEvent env EVENT_DEGRADED i sq ''Participant entered degraded status''
                (Fin 0) (Fin 0) (cc_timeout_threshold_ms (co_config c)) c
         else c)"

definition checkResponses :: "RosEnv \<Rightarrow> u64 \<Rightarrow> SyncCoordinator \<Rightarrow> SyncCoordinator" where
  "checkResponses env sq c =
     (let c =
        (case omap_find (co_rounds c) sq of
           None \<Rightarrow> c
         | Some rnd \<Rightarrow>
             foldl (checkOne env sq)
               (c\<lparr>co_rounds := omap_assign sq (rnd\<lparr>rs_monitor_checked := True\<rparr>) (co_rounds c)\<rparr>)
               (rs_pending rnd));
          c = c\<lparr>co_response_timers := sset_erase sq (co_response_timers c)\<rparr>
      in cleanupRounds (publishStatistics env c))"

definition statisticsTimerCallback :: "RosEnv \<Rightarrow> SyncCoordinator \<Rightarrow> SyncCoordinator" where
  "statisticsTimerCallback env c = publishStatistics env c"

text \<open>The part of an iteration of \<^verbatim>\<open>spin\<close> after the callbacks were served.\<close>

definition spinCheck :: "RosEnv \<Rightarrow> SyncCoordinator \<Rightarrow> SyncCoordinator" where
  "spinCheck env c =
     (if \<not> co_all_ready c \<and> checkAllReady c
      then let c = c\<lparr>co_all_ready := True\<rparr>;
               c = publishEvent env EVENT_ALL_READY 0 (co_sequence_id c) ''All participants are ready''
                     (Fin 0) (Fin 0) (Fin 0) c
           in startSyncTimer (publishStatistics env c)
      else c)"

section \<open>The node as a transition system\<close>

text \<open>
  \<^verbatim>\<open>spinOnce\<close> serves messages and expired timers one at a time. A timer can only fire when it was created,
  the response timer of a round only once.
\<close>

inductive coordinator_step :: "RosEnv \<Rightarrow> SyncCoordinator \<Rightarrow> SyncCoordinator \<Rightarrow> bool" for env where
  step_ready: "coordinator_step env c (readyCallback env msg c)"
| step_ack: "coordinator_step env c (syncAckCallback env ack c)"
| step_sync: "co_sync_timer c \<Longrightarrow> coordinator_step env c (syncTimerCallback env c)"
| step_timeout: "sq \<in> set (co_response_timers c) \<Longrightarrow> coordinator_step env c (checkResponses env sq c)"
| step_statistics: "co_statistics_timer c \<Longrightarrow> coordinator_step env c (statisticsTimerCallback env c)"
| step_spin: "coordinator_step env c (spinCheck env c)"

inductive coordinator_reach :: "RosEnv \<Rightarrow> CoordinatorParams \<Rightarrow> SyncCoordinator \<Rightarrow> bool" for env p where
  reach_start: "coordinator_reach env p (SyncCoordinator_new p)"
| reach_step: "coordinator_reach env p c \<Longrightarrow> coordinator_step env c c' \<Longrightarrow> coordinator_reach env p c'"

inductive_cases coordinator_stepE: "coordinator_step env c c'"

section \<open>What publishing leaves alone\<close>

text \<open>
  Everything but the log and the clock. A publishing operation is one that changes only those two and
  appends to the log only messages of a given kind.
\<close>

definition core :: "SyncCoordinator \<Rightarrow> SyncCoordinator" where
  "core c = c\<lparr>co_clock_reads := 0, co_log := []\<rparr>"

definition is_trigger :: "CoordinatorMsg \<Rightarrow> bool" where
  "is_trigger m \<longleftrightarrow> (\<exists>t. m = TriggerMsg t)"

definition publishes :: "(CoordinatorMsg \<Rightarrow> bool) \<Rightarrow> SyncCoordinator \<Rightarrow> SyncCoordinator \<Rightarrow> bool" where
  "publishes ok c c' \<longleftrightarrow> core c' = core c \<and> (\<exists>ms. co_log c' = co_log c @ ms \<and> (\<forall>m \<in> set ms. ok m))"

lemma publishes_refl [simp]: "publishes ok c c"
  by (simp add: publishes_def)

lemma publishes_trans: "publishes ok a b \<Longrightarrow> publishes ok b c \<Longrightarrow> publishes ok a c"
  unfolding publishes_def by (metis Un_iff append_assoc set_append)

lemma core_simps:
  "co_config (core c) = co_config c" "co_sequence_id (core c) = co_sequence_id c"
  "co_all_ready (core c) = co_all_ready c" "co_participant_status (core c) = co_participant_status c"
  "co_rounds (core c) = co_rounds c" "co_response_timers (core c) = co_response_timers c"
  "co_sync_timer (core c) = co_sync_timer c" "co_statistics_timer (core c) = co_statistics_timer c"
  by (simp_all add: core_def)

lemma core_fields:
  assumes "core c' = core c"
  shows "co_config c' = co_config c" "co_sequence_id c' = co_sequence_id c" "co_all_ready c' = co_all_ready c"
    "co_participant_status c' = co_participant_status c" "co_rounds c' = co_rounds c"
    "co_response_timers c' = co_response_timers c" "co_sync_timer c' = co_sync_timer c"
    "co_statistics_timer c' = co_statistics_timer c"
  using assms by (metis core_simps)+

definition is_event :: "CoordinatorMsg \<Rightarrow> bool" where
  "is_event m \<longleftrightarrow> (\<exists>e. m = EventMsg e)"

definition accounts :: "SyncStatistics \<Rightarrow> bool" where
  "accounts m \<longleftrightarrow> sst_actual_response_count m + sst_missing_response_count m = sst_expected_response_count m"

definition routine :: "CoordinatorMsg \<Rightarrow> bool" where
  "routine m = (case m of TriggerMsg _ \<Rightarrow> False | StatisticsMsg s \<Rightarrow> accounts s | EventMsg _ \<Rightarrow> True)"

lemma publishEvent_publishes: "publishes routine c (publishEvent env ty i sq text a b d c)"
  by (simp add: publishes_def publishEvent_def readClock_def emit_def core_def routine_def)

lemma publishEvent_log:
  "\<exists>st. co_log (publishEvent env ty i sq text a b d c) = co_log c @ [EventMsg \<lparr>sev_stamp = st, sev_event_type = ty,
     sev_participant_id = i, sev_sequence_id = sq, sev_message = text, sev_cycle_ms = a,
     sev_computation_ms = b, sev_threshold_ms = d\<rparr>]"
  by (simp add: publishEvent_def readClock_def emit_def)

lemma publishes_event_if:
  "publishes routine a c \<Longrightarrow>
   publishes routine a (if b then publishEvent env ty i sq text x y d c else c)"
  using publishes_trans [OF _ publishEvent_publishes] by simp

lemma ackEvents_publishes: "publishes routine c (ackEvents env msg cy late rec deg c)"
  unfolding ackEvents_def Let_def by (intro publishes_event_if publishes_refl)

section \<open>Invariant\<close>

abbreviation ids :: "SyncCoordinator \<Rightarrow> u32 list" where
  "ids c \<equiv> map fst (co_participant_status c)"

fun triggers :: "CoordinatorMsg list \<Rightarrow> SyncTrigger list" where
  "triggers [] = []"
| "triggers (TriggerMsg t # l) = t # triggers l"
| "triggers (StatisticsMsg s # l) = triggers l"
| "triggers (EventMsg e # l) = triggers l"

lemma triggers_append [simp]: "triggers (l @ l') = triggers l @ triggers l'"
  by (induction l rule: triggers.induct) simp_all

lemma triggers_routine: "\<forall>m \<in> set l. routine m \<Longrightarrow> triggers l = []"
  by (induction l rule: triggers.induct) (simp_all add: routine_def)

definition said_ready :: "u32 \<Rightarrow> CoordinatorMsg list \<Rightarrow> bool" where
  "said_ready i l \<longleftrightarrow> (\<exists>e. EventMsg e \<in> set l \<and> sev_event_type e = EVENT_READY \<and> sev_participant_id e = i)"

definition triggers_after_ready :: "u32 list \<Rightarrow> CoordinatorMsg list \<Rightarrow> bool" where
  "triggers_after_ready P l \<longleftrightarrow>
     (\<forall>pre t post. l = pre @ TriggerMsg t # post \<longrightarrow>
        trg_active_participant_ids t = P \<and> (\<forall>i \<in> set P. said_ready i pre))"

lemma triggers_after_ready_routine:
  assumes "triggers_after_ready P l" "\<forall>m \<in> set ms. routine m"
  shows "triggers_after_ready P (l @ ms)"
  unfolding triggers_after_ready_def
proof (intro allI impI)
  fix pre t post assume eq: "l @ ms = pre @ TriggerMsg t # post"
  then consider us where "l = pre @ us" "us @ ms = TriggerMsg t # post"
    | us where "pre = l @ us" "ms = us @ TriggerMsg t # post"
    by (auto simp: append_eq_append_conv2)
  then show "trg_active_participant_ids t = P \<and> (\<forall>i \<in> set P. said_ready i pre)"
  proof cases
    case 1
    with assms show ?thesis
      by (cases us) (auto simp: triggers_after_ready_def routine_def)
  next
    case 2
    with assms(2) show ?thesis by (auto simp: routine_def)
  qed
qed

lemma triggers_after_ready_trigger:
  assumes "triggers_after_ready P l" "trg_active_participant_ids t = P" "\<forall>i \<in> set P. said_ready i l"
  shows "triggers_after_ready P (l @ [TriggerMsg t])"
  unfolding triggers_after_ready_def
proof (intro allI impI)
  fix pre u post assume "l @ [TriggerMsg t] = pre @ TriggerMsg u # post"
  then consider "pre = l" "u = t" | post' where "l = pre @ TriggerMsg u # post'"
    by (cases post rule: rev_cases) auto
  then show "trg_active_participant_ids u = P \<and> (\<forall>i \<in> set P. said_ready i pre)"
    using assms by cases (auto simp: triggers_after_ready_def)
qed

definition round_ok :: "u32 list \<Rightarrow> RoundStatus \<Rightarrow> bool" where
  "round_ok P r \<longleftrightarrow>
     distinct (rs_pending r) \<and> distinct (rs_responded r) \<and> set (rs_pending r) \<inter> set (rs_responded r) = {} \<and>
     set (rs_pending r) \<union> set (rs_responded r) = set P"

definition coord_inv :: "SyncCoordinator \<Rightarrow> bool" where
  "coord_inv c \<longleftrightarrow>
     omap_wf (co_participant_status c) \<and> omap_wf (co_rounds c) \<and>
     (\<forall>x \<in> set (co_rounds c). round_ok (ids c) (snd x)) \<and>
     (co_all_ready c \<longrightarrow> (\<forall>x \<in> set (co_participant_status c). ps_ready (snd x))) \<and>
     (co_sync_timer c \<longrightarrow> co_all_ready c) \<and>
     (\<forall>x \<in> set (co_participant_status c). ps_ready (snd x) \<longrightarrow> said_ready (fst x) (co_log c)) \<and>
     triggers_after_ready (ids c) (co_log c) \<and>
     (\<forall>s. StatisticsMsg s \<in> set (co_log c) \<longrightarrow> accounts s) \<and>
     map trg_sequence_id (triggers (co_log c)) = map of_nat [1..<Suc (length (triggers (co_log c)))] \<and>
     co_sequence_id c = of_nat (length (triggers (co_log c)))"

lemma coord_invD:
  assumes "coord_inv c"
  shows "omap_wf (co_participant_status c)" "omap_wf (co_rounds c)"
    "x \<in> set (co_rounds c) \<Longrightarrow> round_ok (ids c) (snd x)"
    "co_sync_timer c \<Longrightarrow> y \<in> set (co_participant_status c) \<Longrightarrow> said_ready (fst y) (co_log c)"
    "triggers_after_ready (ids c) (co_log c)"
    "StatisticsMsg s \<in> set (co_log c) \<Longrightarrow> accounts s"
    "map trg_sequence_id (triggers (co_log c)) = map of_nat [1..<Suc (length (triggers (co_log c)))]"
    "co_sequence_id c = of_nat (length (triggers (co_log c)))"
  using assms unfolding coord_inv_def by blast+

lemma said_ready_append: "said_ready i l \<Longrightarrow> said_ready i (l @ ms)"
  by (auto simp: said_ready_def)

lemma coord_inv_publishes:
  assumes "coord_inv c" "publishes routine c c'"
  shows "coord_inv c'"
proof -
  obtain ms where ms: "co_log c' = co_log c @ ms" "\<forall>m \<in> set ms. routine m" and f: "core c' = core c"
    using assms(2) by (auto simp: publishes_def)
  have t: "triggers (co_log c @ ms) = triggers (co_log c)" using ms triggers_routine by simp
  have s: "StatisticsMsg s \<in> set (co_log c') \<Longrightarrow> accounts s" for s
    using ms coord_invD(6) [OF assms(1)] by (fastforce simp: routine_def)
  have r: "triggers_after_ready (ids c) (co_log c')"
    using triggers_after_ready_routine [OF coord_invD(5) [OF assms(1)] ms(2)] ms(1) by simp
  show ?thesis
    using assms(1) s r said_ready_append [of _ "co_log c" ms]
    unfolding coord_inv_def core_fields [OF f] ms(1) t by blast
qed

lemma latest_round_accounts:
  assumes "coord_inv c" "latestRound c = Some r"
  shows "length (rs_responded r) + length (rs_pending r) = length (co_participant_status c)"
proof -
  have "\<exists>x \<in> set (co_rounds c). r = snd x"
    using assms(2) last_in_set [of "co_rounds c"] by (force simp: latestRound_def split: if_splits)
  then have "round_ok (ids c) r" using coord_invD(3) [OF assms(1)] by blast
  moreover have "distinct (ids c)" using omap_wf_distinct coord_invD(1) [OF assms(1)] by blast
  ultimately have "card (set (rs_pending r)) + card (set (rs_responded r)) = card (set (ids c))"
    by (metis List.finite_set card_Un_disjoint round_ok_def)
  moreover have "card (set (ids c)) = length (co_participant_status c)"
    using distinct_card [OF \<open>distinct (ids c)\<close>] by simp
  ultimately show ?thesis using \<open>round_ok (ids c) r\<close> by (simp add: round_ok_def distinct_card)
qed

lemma publishStatistics_publishes:
  assumes "coord_inv c"
  shows "publishes routine c (publishStatistics env c)"
proof -
  have "(of_nat (length (rs_responded r)) + of_nat (length (rs_pending r)) :: u32) =
      of_nat (length (co_participant_status c))" if "latestRound c = Some r" for r
    using latest_round_accounts [OF assms that] by (metis of_nat_add)
  moreover have "latestRound (c\<lparr>co_clock_reads := n\<rparr>) = latestRound c" for n by (simp add: latestRound_def)
  ultimately show ?thesis
    by (auto simp: publishes_def publishStatistics_def readClock_def emit_def core_def routine_def accounts_def
        Let_def split: option.splits)
qed

lemma publishStatisticsIfCycleDue_publishes:
  "coord_inv c \<Longrightarrow> publishes routine c (publishStatisticsIfCycleDue env c)"
  by (simp add: publishStatisticsIfCycleDue_def Let_def publishStatistics_publishes)

end
