(* ===== verification/Coordinator_Invariant.thy ===== *)
theory Coordinator_Invariant
  imports Sync_Coordinator
begin

text \<open>
  The coordinator's invariant \<open>coord_inv\<close> holds in every state the node can reach, whatever messages
  arrive and in whatever order its timers fire. One lemma per primitive update of the state, one per
  callback, then induction over the steps.
\<close>

section \<open>Primitive updates\<close>

lemma coord_inv_participant:
  assumes "coord_inv c" and "omap_find (co_participant_status c) i = Some s"
    and "ps_ready s \<Longrightarrow> ps_ready s'" and "ps_ready s' \<Longrightarrow> said_ready i (co_log c)"
  shows "coord_inv (c\<lparr>co_participant_status := omap_assign i s' (co_participant_status c)\<rparr>)"
proof -
  let ?m = "co_participant_status c"
  have w: "omap_wf ?m" by (rule coord_invD(1) [OF assms(1)])
  have k: "map fst (omap_assign i s' ?m) = map fst ?m"
    by (rule omap_assign_keys [OF w]) (use assms(2) in blast)
  have x: "x \<in> set (omap_assign i s' ?m) \<Longrightarrow> x = (i, s') \<or> x \<in> set ?m" for x
    using set_omap_assign_iff [OF w] by blast
  have s: "(i, s) \<in> set ?m" using assms(2) by (rule map_of_SomeD)
  show ?thesis
    using assms(1) w k assms(3,4) s x unfolding coord_inv_def
    by (simp (no_asm_simp)) (metis fst_conv snd_conv)
qed

lemma coord_inv_rounds:
  assumes "coord_inv c" and "omap_wf m" and "\<And>x. x \<in> set m \<Longrightarrow> round_ok (ids c) (snd x)"
  shows "coord_inv (c\<lparr>co_rounds := m\<rparr>)"
  using assms unfolding coord_inv_def by simp

lemma coord_inv_round:
  assumes "coord_inv c" and "round_ok (ids c) r"
  shows "coord_inv (c\<lparr>co_rounds := omap_assign k r (co_rounds c)\<rparr>)"
proof (rule coord_inv_rounds [OF assms(1)])
  show "omap_wf (omap_assign k r (co_rounds c))" using coord_invD(2) [OF assms(1)] by simp
  fix x assume "x \<in> set (omap_assign k r (co_rounds c))"
  then have "x = (k, r) \<or> x \<in> set (co_rounds c)" using set_omap_assign by fastforce
  then show "round_ok (ids c) (snd x)" using assms(2) coord_invD(3) [OF assms(1)] by (metis snd_conv)
qed

lemma coord_inv_timers: "coord_inv (c\<lparr>co_response_timers := t\<rparr>) = coord_inv c"
  by (simp add: coord_inv_def)

lemma cleanupLoop_suffix: "\<exists>gone. m = gone @ cleanupLoop keep sq m"
  by (induction keep sq m rule: cleanupLoop.induct) (auto, metis append_Cons)

lemma coord_inv_cleanup:
  assumes "coord_inv c"
  shows "coord_inv (cleanupRounds c)"
proof -
  let ?m = "cleanupLoop (word_of_int (max (cc_stats_window_size (co_config c)) 10)) (co_sequence_id c) (co_rounds c)"
  obtain gone where m: "co_rounds c = gone @ ?m" using cleanupLoop_suffix by blast
  have "omap_wf ?m" using coord_invD(2) [OF assms] by (subst (asm) m) (rule omap_wf_suffix)
  moreover have "set ?m \<subseteq> set (co_rounds c)" by (subst (2) m) simp
  ultimately show ?thesis
    unfolding cleanupRounds_def Let_def using coord_inv_rounds [OF assms] coord_invD(3) [OF assms] by blast
qed

lemmas coord_inv_publishEvent = coord_inv_publishes [OF _ publishEvent_publishes]
lemmas coord_inv_ackEvents = coord_inv_publishes [OF _ ackEvents_publishes]

lemma coord_inv_statistics: "coord_inv c \<Longrightarrow> coord_inv (publishStatistics env c)"
  by (rule coord_inv_publishes [OF _ publishStatistics_publishes])

lemma coord_inv_statistics_due: "coord_inv c \<Longrightarrow> coord_inv (publishStatisticsIfCycleDue env c)"
  by (rule coord_inv_publishes [OF _ publishStatisticsIfCycleDue_publishes])

lemma coord_inv_readClock [simp]: "coord_inv (c\<lparr>co_clock_reads := n\<rparr>) = coord_inv c"
  by (simp add: coord_inv_def)

section \<open>Callbacks\<close>

lemma publishEvent_participants:
  "publishEvent env ty i sq text a b d (c\<lparr>co_participant_status := m\<rparr>) =
   (publishEvent env ty i sq text a b d c)\<lparr>co_participant_status := m\<rparr>"
  by (simp add: publishEvent_def readClock_def emit_def)

lemma publishEvent_ready: "said_ready i (co_log (publishEvent env EVENT_READY i sq text a b d c))"
proof -
  obtain st where l: "co_log (publishEvent env EVENT_READY i sq text a b d c) = co_log c @ [EventMsg
      \<lparr>sev_stamp = st, sev_event_type = EVENT_READY, sev_participant_id = i, sev_sequence_id = sq,
       sev_message = text, sev_cycle_ms = a, sev_computation_ms = b, sev_threshold_ms = d\<rparr>]"
    using publishEvent_log by blast
  show ?thesis unfolding said_ready_def l by (rule exI, rule conjI [OF in_set_conv_decomp [THEN iffD2]], rule exI) auto
qed

lemma coord_inv_ready:
  assumes "coord_inv c"
  shows "coord_inv (readyCallback env msg c)"
proof (cases "omap_find (co_participant_status c) (rdy_participant_id msg)")
  case None
  then show ?thesis using assms by (simp add: readyCallback_def coord_inv_publishEvent)
next
  case (Some s)
  let ?e = "publishEvent env EVENT_READY (rdy_participant_id msg) (co_sequence_id c) ''Participant is ready''
    (Fin 0) (Fin 0) (Fin 0) c"
  have f: "co_participant_status ?e = co_participant_status c"
    using publishEvent_publishes core_fields(4) unfolding publishes_def by blast
  have "coord_inv (?e\<lparr>co_participant_status := omap_assign (rdy_participant_id msg)
      (s\<lparr>ps_ready := True, ps_node_name := rdy_node_name msg, ps_last_response_time := rdy_ready_time msg\<rparr>)
      (co_participant_status ?e)\<rparr>)"
    by (rule coord_inv_participant [OF coord_inv_publishEvent [OF assms]])
      (simp_all add: f Some publishEvent_ready)
  then show ?thesis
    using Some assms by (simp add: readyCallback_def f Let_def publishEvent_participants coord_inv_statistics)
qed

lemma distinct_sset_insert: "distinct xs \<Longrightarrow> distinct (sset_insert x xs)"
  by (simp add: sset_insert_def distinct_insort)

lemma set_sset_insert [simp]: "set (sset_insert x xs) = insert x (set xs)"
  by (auto simp: sset_insert_def set_insort_key)

lemma round_ok_ack:
  assumes "round_ok P r" and "ack_participant_id msg \<in> set P"
  shows "round_ok P (snd (ackRound env msg t r))"
  using assms by (auto simp: ackRound_def Let_def round_ok_def sset_erase_def distinct_sset_insert)

lemma ready_setStatus [simp]: "ps_ready (setStatus st s) = ps_ready s"
  by (simp add: setStatus_def)

lemma ready_ackStatus: "ps_ready (snd (ackStatus cfg msg cy t s)) = ps_ready s"
  by (simp add: ackStatus_def Let_def recordFailure_def recordSample_def recordHealthyAck_def)

lemma ready_missedStatus: "ps_ready (missedStatus cfg s) = ps_ready s"
  by (simp add: missedStatus_def Let_def)

lemma coord_inv_same_ready:
  assumes "coord_inv c" and "omap_find (co_participant_status c) i = Some s" and "ps_ready s' = ps_ready s"
  shows "coord_inv (c\<lparr>co_participant_status := omap_assign i s' (co_participant_status c)\<rparr>)"
proof (rule coord_inv_participant [OF assms(1,2)])
  have "ps_ready s \<Longrightarrow> said_ready i (co_log c)"
    using assms(1) map_of_SomeD [OF assms(2)] unfolding coord_inv_def by fastforce
  then show "ps_ready s' \<Longrightarrow> said_ready i (co_log c)" by (simp add: assms(3))
qed (simp add: assms(3))

text \<open>The state of \<^verbatim>\<open>syncAckCallback\<close> after the round was updated, and after the participant was.\<close>

definition ackRounds :: "RosEnv \<Rightarrow> SyncAck \<Rightarrow> SyncCoordinator \<Rightarrow> bool \<times> (u64, RoundStatus) omap" where
  "ackRounds env msg c =
     (case omap_find (co_rounds c) (ack_sequence_id msg) of
        None \<Rightarrow> (False, co_rounds c)
      | Some rnd \<Rightarrow> map_prod id (\<lambda>r. omap_assign (ack_sequence_id msg) r (co_rounds c))
          (ackRound env msg (ros_now env (co_clock_reads c)) rnd))"

definition ackedStatus :: "RosEnv \<Rightarrow> SyncAck \<Rightarrow> SyncCoordinator \<Rightarrow> ParticipantStatus \<Rightarrow> bool \<times> ParticipantStatus" where
  "ackedStatus env msg c s =
     ackStatus (co_config c) msg (ackCycleMs env msg) (ros_now env (co_clock_reads c + 1)) s"

definition acked :: "RosEnv \<Rightarrow> SyncAck \<Rightarrow> ParticipantStatus \<Rightarrow> SyncCoordinator \<Rightarrow> SyncCoordinator" where
  "acked env msg s c =
     c\<lparr>co_rounds := snd (ackRounds env msg c), co_clock_reads := co_clock_reads c + 2,
       co_participant_status := omap_assign (ack_participant_id msg) (snd (ackedStatus env msg c s))
         (co_participant_status c)\<rparr>"

lemma syncAckCallback_acked:
  assumes "omap_find (co_participant_status c) (ack_participant_id msg) = Some s"
  shows "\<exists>deg. syncAckCallback env msg c =
    cleanupRounds (publishStatisticsIfCycleDue env
      (ackEvents env msg (ackCycleMs env msg) (fst (ackRounds env msg c)) (fst (ackedStatus env msg c s)) deg
        (acked env msg s c)))"
  using assms
  by (simp add: syncAckCallback_def readClock_def acked_def ackRounds_def ackedStatus_def Let_def map_prod_def
      split: option.split prod.splits) blast

lemma coord_inv_acked:
  assumes "coord_inv c" and "omap_find (co_participant_status c) (ack_participant_id msg) = Some s"
  shows "coord_inv (acked env msg s c)"
proof -
  let ?c = "c\<lparr>co_rounds := snd (ackRounds env msg c)\<rparr>"
  have i: "ack_participant_id msg \<in> set (ids c)" using map_of_SomeD [OF assms(2)] by force
  have "coord_inv ?c"
  proof (cases "omap_find (co_rounds c) (ack_sequence_id msg)")
    case None
    then show ?thesis using assms(1) by (simp add: ackRounds_def)
  next
    case (Some r)
    then have "round_ok (ids c) r" using coord_invD(3) [OF assms(1)] map_of_SomeD by force
    from coord_inv_round [OF assms(1) round_ok_ack [OF this i]] Some show ?thesis
      by (simp add: ackRounds_def)
  qed
  from coord_inv_same_ready [OF this, of "ack_participant_id msg" s "snd (ackedStatus env msg c s)"] assms(2)
  have "coord_inv ((acked env msg s c)\<lparr>co_clock_reads := co_clock_reads c\<rparr>)"
    by (simp add: acked_def ackedStatus_def ready_ackStatus)
  then show ?thesis by simp
qed

lemma coord_inv_ack:
  assumes "coord_inv c"
  shows "coord_inv (syncAckCallback env msg c)"
proof (cases "omap_find (co_participant_status c) (ack_participant_id msg)")
  case None
  then show ?thesis using assms by (simp add: syncAckCallback_def coord_inv_publishEvent)
next
  case (Some s)
  from syncAckCallback_acked [OF Some] coord_inv_acked [OF assms Some] show ?thesis
    by (metis coord_inv_cleanup coord_inv_statistics_due coord_inv_ackEvents)
qed

lemma coord_inv_trigger:
  assumes "coord_inv c" and "co_sync_timer c" and "trg_sequence_id t = co_sequence_id c + 1"
    and "trg_active_participant_ids t = ids c"
  shows "coord_inv (c\<lparr>co_sequence_id := co_sequence_id c + 1, co_log := co_log c @ [TriggerMsg t]\<rparr>)"
proof -
  have "\<forall>i \<in> set (ids c). said_ready i (co_log c)" using coord_invD(4) [OF assms(1,2)] by auto
  from triggers_after_ready_trigger [OF coord_invD(5) [OF assms(1)] assms(4) this]
  have t: "triggers_after_ready (ids c) (co_log c @ [TriggerMsg t])" .
  have q: "co_sequence_id c + 1 = of_nat (Suc (length (triggers (co_log c))))"
    using coord_invD(8) [OF assms(1)] by simp
  have n: "triggers (co_log c @ [TriggerMsg t]) = triggers (co_log c) @ [t]"
    "length (triggers (co_log c @ [TriggerMsg t])) = Suc (length (triggers (co_log c)))" by simp_all
  have m: "map trg_sequence_id (triggers (co_log c @ [TriggerMsg t])) =
      map of_nat [1..<Suc (length (triggers (co_log c @ [TriggerMsg t])))]"
    using coord_invD(7) [OF assms(1)] unfolding n by (simp add: assms(3) q)
  have s: "(StatisticsMsg s \<in> set (co_log c @ [TriggerMsg t])) = (StatisticsMsg s \<in> set (co_log c))" for s
    by simp
  let ?d = "c\<lparr>co_sequence_id := co_sequence_id c + 1, co_log := co_log c @ [TriggerMsg t]\<rparr>"
  have f: "co_participant_status ?d = co_participant_status c" "co_rounds ?d = co_rounds c"
    "co_all_ready ?d = co_all_ready c" "co_sync_timer ?d = co_sync_timer c"
    "co_log ?d = co_log c @ [TriggerMsg t]"
    "co_sequence_id ?d = of_nat (Suc (length (triggers (co_log c))))"
    by (simp_all add: q)
  show ?thesis
    using assms(1) t m said_ready_append [of _ "co_log c" "[TriggerMsg t]"]
    unfolding coord_inv_def f s n(2) by blast
qed

lemma foldl_sset_insert:
  "distinct acc \<Longrightarrow> distinct (foldl (\<lambda>p i. sset_insert i p) acc is) \<and>
     set (foldl (\<lambda>p i. sset_insert i p) acc is) = set acc \<union> set is"
  by (induction "is" arbitrary: acc) (simp_all add: distinct_sset_insert)

definition newRound :: "RosEnv \<Rightarrow> SyncCoordinator \<Rightarrow> RoundStatus" where
  "newRound env c =
     \<lparr>rs_trigger_time = ros_now env (co_clock_reads c), rs_pending = foldl (\<lambda>p i. sset_insert i p) [] (ids c),
      rs_responded = [], rs_round_finish_ms = Fin 0, rs_straggler_participant_id = 0, rs_monitor_checked = False\<rparr>"

definition triggered :: "RosEnv \<Rightarrow> SyncCoordinator \<Rightarrow> SyncCoordinator" where
  "triggered env c =
     c\<lparr>co_sequence_id := co_sequence_id c + 1, co_clock_reads := co_clock_reads c + 1,
       co_rounds := omap_assign (co_sequence_id c + 1) (newRound env c) (co_rounds c),
       co_log := co_log c @ [TriggerMsg \<lparr>trg_sequence_id = co_sequence_id c + 1,
         trg_trigger_time = ros_now env (co_clock_reads c), trg_active_participant_ids = ids c\<rparr>],
       co_response_timers := sset_insert (co_sequence_id c + 1) (co_response_timers c)\<rparr>"

lemma syncTimerCallback_triggered:
  "syncTimerCallback env c = cleanupRounds (publishStatisticsIfCycleDue env (triggered env c))"
  by (simp add: syncTimerCallback_def triggered_def newRound_def readClock_def emit_def Let_def)

lemma coord_inv_triggered:
  assumes "coord_inv c" and "co_sync_timer c"
  shows "coord_inv (triggered env c)"
proof -
  let ?r = "newRound env c"
  let ?c = "c\<lparr>co_rounds := omap_assign (co_sequence_id c + 1) ?r (co_rounds c)\<rparr>"
  let ?t = "\<lparr>trg_sequence_id = co_sequence_id c + 1, trg_trigger_time = ros_now env (co_clock_reads c),
    trg_active_participant_ids = ids c\<rparr>"
  have "round_ok (ids c) ?r"
    using foldl_sset_insert [of "[]" "ids c"] by (simp add: round_ok_def newRound_def)
  then have "coord_inv ?c" by (rule coord_inv_round [OF assms(1)])
  then have "coord_inv (?c\<lparr>co_sequence_id := co_sequence_id c + 1, co_log := co_log c @ [TriggerMsg ?t]\<rparr>)"
    using coord_inv_trigger [of ?c ?t] assms(2) by simp
  then have "coord_inv (?c\<lparr>co_sequence_id := co_sequence_id c + 1, co_log := co_log c @ [TriggerMsg ?t],
      co_response_timers := sset_insert (co_sequence_id c + 1) (co_response_timers c),
      co_clock_reads := co_clock_reads c + 1\<rparr>)"
    by (simp only: coord_inv_readClock coord_inv_timers)
  moreover have "triggered env c = ?c\<lparr>co_sequence_id := co_sequence_id c + 1,
      co_log := co_log c @ [TriggerMsg ?t],
      co_response_timers := sset_insert (co_sequence_id c + 1) (co_response_timers c),
      co_clock_reads := co_clock_reads c + 1\<rparr>"
    by (simp add: triggered_def)
  ultimately show ?thesis by (simp only:)
qed

lemma coord_inv_sync: "coord_inv c \<Longrightarrow> co_sync_timer c \<Longrightarrow> coord_inv (syncTimerCallback env c)"
  by (simp only: syncTimerCallback_triggered coord_inv_cleanup coord_inv_statistics_due coord_inv_triggered)

lemma publishes_participants: "publishes ok c c' \<Longrightarrow> co_participant_status c' = co_participant_status c"
  using core_fields(4) unfolding publishes_def by blast

lemma checkOne_known:
  assumes "omap_find (co_participant_status c) i = Some s"
  shows "publishes routine
    (c\<lparr>co_participant_status := omap_assign i (missedStatus (co_config c) s) (co_participant_status c)\<rparr>)
    (checkOne env sq c i)"
  using assms unfolding checkOne_def Let_def
  by (simp add: omap_ref_def split_beta publishEvent_publishes publishes_trans [OF publishEvent_publishes publishEvent_publishes])

lemma coord_inv_checkOne:
  assumes "coord_inv c" and "i \<in> set (ids c)"
  shows "coord_inv (checkOne env sq c i)" "ids (checkOne env sq c i) = ids c"
proof -
  have w: "omap_wf (co_participant_status c)" by (rule coord_invD(1) [OF assms(1)])
  obtain s where s: "omap_find (co_participant_status c) i = Some s"
    using assms(2) by (metis map_of_eq_None_iff not_None_eq image_set)
  note p = checkOne_known [OF s, of env sq]
  show "coord_inv (checkOne env sq c i)"
    using coord_inv_publishes [OF coord_inv_same_ready [OF assms(1) s ready_missedStatus] p] .
  show "ids (checkOne env sq c i) = ids c"
    using publishes_participants [OF p] omap_assign_keys [OF w, of i] s by auto
qed

lemma coord_inv_checkAll:
  "coord_inv c \<Longrightarrow> set is \<subseteq> set (ids c) \<Longrightarrow> coord_inv (foldl (checkOne env sq) c is)"
proof (induction "is" arbitrary: c)
  case (Cons i "is")
  note i = coord_inv_checkOne [OF Cons.prems(1), of i env sq]
  have "set is \<subseteq> set (ids c)" "i \<in> set (ids c)" using Cons.prems(2) by simp_all
  then show ?case using Cons.IH [of "checkOne env sq c i"] i by (simp only: foldl_Cons)
qed simp

lemma coord_inv_checkResponses:
  assumes "coord_inv c"
  shows "coord_inv (checkResponses env sq c)"
proof (cases "omap_find (co_rounds c) sq")
  case None
  then show ?thesis
    using assms by (simp add: checkResponses_def coord_inv_cleanup coord_inv_statistics coord_inv_timers)
next
  case (Some r)
  then have r: "round_ok (ids c) r" using coord_invD(3) [OF assms] map_of_SomeD by force
  then have "round_ok (ids c) (r\<lparr>rs_monitor_checked := True\<rparr>)" by (simp add: round_ok_def)
  then have "coord_inv (foldl (checkOne env sq)
      (c\<lparr>co_rounds := omap_assign sq (r\<lparr>rs_monitor_checked := True\<rparr>) (co_rounds c)\<rparr>) (rs_pending r))"
    using r by (intro coord_inv_checkAll coord_inv_round [OF assms]) (auto simp: round_ok_def)
  with Some show ?thesis
    by (simp add: checkResponses_def Let_def coord_inv_cleanup coord_inv_statistics coord_inv_timers)
qed

lemma coord_inv_spin:
  assumes "coord_inv c"
  shows "coord_inv (spinCheck env c)"
proof (cases "\<not> co_all_ready c \<and> checkAllReady c")
  case True
  then have "coord_inv (c\<lparr>co_all_ready := True\<rparr>)"
    using assms unfolding coord_inv_def checkAllReady_def list_all_iff by simp
  then have d: "coord_inv (publishStatistics env (publishEvent env EVENT_ALL_READY 0 (co_sequence_id c)
      ''All participants are ready'' (Fin 0) (Fin 0) (Fin 0) (c\<lparr>co_all_ready := True\<rparr>)))" (is "coord_inv ?d")
    by (intro coord_inv_statistics coord_inv_publishEvent)
  have "co_all_ready ?d"
    by (simp add: publishStatistics_def publishEvent_def readClock_def emit_def Let_def split_beta)
  with d have "coord_inv (startSyncTimer ?d)" unfolding coord_inv_def startSyncTimer_def by simp
  with True show ?thesis by (simp add: spinCheck_def Let_def)
next
  case False
  then show ?thesis using assms unfolding spinCheck_def if_not_P [OF False] by simp
qed

section \<open>Every reachable state\<close>

lemma addParticipants_props:
  "omap_wf m \<Longrightarrow> \<forall>x \<in> set m. snd x = ParticipantStatus_default \<Longrightarrow>
   omap_wf (addParticipants first k n m) \<and>
   (\<forall>x \<in> set (addParticipants first k n m). snd x = ParticipantStatus_default)"
proof (induction first k n m rule: addParticipants.induct)
  case (2 first offset n m)
  have "\<forall>x \<in> set (omap_assign (word_of_int (first + int offset)) ParticipantStatus_default m).
      snd x = ParticipantStatus_default"
    using 2(3) set_omap_assign by fastforce
  with 2 show ?case by simp
qed simp

lemma coord_inv_new: "coord_inv (SyncCoordinator_new p)"
  using addParticipants_props [of "[]"]
  by (auto simp: SyncCoordinator_new_def Let_def coord_inv_def triggers_after_ready_def
      ParticipantStatus_default_def)

interpretation co: preserved "\<lambda>c. c = SyncCoordinator_new p" "coordinator_step env" coord_inv for p env
proof
  show "coord_inv c" if "c = SyncCoordinator_new p" for c using that coord_inv_new by simp
  show "coord_inv c'" if "coord_inv c" "coordinator_step env c c'" for c c'
    using that(2,1)
    by cases (simp_all add: coord_inv_ready coord_inv_ack coord_inv_sync coord_inv_checkResponses
        statisticsTimerCallback_def coord_inv_statistics coord_inv_spin)
qed

lemma coordinator_reach_iff:
  "coordinator_reach env p c \<longleftrightarrow> (coordinator_step env)\<^sup>*\<^sup>* (SyncCoordinator_new p) c"
proof
  show "(coordinator_step env)\<^sup>*\<^sup>* (SyncCoordinator_new p) c" if "coordinator_reach env p c"
    using that by induction auto
  show "coordinator_reach env p c" if "(coordinator_step env)\<^sup>*\<^sup>* (SyncCoordinator_new p) c"
    using that by induction (auto intro: coordinator_reach.intros)
qed

lemma coordinator_reach_inv: "coordinator_reach env p c \<Longrightarrow> coord_inv c"
  unfolding coordinator_reach_iff by (rule co.holds [OF refl])

end
