(* ===== verification/Coordinator_Properties.thy ===== *)
theory Coordinator_Properties
  imports Coordinator_Invariant
begin

text \<open>
  What the coordinator guarantees: when it triggers rounds, that its statistics add up, how many rounds
  it remembers, and how a participant's status gets worse and better.
\<close>

section \<open>What a step leaves alone\<close>

lemma publishStatistics_core: "core (publishStatistics env c) = core c"
  by (simp add: publishStatistics_def readClock_def emit_def core_def Let_def split_beta)

lemma publishStatisticsIfCycleDue_core: "core (publishStatisticsIfCycleDue env c) = core c"
  by (simp add: publishStatisticsIfCycleDue_def publishStatistics_core Let_def)

lemma publishes_core: "publishes ok c c' \<Longrightarrow> core c' = core c"
  by (simp add: publishes_def)

lemmas publishEvent_core = publishes_core [OF publishEvent_publishes]
lemmas ackEvents_core = publishes_core [OF ackEvents_publishes]
lemmas publish_frame [simp] =
  core_fields [OF publishStatistics_core] core_fields [OF publishStatisticsIfCycleDue_core]
  core_fields [OF publishEvent_core] core_fields [OF ackEvents_core]

lemma cleanup_frame [simp]:
  "co_config (cleanupRounds c) = co_config c" "co_participant_status (cleanupRounds c) = co_participant_status c"
  "co_log (cleanupRounds c) = co_log c" "co_sequence_id (cleanupRounds c) = co_sequence_id c"
  "co_sync_timer (cleanupRounds c) = co_sync_timer c"
  "co_response_timers (cleanupRounds c) = co_response_timers c"
  by (simp_all add: cleanupRounds_def Let_def)

lemma checkOne_frame [simp]:
  "co_config (checkOne env sq c i) = co_config c" "co_rounds (checkOne env sq c i) = co_rounds c"
  by (simp_all add: checkOne_def Let_def split_beta)

lemma checkAll_frame [simp]:
  "co_config (foldl (checkOne env sq) c is) = co_config c"
  "co_rounds (foldl (checkOne env sq) c is) = co_rounds c"
  by (induction "is" arbitrary: c) simp_all

lemma config_ack [simp]: "co_config (syncAckCallback env msg c) = co_config c"
proof (cases "omap_find (co_participant_status c) (ack_participant_id msg)")
  case (Some s)
  from syncAckCallback_acked [OF this, of env] show ?thesis by (auto simp: acked_def)
qed (simp add: syncAckCallback_def)

lemma step_config: "coordinator_step env c c' \<Longrightarrow> co_config c' = co_config c"
  by (erule coordinator_stepE)
    (simp_all add: readyCallback_def syncTimerCallback_triggered triggered_def checkResponses_def
      statisticsTimerCallback_def spinCheck_def startSyncTimer_def Let_def split: option.split)

lemma reach_config: "coordinator_reach env p c \<Longrightarrow> co_config c = readParams p"
  by (induction rule: coordinator_reach.induct) (simp_all add: SyncCoordinator_new_def Let_def step_config)

section \<open>Rounds are triggered only once everybody is ready\<close>

lemma trigger_numbering:
  assumes "map trg_sequence_id (triggers l) = map of_nat [1..<Suc (length (triggers l))]"
    and "l = pre @ TriggerMsg t # post"
  shows "trg_sequence_id t = of_nat (Suc (length (triggers pre)))"
proof -
  let ?n = "length (triggers pre)"
  have n: "?n < length (triggers l)" "triggers l ! ?n = t" by (simp_all add: assms(2) nth_append)
  have "map trg_sequence_id (triggers l) ! ?n = trg_sequence_id t" using n by simp
  moreover have "map of_nat [1..<Suc (length (triggers l))] ! ?n = (of_nat (Suc ?n) :: u64)"
    using n(1) by (simp add: nth_append del: upt_Suc)
  ultimately show ?thesis using assms(1) by metis
qed

text \<open>
  C5. Coordinated start. In every state the coordinator can reach, each trigger it has published was
  published only after the READY event of every participant, addresses exactly the configured
  participants, and carries the next round number: 1, 2, 3, and so on (modulo 2^64).
\<close>
theorem trigger_only_after_all_ready:
  assumes "coordinator_reach env p c" and "co_log c = pre @ TriggerMsg t # post"
  shows "trg_active_participant_ids t = map fst (co_participant_status c) \<and>
    (\<forall>i \<in> set (trg_active_participant_ids t). said_ready i pre) \<and>
    trg_sequence_id t = of_nat (Suc (length (triggers pre)))"
proof -
  note inv = coordinator_reach_inv [OF assms(1)]
  have "trg_active_participant_ids t = ids c \<and> (\<forall>i \<in> set (ids c). said_ready i pre)"
    using coord_invD(5) [OF inv] assms(2) unfolding triggers_after_ready_def by blast
  with trigger_numbering [OF coord_invD(7) [OF inv] assms(2)] show ?thesis by simp
qed

text \<open>
  C29. The statistics add up: in every statistics message the coordinator ever publishes, the number of
  responses received and the number missing sum to the number expected.
\<close>
theorem statistics_account_for_everyone:
  assumes "coordinator_reach env p c" and "StatisticsMsg s \<in> set (co_log c)"
  shows "sst_actual_response_count s + sst_missing_response_count s = sst_expected_response_count s"
  using coord_invD(6) [OF coordinator_reach_inv [OF assms(1)] assms(2)] by (simp add: accounts_def)

section \<open>The number of remembered rounds\<close>

definition keep_rounds :: "CoordinatorConfig \<Rightarrow> nat" where
  "keep_rounds cfg = unat (word_of_int (max (cc_stats_window_size cfg) 10) :: u64)"

abbreviation rounds_started :: "SyncCoordinator \<Rightarrow> nat" where
  "rounds_started c \<equiv> length (triggers (co_log c))"

definition rounds_within :: "nat \<Rightarrow> SyncCoordinator \<Rightarrow> bool" where
  "rounds_within extra c \<longleftrightarrow>
     (rounds_started c + keep_rounds (co_config c) < 2 ^ 64 \<longrightarrow>
       (\<forall>x \<in> set (co_rounds c). unat (fst x) \<le> rounds_started c \<and>
          rounds_started c \<le> unat (fst x) + keep_rounds (co_config c) + extra))"

lemma cleanupLoop_keeps:
  assumes "sorted_wrt (<) (map fst m)" and "\<And>x. x \<in> set m \<Longrightarrow> unat (fst x) + unat keep < 2 ^ 64"
    and "x \<in> set (cleanupLoop keep sq m)"
  shows "x \<in> set m \<and> unat sq \<le> unat (fst x) + unat keep"
  using assms
proof (induction keep sq m rule: cleanupLoop.induct)
  case (2 keep sq r rs)
  have u: "unat (fst y + keep) = unat (fst y) + unat keep" if "y \<in> set (r # rs)" for y
    using "2.prems"(2) [OF that] by (simp add: unat_add_u64)
  show ?case
  proof (cases "fst r + keep < sq")
    case True
    with 2 show ?thesis by simp
  next
    case False
    then have "unat sq \<le> unat (fst r) + unat keep" using u by (simp add: word_less_nat_alt)
    moreover have "unat (fst r) \<le> unat (fst x)" if "x \<in> set rs"
      using "2.prems"(1) that by (auto simp: word_less_nat_alt less_imp_le)
    ultimately show ?thesis using "2.prems"(3) False by fastforce
  qed
qed simp

lemma rounds_within_cleanup:
  assumes "coord_inv c" and "rounds_within extra c"
  shows "rounds_within 0 (cleanupRounds c)"
  unfolding rounds_within_def
proof (intro impI ballI)
  fix x
  let ?k = "word_of_int (max (cc_stats_window_size (co_config c)) 10) :: u64"
  assume "rounds_started (cleanupRounds c) + keep_rounds (co_config (cleanupRounds c)) < 2 ^ 64"
  then have b: "rounds_started c + keep_rounds (co_config c) < 2 ^ 64" by simp
  then have sq: "unat (co_sequence_id c) = rounds_started c"
    using coord_invD(8) [OF assms(1)] by (simp add: unat_of_nat)
  have le: "y \<in> set (co_rounds c) \<Longrightarrow> unat (fst y) \<le> rounds_started c" for y
    using assms(2) b by (simp add: rounds_within_def)
  assume "x \<in> set (co_rounds (cleanupRounds c))"
  then have "x \<in> set (cleanupLoop ?k (co_sequence_id c) (co_rounds c))" by (simp add: cleanupRounds_def Let_def)
  from cleanupLoop_keeps [OF _ _ this] coord_invD(2) [OF assms(1)] le b
  have "x \<in> set (co_rounds c) \<and> unat (co_sequence_id c) \<le> unat (fst x) + unat ?k"
    by (fastforce simp: omap_wf_def keep_rounds_def)
  then show "unat (fst x) \<le> rounds_started (cleanupRounds c) \<and>
      rounds_started (cleanupRounds c) \<le> unat (fst x) + keep_rounds (co_config (cleanupRounds c)) + 0"
    using le sq by (simp add: keep_rounds_def)
qed

lemma triggers_publish [simp]:
  "triggers (co_log (publishStatistics env c)) = triggers (co_log c)"
  "triggers (co_log (publishStatisticsIfCycleDue env c)) = triggers (co_log c)"
  "triggers (co_log (publishEvent env ty i sq text a b d c)) = triggers (co_log c)"
  by (simp_all add: publishStatisticsIfCycleDue_def publishStatistics_def publishEvent_def readClock_def emit_def
      Let_def split_beta)

lemma triggers_ackEvents [simp]: "triggers (co_log (ackEvents env msg cy late rec deg c)) = triggers (co_log c)"
  using ackEvents_publishes triggers_routine unfolding publishes_def by (metis append_Nil2 triggers_append)

lemma triggers_checkAll [simp]: "triggers (co_log (foldl (checkOne env sq) c is)) = triggers (co_log c)"
proof (induction "is" arbitrary: c)
  case (Cons i "is")
  have "triggers (co_log (checkOne env sq c i)) = triggers (co_log c)"
    by (simp add: checkOne_def Let_def split_beta)
  with Cons show ?case by simp
qed simp

lemma rounds_within_cong:
  assumes "co_config c' = co_config c" and "fst ` set (co_rounds c') \<subseteq> fst ` set (co_rounds c)"
    and "triggers (co_log c') = triggers (co_log c)" and "rounds_within extra c"
  shows "rounds_within extra c'"
proof -
  have "\<exists>y \<in> set (co_rounds c). fst x = fst y" if "x \<in> set (co_rounds c')" for x using assms(2) that by blast
  then show ?thesis using assms(4) unfolding rounds_within_def assms(1,3) by fastforce
qed

lemma keys_omap_assign: "k \<in> fst ` set m \<Longrightarrow> fst ` set (omap_assign k v m) \<subseteq> fst ` set m"
  using set_omap_assign [of k v m] by force

lemma rounds_within_ack:
  assumes "coord_inv c" and "rounds_within 0 c"
  shows "rounds_within 0 (syncAckCallback env msg c)"
proof (cases "omap_find (co_participant_status c) (ack_participant_id msg)")
  case None
  then have "syncAckCallback env msg c = publishEvent env EVENT_UNKNOWN_PARTICIPANT (ack_participant_id msg)
      (ack_sequence_id msg) ''Ignoring ack from unexpected participant'' (Fin 0) (ack_computation_ms msg) (Fin 0) c"
    by (simp add: syncAckCallback_def)
  then show ?thesis by (simp add: rounds_within_cong [OF _ _ _ assms(2)])
next
  case (Some s)
  obtain d where a: "syncAckCallback env msg c = cleanupRounds d" and i: "coord_inv d"
    and d: "co_config d = co_config (acked env msg s c)" "co_rounds d = co_rounds (acked env msg s c)"
      "triggers (co_log d) = triggers (co_log (acked env msg s c))"
    using syncAckCallback_acked [OF Some, of env] coord_inv_acked [OF assms(1) Some]
    by (metis publish_frame(9,13,25,29) triggers_publish(2) triggers_ackEvents coord_inv_statistics_due coord_inv_ackEvents)
  have "fst ` set (snd (ackRounds env msg c)) \<subseteq> fst ` set (co_rounds c)"
  proof (cases "omap_find (co_rounds c) (ack_sequence_id msg)")
    case (Some r)
    then have "ack_sequence_id msg \<in> fst ` set (co_rounds c)"
      using map_of_SomeD by force
    with Some show ?thesis by (simp add: ackRounds_def keys_omap_assign)
  qed (simp add: ackRounds_def)
  then have "rounds_within 0 d" using d by (intro rounds_within_cong [OF _ _ _ assms(2)]) (simp_all add: acked_def)
  then show ?thesis unfolding a by (rule rounds_within_cleanup [OF i])
qed

lemma rounds_within_triggered:
  assumes "coord_inv c" and "rounds_within 0 c"
  shows "rounds_within 1 (triggered env c)"
  unfolding rounds_within_def
proof (intro impI ballI)
  fix x
  have n: "rounds_started (triggered env c) = Suc (rounds_started c)" by (simp add: triggered_def)
  assume "rounds_started (triggered env c) + keep_rounds (co_config (triggered env c)) < 2 ^ 64"
  then have b: "Suc (rounds_started c) + keep_rounds (co_config c) < 2 ^ 64"
    by (simp add: triggered_def)
  then have sq: "unat (co_sequence_id c + 1) = Suc (rounds_started c)"
    using coord_invD(8) [OF assms(1)] by (simp add: unat_word_ariths unat_of_nat)
  assume "x \<in> set (co_rounds (triggered env c))"
  then have "x \<in> insert (co_sequence_id c + 1, newRound env c) (set (co_rounds c))"
    using set_omap_assign [of "co_sequence_id c + 1" "newRound env c" "co_rounds c"]
    by (auto simp: triggered_def)
  then consider "fst x = co_sequence_id c + 1" | "x \<in> set (co_rounds c)" by auto
  then show "unat (fst x) \<le> rounds_started (triggered env c) \<and>
      rounds_started (triggered env c) \<le> unat (fst x) + keep_rounds (co_config (triggered env c)) + 1"
    using assms(2) b sq n by cases (auto simp: rounds_within_def triggered_def)
qed

lemma rounds_within_checkResponses:
  assumes "coord_inv c" and "rounds_within 0 c"
  shows "rounds_within 0 (checkResponses env sq c)"
proof -
  obtain d where r: "checkResponses env sq c = cleanupRounds (publishStatistics env d)" and i: "coord_inv d"
    and d: "rounds_within 0 d"
  proof (cases "omap_find (co_rounds c) sq")
    case None
    show ?thesis
    proof (rule that)
      show "checkResponses env sq c =
          cleanupRounds (publishStatistics env (c\<lparr>co_response_timers := sset_erase sq (co_response_timers c)\<rparr>))"
        using None by (simp add: checkResponses_def)
    qed (use assms in \<open>simp_all add: coord_inv_timers rounds_within_def\<close>)
  next
    case (Some r)
    let ?c = "c\<lparr>co_rounds := omap_assign sq (r\<lparr>rs_monitor_checked := True\<rparr>) (co_rounds c)\<rparr>"
    let ?d = "foldl (checkOne env sq) ?c (rs_pending r)"
    have k: "sq \<in> fst ` set (co_rounds c)" using map_of_SomeD [OF Some] by force
    have r: "round_ok (ids c) r" using coord_invD(3) [OF assms(1) map_of_SomeD [OF Some]] by simp
    show ?thesis
    proof (rule that)
      show "checkResponses env sq c = cleanupRounds (publishStatistics env
          (?d\<lparr>co_response_timers := sset_erase sq (co_response_timers ?d)\<rparr>))"
        using Some by (simp add: checkResponses_def Let_def)
      have "coord_inv ?d"
        using r by (intro coord_inv_checkAll coord_inv_round [OF assms(1)]) (auto simp: round_ok_def)
      then show "coord_inv (?d\<lparr>co_response_timers := sset_erase sq (co_response_timers ?d)\<rparr>)"
        by (simp add: coord_inv_timers)
      show "rounds_within 0 (?d\<lparr>co_response_timers := sset_erase sq (co_response_timers ?d)\<rparr>)"
        by (rule rounds_within_cong [OF _ _ _ assms(2)]) (simp_all add: keys_omap_assign [OF k])
    qed
  qed
  have "rounds_within 0 (publishStatistics env d)" by (rule rounds_within_cong [OF _ _ _ d]) simp_all
  then show ?thesis unfolding r by (rule rounds_within_cleanup [OF coord_inv_statistics [OF i]])
qed

lemma rounds_within_step:
  assumes "coord_inv c" and "rounds_within 0 c" and "coordinator_step env c c'"
  shows "rounds_within 0 c'"
  using assms(3)
proof cases
  case (step_ready msg)
  then show ?thesis
    by (intro rounds_within_cong [OF _ _ _ assms(2)])
      (simp_all add: readyCallback_def Let_def split: option.split)
next
  case step_sync
  have "rounds_within 1 (publishStatisticsIfCycleDue env (triggered env c))"
    by (rule rounds_within_cong [OF _ _ _ rounds_within_triggered [OF assms(1,2)]]) simp_all
  then show ?thesis
    unfolding step_sync(1) syncTimerCallback_triggered
    by (rule rounds_within_cleanup [rotated])
      (intro coord_inv_statistics_due coord_inv_triggered assms(1) step_sync(2))
next
  case step_statistics
  then show ?thesis
    by (intro rounds_within_cong [OF _ _ _ assms(2)]) (simp_all add: statisticsTimerCallback_def)
next
  case step_spin
  then show ?thesis
    by (intro rounds_within_cong [OF _ _ _ assms(2)])
      (simp_all add: spinCheck_def startSyncTimer_def Let_def)
qed (simp_all add: assms(1,2) rounds_within_ack rounds_within_checkResponses)

text \<open>
  C30. Bounded memory. The coordinator keeps the rounds of its statistics window, but at least ten: with
  \<open>w\<close> the larger of the configured window and ten, it never remembers more than \<open>w + 1\<close> rounds, as long as
  the round numbers stay \<open>w\<close> below 2^64. The remembered rounds are among the latest ones, in strictly
  increasing order.
\<close>
theorem remembered_rounds_bounded:
  assumes "coordinator_reach env p c" and "length (triggers (co_log c)) + keep_rounds (readParams p) < 2 ^ 64"
  shows "length (co_rounds c) \<le> Suc (keep_rounds (readParams p)) \<and> sorted_wrt (<) (map fst (co_rounds c)) \<and>
    (\<forall>k \<in> set (map fst (co_rounds c)). unat k \<le> length (triggers (co_log c)) \<and>
      length (triggers (co_log c)) \<le> unat k + keep_rounds (readParams p))"
proof -
  let ?n = "rounds_started c" and ?k = "keep_rounds (readParams p)" and ?K = "unat ` fst ` set (co_rounds c)"
  have "rounds_within 0 c"
    by (rule co.strengthen [OF _ rounds_within_step refl coordinator_reach_iff [THEN iffD1, OF assms(1)]])
      (simp_all add: rounds_within_def SyncCoordinator_new_def Let_def)
  then have K: "?K \<subseteq> {?n - ?k..?n}" and w: "\<forall>k \<in> set (map fst (co_rounds c)). unat k \<le> ?n \<and> ?n \<le> unat k + ?k"
    using assms(2) reach_config [OF assms(1)] by (auto simp: rounds_within_def)
  have s: "omap_wf (co_rounds c)" by (rule coord_invD(2) [OF coordinator_reach_inv [OF assms(1)]])
  have "card ?K = length (co_rounds c)"
    using distinct_card [OF omap_wf_distinct [OF s]] by (subst card_image) (auto simp: inj_on_def word_unat_eq_iff)
  moreover have "card ?K \<le> card {?n - ?k..?n}" using K by (intro card_mono) simp_all
  ultimately show ?thesis using w s by (auto simp: omap_wf_def)
qed

section \<open>How a participant is judged\<close>

text \<open>What one step of the node can do to the status of a participant.\<close>

inductive judged :: "CoordinatorConfig \<Rightarrow> ParticipantStatus \<Rightarrow> ParticipantStatus \<Rightarrow> bool" for cfg where
  same: "judged cfg s s"
| marked_ready: "judged cfg s (s\<lparr>ps_ready := True, ps_node_name := n, ps_last_response_time := t\<rparr>)"
| acked_by: "judged cfg s (snd (ackStatus cfg msg cy t s))"
| missed: "judged cfg s (missedStatus cfg s)"

lemma syncAckCallback_status:
  "omap_find (co_participant_status (syncAckCallback env msg c)) i =
     (if i = ack_participant_id msg
      then map_option (\<lambda>s. snd (ackedStatus env msg c s)) (omap_find (co_participant_status c) i)
      else omap_find (co_participant_status c) i)"
proof (cases "omap_find (co_participant_status c) (ack_participant_id msg)")
  case (Some s)
  from syncAckCallback_acked [OF this, of env] this show ?thesis by (auto simp: acked_def)
qed (simp add: syncAckCallback_def)

lemma checkOne_status:
  "omap_find (co_participant_status (checkOne env sq c j)) i =
     (if i = j then Some (missedStatus (co_config c) (case omap_find (co_participant_status c) i of
        Some s \<Rightarrow> s | None \<Rightarrow> ParticipantStatus_default))
      else omap_find (co_participant_status c) i)"
  by (auto simp: checkOne_def omap_ref_def Let_def split: option.split)

lemma checkAll_status:
  assumes "distinct is" and "omap_find (co_participant_status c) i = Some s"
  shows "omap_find (co_participant_status (foldl (checkOne env sq) c is)) i =
    Some (if i \<in> set is then missedStatus (co_config c) s else s)"
  using assms
proof (induction "is" arbitrary: c s)
  case (Cons j "is")
  have s: "omap_find (co_participant_status (checkOne env sq c j)) i =
      Some (if i = j then missedStatus (co_config c) s else s)"
    using Cons.prems(2) by (auto simp: checkOne_status)
  from Cons.IH [OF _ s] Cons.prems(1) show ?case by auto
qed simp

lemma checkResponses_status:
  assumes "coord_inv c" and "omap_find (co_participant_status c) i = Some s"
  shows "omap_find (co_participant_status (checkResponses env sq c)) i =
    Some (if \<exists>r. omap_find (co_rounds c) sq = Some r \<and> i \<in> set (rs_pending r)
          then missedStatus (co_config c) s else s)"
proof (cases "omap_find (co_rounds c) sq")
  case None
  then show ?thesis using assms(2) by (simp add: checkResponses_def)
next
  case (Some r)
  then have "distinct (rs_pending r)"
    using coord_invD(3) [OF assms(1) map_of_SomeD] by (fastforce simp: round_ok_def)
  from checkAll_status [OF this, of "c\<lparr>co_rounds := omap_assign sq (r\<lparr>rs_monitor_checked := True\<rparr>) (co_rounds c)\<rparr>" i]
    assms(2) Some show ?thesis by (simp add: checkResponses_def Let_def)
qed

lemma step_judged:
  assumes "coord_inv c" and "coordinator_step env c c'" and "omap_find (co_participant_status c) i = Some s"
  shows "\<exists>s'. omap_find (co_participant_status c') i = Some s' \<and> judged (co_config c) s s'"
  using assms(2)
proof cases
  case (step_ready msg)
  then show ?thesis
    using assms(3) by (auto simp: readyCallback_def Let_def intro: judged.intros split: option.split)
next
  case (step_ack msg)
  then show ?thesis
    using assms(3) by (auto simp: syncAckCallback_status ackedStatus_def intro: judged.intros)
next
  case step_sync
  then show ?thesis using assms(3) by (auto simp: syncTimerCallback_triggered triggered_def intro: judged.intros)
next
  case (step_timeout sq)
  then show ?thesis using checkResponses_status [OF assms(1,3)] by (auto intro: judged.intros)
next
  case step_statistics
  then show ?thesis using assms(3) by (auto simp: statisticsTimerCallback_def intro: judged.intros)
next
  case step_spin
  then show ?thesis using assms(3) by (auto simp: spinCheck_def startSyncTimer_def Let_def intro: judged.intros)
qed

lemma checkAll_unknown:
  "omap_find (co_participant_status c) i = None \<Longrightarrow> i \<notin> set is \<Longrightarrow>
   omap_find (co_participant_status (foldl (checkOne env sq) c is)) i = None"
  by (induction "is" arbitrary: c) (simp_all add: checkOne_status)

lemma step_unknown:
  assumes "coord_inv c" and "coordinator_step env c c'" and "omap_find (co_participant_status c) i = None"
  shows "omap_find (co_participant_status c') i = None"
  using assms(2)
proof cases
  case (step_ready msg)
  then show ?thesis
    using assms(3) by (auto simp: readyCallback_def Let_def split: option.split)
next
  case (step_timeout sq)
  have "i \<notin> set (rs_pending r)" if "omap_find (co_rounds c) sq = Some r" for r
    using coord_invD(3) [OF assms(1) map_of_SomeD [OF that]] assms(3)
    by (auto simp: round_ok_def map_of_eq_None_iff)
  then show ?thesis
    using step_timeout assms(3) by (auto simp: checkResponses_def Let_def checkAll_unknown split: option.split)
qed (use assms(3) in \<open>auto simp: syncAckCallback_status syncTimerCallback_triggered triggered_def
      statisticsTimerCallback_def spinCheck_def startSyncTimer_def Let_def\<close>)

lemma rank_setStatus: "statusRank (ps_status s) \<le> statusRank (ps_status (setStatus st s))"
  by (simp add: setStatus_def)

definition healthy_ack :: "RosEnv \<Rightarrow> CoordinatorConfig \<Rightarrow> SyncAck \<Rightarrow> bool" where
  "healthy_ack env cfg msg \<longleftrightarrow>
     ack_success msg \<and> \<not> clockAnomaly (ackCycleMs env msg) \<and> \<not> isSlow cfg (ackCycleMs env msg)"

lemma recordSample_keeps [simp]:
  "ps_status (recordSample cfg a b s) = ps_status s"
  "ps_good_cycle_count (recordSample cfg a b s) = ps_good_cycle_count s"
  by (simp_all add: recordSample_def Let_def)

lemma recordFailure_fields [simp]:
  "ps_status (recordFailure s) = ps_status s" "ps_good_cycle_count (recordFailure s) = 0"
  by (simp_all add: recordFailure_def)

lemma good_setStatus [simp]: "ps_good_cycle_count (setStatus st s) = ps_good_cycle_count s"
  by (simp add: setStatus_def)

lemma ackStatus_unhealthy:
  assumes "clockAnomaly cy \<or> \<not> ack_success msg \<or> isSlow cfg cy"
  shows "\<not> fst (ackStatus cfg msg cy t s) \<and> ps_good_cycle_count (snd (ackStatus cfg msg cy t s)) = 0 \<and>
    statusRank (ps_status s) \<le> statusRank (ps_status (snd (ackStatus cfg msg cy t s)))"
proof -
  have up: "statusRank (ps_status a) \<le> statusRank (ps_status b) \<Longrightarrow>
      statusRank (ps_status a) \<le> statusRank (ps_status (setStatus st b))" for a b :: ParticipantStatus and st
    using rank_setStatus order_trans by blast
  show ?thesis using assms by (auto simp: ackStatus_def Let_def intro!: up)
qed

lemma ackStatus_healthy:
  assumes "\<not> clockAnomaly cy" and "ack_success msg" and "\<not> isSlow cfg cy"
  shows "ps_good_cycle_count (snd (ackStatus cfg msg cy t s)) = ps_good_cycle_count s + 1"
    "fst (ackStatus cfg msg cy t s) \<longleftrightarrow> ps_status s \<noteq> STATUS_OK \<and>
      word_of_int (cc_recovery_good_cycles cfg) \<le> ps_good_cycle_count s + 1"
    "ps_status (snd (ackStatus cfg msg cy t s)) =
      (if fst (ackStatus cfg msg cy t s) then STATUS_OK else ps_status s)"
  using assms by (auto simp: ackStatus_def recordHealthyAck_def Let_def)

lemma missedStatus_fields:
  "ps_good_cycle_count (missedStatus cfg s) = 0"
  "statusRank (ps_status s) \<le> statusRank (ps_status (missedStatus cfg s))"
  using rank_setStatus [of "s\<lparr>ps_missed_count := ps_missed_count s + 1,
      ps_consecutive_missed_count := ps_consecutive_missed_count s + 1, ps_good_cycle_count := 0\<rparr>"]
  by (simp_all add: missedStatus_def Let_def)

text \<open>An abnormal participant has not yet had enough healthy acknowledgements in a row.\<close>

definition recovering :: "CoordinatorConfig \<Rightarrow> ParticipantStatus \<Rightarrow> bool" where
  "recovering cfg s \<longleftrightarrow>
     (ps_status s \<noteq> STATUS_OK \<longrightarrow> ps_good_cycle_count s < word_of_int (cc_recovery_good_cycles cfg))"

lemma judged_recovering:
  assumes "judged cfg s s'" and "recovering cfg s" and "(0 :: u32) < word_of_int (cc_recovery_good_cycles cfg)"
  shows "recovering cfg s'"
  using assms
proof cases
  case (acked_by msg cy t)
  show ?thesis
  proof (cases "clockAnomaly cy \<or> \<not> ack_success msg \<or> isSlow cfg cy")
    case True
    then show ?thesis using ackStatus_unhealthy [OF True] assms(3) by (simp add: acked_by recovering_def)
  next
    case False
    then have h: "\<not> clockAnomaly cy" "ack_success msg" "\<not> isSlow cfg cy" by auto
    show ?thesis
      using assms(2) unfolding acked_by recovering_def ackStatus_healthy(1,3) [OF h]
      by (auto simp: ackStatus_healthy(2) [OF h])
  qed
qed (use missedStatus_fields in \<open>auto simp: recovering_def\<close>)

lemma reach_recovering:
  assumes "coordinator_reach env p c" and "(0 :: u32) < word_of_int (cc_recovery_good_cycles (readParams p))"
    and "omap_find (co_participant_status c) i = Some s"
  shows "recovering (readParams p) s"
  using assms(1,3)
proof (induction arbitrary: s rule: coordinator_reach.induct)
  case reach_start
  from addParticipants_props [of "[]"] map_of_SomeD [OF reach_start]
  have "s = ParticipantStatus_default" by (fastforce simp: SyncCoordinator_new_def Let_def)
  then show ?case by (simp add: recovering_def ParticipantStatus_default_def)
next
  case (reach_step c c')
  note inv = coordinator_reach_inv [OF reach_step.hyps(1)]
  show ?case
  proof (cases "omap_find (co_participant_status c) i")
    case (Some s0)
    from step_judged [OF inv reach_step.hyps(2) Some] reach_step.prems reach_config [OF reach_step.hyps(1)]
    have "judged (readParams p) s0 s" by simp
    then show ?thesis using judged_recovering [OF _ reach_step.IH [OF Some] assms(2)] by blast
  next
    case None
    then show ?thesis
      using step_unknown [OF inv reach_step.hyps(2)] reach_step.prems by simp
  qed
qed

text \<open>Only an acknowledgement can improve the status of its sender.\<close>

lemma step_improves:
  assumes "coord_inv c" and "coordinator_step env c c'"
    and "omap_find (co_participant_status c) i = Some s" and "omap_find (co_participant_status c') i = Some s'"
    and "statusRank (ps_status s') < statusRank (ps_status s)"
  shows "\<exists>ack. c' = syncAckCallback env ack c \<and> ack_participant_id ack = i \<and> s' = snd (ackedStatus env ack c s)"
  using assms(2)
proof cases
  case (step_ready msg)
  then show ?thesis
    using assms(3-5) by (auto simp: readyCallback_def Let_def split: if_splits option.splits)
next
  case (step_ack ack)
  then show ?thesis using assms(3-5) by (auto simp: syncAckCallback_status split: if_splits)
next
  case (step_timeout sq)
  then show ?thesis
    using checkResponses_status [OF assms(1,3)] missedStatus_fields(2) [of s "co_config c"] assms(4,5)
    by (auto split: if_splits)
qed (use assms(3-5) in \<open>auto simp: syncTimerCallback_triggered triggered_def statisticsTimerCallback_def
      spinCheck_def startSyncTimer_def Let_def split: if_splits\<close>)

text \<open>
  C28. A participant's status gets better only by recovery. In a reachable state, whatever step follows,
  if the status of a participant improves, then the step was the handling of an acknowledgement of that
  very participant, which reported success and was neither slow nor out of a plausible time range; the
  status is now OK; and the count of good cycles, which this acknowledgement increased by one, has reached
  the configured number.
\<close>
theorem status_improves_only_by_recovery:
  assumes "coordinator_reach env p c" and "coordinator_step env c c'"
    and "omap_find (co_participant_status c) i = Some s" and "omap_find (co_participant_status c') i = Some s'"
    and "statusRank (ps_status s') < statusRank (ps_status s)"
  shows "(\<exists>ack. c' = syncAckCallback env ack c \<and> ack_participant_id ack = i \<and> healthy_ack env (readParams p) ack) \<and>
    ps_status s' = STATUS_OK \<and> ps_good_cycle_count s' = ps_good_cycle_count s + 1 \<and>
    word_of_int (cc_recovery_good_cycles (readParams p)) \<le> ps_good_cycle_count s'"
proof -
  let ?cfg = "readParams p"
  obtain ack where a: "c' = syncAckCallback env ack c" "ack_participant_id ack = i"
    "s' = snd (ackedStatus env ack c s)"
    using step_improves [OF coordinator_reach_inv [OF assms(1)] assms(2-5)] by blast
  obtain t where s': "s' = snd (ackStatus ?cfg ack (ackCycleMs env ack) t s)"
    using a(3) reach_config [OF assms(1)] by (auto simp: ackedStatus_def)
  have h: "healthy_ack env ?cfg ack"
    using ackStatus_unhealthy assms(5) unfolding s' healthy_ack_def by (meson not_le)
  then have h': "\<not> clockAnomaly (ackCycleMs env ack)" "ack_success ack" "\<not> isSlow ?cfg (ackCycleMs env ack)"
    by (auto simp: healthy_ack_def)
  have "ps_status s' = STATUS_OK \<and> ps_good_cycle_count s' = ps_good_cycle_count s + 1 \<and>
      word_of_int (cc_recovery_good_cycles ?cfg) \<le> ps_good_cycle_count s'"
    using assms(5) unfolding s' ackStatus_healthy(1,3) [OF h']
    by (auto simp: ackStatus_healthy(2) [OF h'] split: if_splits)
  then show ?thesis using a h by blast
qed

abbreviation recovery_acks :: "CoordinatorConfig \<Rightarrow> nat" where
  "recovery_acks cfg \<equiv> unat (word_of_int (cc_recovery_good_cycles cfg) :: u32)"

abbreviation acks_of :: "u32 \<Rightarrow> SyncAck list \<Rightarrow> nat" where
  "acks_of i acks \<equiv> length (filter (\<lambda>a. ack_participant_id a = i) acks)"

lemma healthy_ack_status:
  assumes "healthy_ack env (co_config c) a" and "recovering (co_config c) s"
  shows "recovering (co_config c) (snd (ackedStatus env a c s))"
    "ps_status (snd (ackedStatus env a c s)) \<noteq> STATUS_OK \<Longrightarrow>
     ps_status s \<noteq> STATUS_OK \<and> unat (ps_good_cycle_count (snd (ackedStatus env a c s))) =
       Suc (unat (ps_good_cycle_count s))"
proof -
  have h: "\<not> clockAnomaly (ackCycleMs env a)" "ack_success a" "\<not> isSlow (co_config c) (ackCycleMs env a)"
    using assms(1) by (auto simp: healthy_ack_def)
  note H = ackStatus_healthy [OF h, of _ s]
  show "recovering (co_config c) (snd (ackedStatus env a c s))"
    using assms(2) by (auto simp: recovering_def ackedStatus_def H not_le)
  show "ps_status s \<noteq> STATUS_OK \<and> unat (ps_good_cycle_count (snd (ackedStatus env a c s))) =
      Suc (unat (ps_good_cycle_count s))"
    if "ps_status (snd (ackedStatus env a c s)) \<noteq> STATUS_OK"
  proof -
    have st: "ps_status s \<noteq> STATUS_OK" using that by (auto simp: ackedStatus_def H split: if_splits)
    then have "unat (ps_good_cycle_count s) < recovery_acks (co_config c)"
      using assms(2) by (simp add: recovering_def word_less_nat_alt)
    then have "Suc (unat (ps_good_cycle_count s)) < 2 ^ 32"
      using unat_u32_lt [of "word_of_int (cc_recovery_good_cycles (co_config c))"] by linarith
    then show ?thesis using st by (simp add: ackedStatus_def H(1) unat_word_ariths)
  qed
qed

lemma healthy_run:
  assumes "\<forall>a \<in> set acks. ack_participant_id a = i \<longrightarrow> healthy_ack env (co_config c) a"
    and "omap_find (co_participant_status c) i = Some s" and "recovering (co_config c) s"
    and "ps_status s \<noteq> STATUS_OK \<Longrightarrow>
      recovery_acks (co_config c) \<le> unat (ps_good_cycle_count s) + acks_of i acks"
  shows "\<exists>s'. omap_find (co_participant_status (foldl (\<lambda>c a. syncAckCallback env a c) c acks)) i = Some s' \<and>
    ps_status s' = STATUS_OK"
  using assms
proof (induction acks arbitrary: c s)
  case Nil
  have "ps_status s = STATUS_OK"
    by (rule ccontr) (use Nil in \<open>simp add: recovering_def word_less_nat_alt\<close>)
  with Nil show ?case by simp
next
  case (Cons a acks)
  let ?c = "syncAckCallback env a c" and ?s = "snd (ackedStatus env a c s)"
  have tail: "\<forall>a \<in> set acks. ack_participant_id a = i \<longrightarrow> healthy_ack env (co_config ?c) a"
    using Cons.prems(1) by simp
  show ?case
  proof (cases "ack_participant_id a = i")
    case False
    then have "omap_find (co_participant_status ?c) i = Some s"
      using Cons.prems(2) by (simp add: syncAckCallback_status)
    from Cons.IH [OF tail this] Cons.prems(3,4) False show ?thesis by simp
  next
    case True
    then have f: "omap_find (co_participant_status ?c) i = Some ?s"
      using Cons.prems(2) by (simp add: syncAckCallback_status)
    have h: "healthy_ack env (co_config c) a" using Cons.prems(1) True by simp
    note H = healthy_ack_status [OF h Cons.prems(3)]
    from Cons.IH [OF tail f] H Cons.prems(4) True show ?thesis by simp
  qed
qed

text \<open>
  C27. Recovery. From any reachable state, in whatever state a participant is, once the coordinator has
  served the configured number of acknowledgements of that participant that are all healthy, the
  participant's status is OK. Acknowledgements of other participants may come in between, healthy or not.
\<close>
theorem healthy_participant_recovers:
  assumes "coordinator_reach env p c" and "omap_find (co_participant_status c) i = Some s"
    and "\<forall>a \<in> set acks. ack_participant_id a = i \<longrightarrow> healthy_ack env (readParams p) a"
    and "cc_recovery_good_cycles (readParams p) < 2 ^ 31"
    and "cc_recovery_good_cycles (readParams p) \<le> int (length (filter (\<lambda>a. ack_participant_id a = i) acks))"
  shows "\<exists>s'. omap_find (co_participant_status (foldl (\<lambda>c a. syncAckCallback env a c) c acks)) i = Some s' \<and>
    ps_status s' = STATUS_OK"
proof -
  let ?R = "cc_recovery_good_cycles (readParams p)"
  have R: "1 \<le> ?R" by (simp add: readParams_def Let_def)
  have u: "int (recovery_acks (readParams p)) = ?R"
    using R assms(4) by (simp add: uint_word_of_int flip: uint_nat)
  then have "0 < recovery_acks (readParams p)" using R by linarith
  then have "(0 :: u32) < word_of_int ?R" by (simp add: word_less_nat_alt)
  from reach_recovering [OF assms(1) this assms(2)] have r: "recovering (readParams p) s" .
  have "recovery_acks (readParams p) \<le> acks_of i acks" using u assms(5) by linarith
  then show ?thesis
    using r assms(3) unfolding reach_config [OF assms(1), symmetric]
    by (intro healthy_run [OF _ assms(2)]) auto
qed

section \<open>Witnesses\<close>

text \<open>One participant, a clock that stands still, and the first round.\<close>

definition demo_env :: RosEnv where
  "demo_env = \<lparr>ros_now = \<lambda>_. RosTime 0 0, ros_diff_sec = \<lambda>_ _. Fin 0\<rparr>"

definition demo_params :: CoordinatorParams where
  "demo_params = \<lparr>par_participant_count = Some 1, par_num_participants = None, par_num_uavs = None,
     par_first_participant_id = None, par_sampling_time = None, par_sync_period = Some (Fin 1),
     par_timeout_threshold_ms = None, par_max_consecutive_timeouts = Some 1,
     par_statistics_publish_period = None, par_statistics_publish_every_n_cycles = None,
     par_stats_window_size = None, par_slow_ratio_threshold = Some (Fin 1), par_recovery_good_cycles = Some 2,
     par_spin_rate_hz = None\<rparr>"

definition demo_ready :: SyncCoordinator where
  "demo_ready = spinCheck demo_env (readyCallback demo_env
     \<lparr>rdy_participant_id = 1, rdy_node_name = ''u1'', rdy_ready_time = RosTime 0 0\<rparr> (SyncCoordinator_new demo_params))"

definition demo_round :: SyncCoordinator where
  "demo_round = syncTimerCallback demo_env demo_ready"

lemma demo_config:
  "cc_participant_count (readParams demo_params) = 1" "cc_first_participant_id (readParams demo_params) = 1"
  "cc_recovery_good_cycles (readParams demo_params) = 2" "cc_stats_window_size (readParams demo_params) = 100"
  "cc_max_consecutive_timeouts (readParams demo_params) = 1"
  "cc_statistics_publish_every_n_cycles (readParams demo_params) = 0"
  by (simp_all add: readParams_def Let_def demo_params_def param_def)

lemma demo_new:
  "co_participant_status (SyncCoordinator_new demo_params) = [(1, ParticipantStatus_default)]"
  "co_all_ready (SyncCoordinator_new demo_params) = False" "co_rounds (SyncCoordinator_new demo_params) = []"
  "co_sequence_id (SyncCoordinator_new demo_params) = 0" "co_log (SyncCoordinator_new demo_params) = []"
  "co_response_timers (SyncCoordinator_new demo_params) = []"
  by (simp_all add: SyncCoordinator_new_def Let_def demo_config)

lemma spinCheck_ready:
  "co_participant_status c \<noteq> [] \<Longrightarrow> list_all (\<lambda>x. ps_ready (snd x)) (co_participant_status c) \<Longrightarrow> \<not> co_all_ready c \<Longrightarrow>
   co_sync_timer (spinCheck env c)"
  by (simp add: spinCheck_def checkAllReady_def startSyncTimer_def Let_def)

lemma demo_ready_fields:
  "co_sync_timer demo_ready" "ids demo_ready = [1]" "co_rounds demo_ready = []" "co_sequence_id demo_ready = 0"
  "co_response_timers demo_ready = []"
  unfolding demo_ready_def
  by (rule spinCheck_ready)
    (simp_all add: readyCallback_def demo_new ParticipantStatus_default_def Let_def spinCheck_def startSyncTimer_def)

lemma demo_reach: "coordinator_reach demo_env demo_params demo_ready" "coordinator_reach demo_env demo_params demo_round"
proof -
  show r: "coordinator_reach demo_env demo_params demo_ready"
    unfolding demo_ready_def by (rule reach_step [OF reach_step [OF reach_start step_ready] step_spin])
  show "coordinator_reach demo_env demo_params demo_round"
    unfolding demo_round_def by (rule reach_step [OF r]) (rule step_sync, rule demo_ready_fields(1))
qed

lemma demo_trigger: "\<exists>t. TriggerMsg t \<in> set (co_log demo_round)"
proof -
  have "set (co_log (triggered demo_env demo_ready)) \<subseteq> set (co_log demo_round)"
    by (auto simp: demo_round_def syncTimerCallback_triggered publishStatisticsIfCycleDue_def
        publishStatistics_def readClock_def emit_def Let_def split_beta)
  then show ?thesis by (auto simp: triggered_def)
qed

theorem trigger_only_after_all_ready_witness:
  "\<exists>t pre post. co_log demo_round = pre @ TriggerMsg t # post \<and> trg_active_participant_ids t = [1] \<and> said_ready 1 pre"
proof -
  obtain t pre post where l: "co_log demo_round = pre @ TriggerMsg t # post"
    using demo_trigger by (metis split_list)
  have "ids demo_round = [1]"
    by (simp add: demo_round_def syncTimerCallback_triggered triggered_def demo_ready_fields)
  with trigger_only_after_all_ready [OF demo_reach(2) l]
  have "trg_active_participant_ids t = [1] \<and> said_ready 1 pre" by simp
  with l show ?thesis by blast
qed

theorem statistics_account_for_everyone_witness:
  "\<exists>s. StatisticsMsg s \<in> set (co_log demo_ready) \<and>
     sst_actual_response_count s + sst_missing_response_count s = sst_expected_response_count s"
proof -
  have "\<exists>s. StatisticsMsg s \<in> set (co_log (publishStatistics env c))" for env c
    by (auto simp: publishStatistics_def emit_def Let_def split_beta)
  moreover have "\<exists>c. demo_ready = startSyncTimer (publishStatistics demo_env c)"
    by (auto simp: demo_ready_def spinCheck_def readyCallback_def demo_new checkAllReady_def Let_def
        ParticipantStatus_default_def)
  moreover have "co_log (startSyncTimer c) = co_log c" for c by (simp add: startSyncTimer_def)
  ultimately obtain s where "StatisticsMsg s \<in> set (co_log demo_ready)" by metis
  with statistics_account_for_everyone [OF demo_reach(1)] show ?thesis by blast
qed

theorem remembered_rounds_bounded_witness:
  "map fst (co_rounds demo_ready) = [] \<and> length (co_rounds demo_round) \<le> 101"
proof -
  have "length (triggers (co_log demo_round)) = 1"
    by (simp add: demo_round_def syncTimerCallback_triggered triggered_def demo_ready_def spinCheck_def
        readyCallback_def demo_new startSyncTimer_def Let_def)
  with remembered_rounds_bounded [OF demo_reach(2)] show ?thesis
    by (simp add: keep_rounds_def demo_config demo_ready_fields)
qed

text \<open>The participant misses the round, is degraded, and recovers with its second acknowledgement.\<close>

definition demo_ack :: SyncAck where
  "demo_ack = \<lparr>ack_participant_id = 1, ack_sequence_id = 1, ack_received_time = RosTime 0 0,
     ack_finished_time = RosTime 0 0, ack_computation_ms = Fin 0, ack_success = True, ack_error_msg = ''''\<rparr>"

definition demo_missed :: SyncCoordinator where
  "demo_missed = checkResponses demo_env 1 demo_round"

lemma demo_healthy: "healthy_ack demo_env (readParams demo_params) demo_ack"
proof -
  have "cc_sync_period (readParams demo_params) = Fin 1" "cc_slow_ratio_threshold (readParams demo_params) = Fin 1"
    by (simp_all add: readParams_def Let_def demo_params_def param_def)
  then have "slowThresholdMs (readParams demo_params) = Fin 1000"
    using dmul_exact [of 1 1000] dmul_exact [of 1000 1] by (simp add: slowThresholdMs_def)
  moreover have "mk_double 0 = Fin 0" using d_of_nat_exact [of 0] by (simp add: d_of_nat_def)
  ultimately show ?thesis
    by (simp add: healthy_ack_def demo_ack_def ackCycleMs_def demo_env_def clockAnomaly_def isSlow_def)
qed

lemma demo_missed_reach: "coordinator_reach demo_env demo_params demo_missed"
  unfolding demo_missed_def
  by (rule reach_step [OF demo_reach(2)], rule step_timeout)
    (simp add: demo_round_def syncTimerCallback_triggered triggered_def demo_ready_fields sset_insert_def)

definition demo_status :: ParticipantStatus where
  "demo_status = ParticipantStatus_default\<lparr>ps_ready := True, ps_node_name := ''u1'', ps_last_response_time := RosTime 0 0\<rparr>"

lemma demo_degraded:
  "\<exists>s. omap_find (co_participant_status demo_missed) 1 = Some s \<and> ps_status s = STATUS_DEGRADED \<and>
     ps_good_cycle_count s = 0"
proof -
  have s: "omap_find (co_participant_status demo_round) 1 = Some demo_status"
    by (simp add: demo_round_def syncTimerCallback_triggered triggered_def demo_ready_def spinCheck_def
        readyCallback_def demo_new startSyncTimer_def demo_status_def ParticipantStatus_default_def Let_def)
  have "\<exists>r. omap_find (co_rounds demo_round) 1 = Some r \<and> 1 \<in> set (rs_pending r)"
    by (simp add: demo_round_def syncTimerCallback_triggered triggered_def newRound_def demo_ready_fields
        cleanupRounds_def Let_def sset_insert_def reach_config [OF demo_reach(1)] demo_config)
  then have m: "omap_find (co_participant_status demo_missed) 1 =
      Some (missedStatus (readParams demo_params) demo_status)"
    using checkResponses_status [OF coordinator_reach_inv [OF demo_reach(2)] s, of demo_env 1]
      reach_config [OF demo_reach(2)] by (simp add: demo_missed_def)
  have "ps_status (missedStatus (readParams demo_params) demo_status) = STATUS_DEGRADED"
    by (simp add: missedStatus_def demo_status_def ParticipantStatus_default_def setStatus_def
        degradedIfNeeded_def statusRank_def status_defs demo_config)
  with m missedStatus_fields(1) show ?thesis by blast
qed

theorem healthy_participant_recovers_witness:
  "\<exists>s s'. omap_find (co_participant_status demo_missed) 1 = Some s \<and> ps_status s = STATUS_DEGRADED \<and>
     omap_find (co_participant_status (foldl (\<lambda>c a. syncAckCallback demo_env a c) demo_missed [demo_ack, demo_ack])) 1 =
       Some s' \<and> ps_status s' = STATUS_OK"
proof -
  obtain s where s: "omap_find (co_participant_status demo_missed) 1 = Some s" "ps_status s = STATUS_DEGRADED"
    using demo_degraded by blast
  have "ack_participant_id demo_ack = 1" by (simp add: demo_ack_def)
  with healthy_participant_recovers [OF demo_missed_reach s(1), of "[demo_ack, demo_ack]"] demo_healthy s
  show ?thesis by (simp add: demo_config)
qed

theorem status_improves_only_by_recovery_witness:
  "\<exists>s'. omap_find (co_participant_status
       (syncAckCallback demo_env demo_ack (syncAckCallback demo_env demo_ack demo_missed))) 1 = Some s' \<and>
     ps_status s' = STATUS_OK \<and> ps_good_cycle_count s' = 2"
proof -
  let ?c = "syncAckCallback demo_env demo_ack demo_missed"
  obtain s where s: "omap_find (co_participant_status demo_missed) 1 = Some s" "ps_status s = STATUS_DEGRADED"
    "ps_good_cycle_count s = 0" using demo_degraded by blast
  have i: "ack_participant_id demo_ack = 1" by (simp add: demo_ack_def)
  have c: "co_config demo_missed = readParams demo_params" by (rule reach_config [OF demo_missed_reach])
  have h: "\<not> clockAnomaly (ackCycleMs demo_env demo_ack)" "ack_success demo_ack"
    "\<not> isSlow (readParams demo_params) (ackCycleMs demo_env demo_ack)"
    using demo_healthy by (auto simp: healthy_ack_def)
  note H = ackStatus_healthy [OF h]
  let ?s = "snd (ackedStatus demo_env demo_ack demo_missed s)"
  let ?s' = "snd (ackedStatus demo_env demo_ack ?c ?s)"
  have f: "omap_find (co_participant_status ?c) 1 = Some ?s"
    "omap_find (co_participant_status (syncAckCallback demo_env demo_ack ?c)) 1 = Some ?s'"
    using s(1) i by (simp_all add: syncAckCallback_status)
  have "\<not> (2 :: u32) \<le> 1" by (simp add: word_le_nat_alt)
  then have d: "ps_status ?s = STATUS_DEGRADED" "ps_good_cycle_count ?s = 1" "ps_status ?s' = STATUS_OK"
    by (simp_all add: ackedStatus_def c H s demo_config status_defs)
  have "coordinator_reach demo_env demo_params ?c" by (rule reach_step [OF demo_missed_reach step_ack])
  from status_improves_only_by_recovery [OF this step_ack f] d f show ?thesis
    by (simp add: statusRank_def status_defs)
qed

end
