(* ===== verification/Deadline_Checker.thy ===== *)
theory Deadline_Checker
  imports Envelope_Codec
begin

text \<open>
  \<^verbatim>\<open>src/core/deadline_checker.cpp\<close>: the classification of a received sample for the current cycle. The
  checks are tried in the order of the code and the first one that fails decides the status.
\<close>

record ChannelTiming =
  tim_publish_deadline_ns :: i64
  tim_receive_cutoff_ns :: i64
  tim_ttl_ns :: i64
  tim_payload_type :: string
  tim_schema_id :: string
  tim_allow_empty_payload :: bool

definition ChannelTiming_default :: ChannelTiming where
  "ChannelTiming_default =
     \<lparr>tim_publish_deadline_ns = 0, tim_receive_cutoff_ns = 0, tim_ttl_ns = 0, tim_payload_type = '''',
      tim_schema_id = '''', tim_allow_empty_payload = True\<rparr>"

record DeadlineDecision =
  dd_status :: SampleStatus
  dd_reason :: string
  dd_usable :: bool

definition checkReceivedSample ::
    "SampleEnvelope \<Rightarrow> u64 \<Rightarrow> i64 \<Rightarrow> i64 \<Rightarrow> ChannelTiming \<Rightarrow> DeadlineDecision" where
  "checkReceivedSample e current_cycle cycle_start_ns local_receive_ns timing =
     (let drop = (\<lambda>st why. \<lparr>dd_status = st, dd_reason = why, dd_usable = False\<rparr>);
          ttl_ns = (if i64_less 0 (tim_ttl_ns timing) then tim_ttl_ns timing else env_ttl_ns e)
      in
      if \<not> env_clock_ok e then drop SenderClockBad ''sender clock is bad''
      else if env_producer_status e \<noteq> ProducerStatus_Success
      then drop SenderReportedFail ''sender reported non-success producer status''
      else if tim_payload_type timing \<noteq> '''' \<and> env_payload_type e \<noteq> tim_payload_type timing
      then drop BadSchema ''payload_type mismatch''
      else if tim_schema_id timing \<noteq> '''' \<and> env_schema_id e \<noteq> tim_schema_id timing
      then drop BadSchema ''schema_id mismatch''
      else if \<not> tim_allow_empty_payload timing \<and> env_payload e = []
      then drop BadPayload ''payload is empty''
      else if \<not> verifyPayloadCrc e then drop BadPayload ''payload crc mismatch''
      else if env_target_cycle e \<noteq> current_cycle
      then drop WrongCycle ''target_cycle does not match current cycle''
      else if i64_less 0 (tim_publish_deadline_ns timing) \<and>
              i64_less (cycle_start_ns + tim_publish_deadline_ns timing) (env_t_publish_ns e)
      then drop Late ''sample was published after publish deadline''
      else if i64_less 0 (tim_receive_cutoff_ns timing) \<and>
              i64_less (cycle_start_ns + tim_receive_cutoff_ns timing) local_receive_ns
      then drop Late ''sample arrived after receive cutoff''
      else if i64_less 0 ttl_ns \<and> i64_less (env_t_publish_ns e + ttl_ns) local_receive_ns
      then drop Late ''sample ttl expired''
      else \<lparr>dd_status = Fresh, dd_reason = ''fresh'', dd_usable = True\<rparr>)"

section \<open>The contract of a usable sample\<close>

definition content_ok :: "SampleEnvelope \<Rightarrow> ChannelTiming \<Rightarrow> bool" where
  "content_ok e timing \<longleftrightarrow>
     env_clock_ok e \<and> env_producer_status e = ProducerStatus_Success \<and>
     (tim_payload_type timing = '''' \<or> env_payload_type e = tim_payload_type timing) \<and>
     (tim_schema_id timing = '''' \<or> env_schema_id e = tim_schema_id timing) \<and>
     (tim_allow_empty_payload timing \<or> env_payload e \<noteq> []) \<and>
     crc32c (env_payload e) = env_payload_crc32c e"

definition effective_ttl :: "SampleEnvelope \<Rightarrow> ChannelTiming \<Rightarrow> int" where
  "effective_ttl e timing =
     (if 0 < sint (tim_ttl_ns timing) then sint (tim_ttl_ns timing) else sint (env_ttl_ns e))"

definition in_time :: "SampleEnvelope \<Rightarrow> int \<Rightarrow> int \<Rightarrow> ChannelTiming \<Rightarrow> bool" where
  "in_time e start recv timing \<longleftrightarrow>
     (0 < sint (tim_publish_deadline_ns timing) \<longrightarrow>
        sint (env_t_publish_ns e) \<le> start + sint (tim_publish_deadline_ns timing)) \<and>
     (0 < sint (tim_receive_cutoff_ns timing) \<longrightarrow> recv \<le> start + sint (tim_receive_cutoff_ns timing)) \<and>
     (0 < effective_ttl e timing \<longrightarrow> recv \<le> sint (env_t_publish_ns e) + effective_ttl e timing)"

definition timing_no_overflow :: "SampleEnvelope \<Rightarrow> i64 \<Rightarrow> ChannelTiming \<Rightarrow> bool" where
  "timing_no_overflow e start timing \<longleftrightarrow>
     i64_add_ok start (tim_publish_deadline_ns timing) \<and>
     i64_add_ok start (tim_receive_cutoff_ns timing) \<and>
     i64_add_ok (env_t_publish_ns e) (tim_ttl_ns timing) \<and>
     i64_add_ok (env_t_publish_ns e) (env_ttl_ns e)"

lemma usable_iff_Fresh:
  "dd_usable (checkReceivedSample e c s r tm) \<longleftrightarrow> dd_status (checkReceivedSample e c s r tm) = Fresh"
  by (simp add: checkReceivedSample_def Let_def)

lemma checkReceivedSample_status:
  assumes "timing_no_overflow e s tm"
  shows "dd_status (checkReceivedSample e c s r tm) = Fresh \<longleftrightarrow>
      content_ok e tm \<and> env_target_cycle e = c \<and> in_time e (sint s) (sint r) tm"
    "dd_status (checkReceivedSample e c s r tm) = WrongCycle \<longleftrightarrow>
      content_ok e tm \<and> env_target_cycle e \<noteq> c"
    "dd_status (checkReceivedSample e c s r tm) = Late \<longleftrightarrow>
      content_ok e tm \<and> env_target_cycle e = c \<and> \<not> in_time e (sint s) (sint r) tm"
proof -
  have a: "sint (s + tim_publish_deadline_ns tm) = sint s + sint (tim_publish_deadline_ns tm)"
    "sint (s + tim_receive_cutoff_ns tm) = sint s + sint (tim_receive_cutoff_ns tm)"
    "sint (env_t_publish_ns e + (if i64_less 0 (tim_ttl_ns tm) then tim_ttl_ns tm else env_ttl_ns e)) =
       sint (env_t_publish_ns e) + effective_ttl e tm"
    "sint (if i64_less 0 (tim_ttl_ns tm) then tim_ttl_ns tm else env_ttl_ns e) = effective_ttl e tm"
    using assms unfolding timing_no_overflow_def effective_ttl_def by (simp_all add: i64_simps)
  note defs = checkReceivedSample_def Let_def content_ok_def in_time_def verifyPayloadCrc_def a
  show "dd_status (checkReceivedSample e c s r tm) = Fresh \<longleftrightarrow>
      content_ok e tm \<and> env_target_cycle e = c \<and> in_time e (sint s) (sint r) tm"
    unfolding defs by (simp add: not_less; blast)
  show "dd_status (checkReceivedSample e c s r tm) = WrongCycle \<longleftrightarrow>
      content_ok e tm \<and> env_target_cycle e \<noteq> c"
    unfolding defs by (simp add: not_less; blast)
  show "dd_status (checkReceivedSample e c s r tm) = Late \<longleftrightarrow>
      content_ok e tm \<and> env_target_cycle e = c \<and> \<not> in_time e (sint s) (sint r) tm"
    unfolding defs by (simp add: not_less; blast)
qed

lemma checkReceivedSample_no_Wrong:
  "env_target_cycle e = c \<Longrightarrow> dd_status (checkReceivedSample e c s r tm) \<noteq> WrongCycle"
  by (simp add: checkReceivedSample_def Let_def)

lemma checkReceivedSample_not:
  "dd_status (checkReceivedSample e c s r tm) \<noteq> Missing"
  "dd_status (checkReceivedSample e c s r tm) \<noteq> Duplicate"
  "dd_status (checkReceivedSample e c s r tm) \<noteq> TransportError"
  by (simp_all add: checkReceivedSample_def Let_def)

text \<open>
  C12. Classification of a received sample. Provided the three deadline sums do not overflow, a sample
  is usable exactly when its content is acceptable (good sender clock, producer success, the channel's
  payload type and schema, a payload where one is demanded, matching CRC), it targets the current
  cycle, and it was published before the publish deadline, received before the cutoff and within its
  time to live; acceptable content for another cycle is WrongCycle, and acceptable content for this
  cycle that misses a deadline is Late.
\<close>
theorem deadline_classification:
  fixes cycle :: u64 and received :: i64
  assumes "timing_no_overflow e cycle_start timing"
  defines "d \<equiv> checkReceivedSample e cycle cycle_start received timing"
  shows "(dd_usable d \<longleftrightarrow> content_ok e timing \<and> env_target_cycle e = cycle \<and>
            in_time e (sint cycle_start) (sint received) timing) \<and>
    (dd_status d = Fresh \<longleftrightarrow> dd_usable d) \<and>
    (dd_status d = WrongCycle \<longleftrightarrow> content_ok e timing \<and> env_target_cycle e \<noteq> cycle) \<and>
    (dd_status d = Late \<longleftrightarrow> content_ok e timing \<and> env_target_cycle e = cycle \<and>
            \<not> in_time e (sint cycle_start) (sint received) timing)"
  unfolding d_def usable_iff_Fresh checkReceivedSample_status [OF assms(1)] by blast

definition demo_timing :: ChannelTiming where
  "demo_timing = ChannelTiming_default\<lparr>tim_publish_deadline_ns := 5000, tim_receive_cutoff_ns := 8000\<rparr>"

definition demo_received :: SampleEnvelope where
  "demo_received =
     SampleEnvelope_default\<lparr>env_target_cycle := 7, env_t_publish_ns := 104000, env_clock_ok := True,
       env_producer_status := ProducerStatus_Success\<rparr>"

theorem deadline_classification_witness:
  "dd_status (checkReceivedSample demo_received 7 100000 108001 demo_timing) = Late \<and>
   dd_usable (checkReceivedSample demo_received 7 100000 108000 demo_timing)"
proof -
  have a: "timing_no_overflow demo_received 100000 demo_timing"
    by (simp add: timing_no_overflow_def demo_received_def demo_timing_def ChannelTiming_default_def
        SampleEnvelope_default_def)
  have c: "content_ok demo_received demo_timing" "env_target_cycle demo_received = 7"
    by (simp_all add: content_ok_def demo_received_def demo_timing_def ChannelTiming_default_def
        SampleEnvelope_default_def crc32c_def)
  have l: "\<not> in_time demo_received (sint (100000 :: i64)) (sint (108001 :: i64)) demo_timing"
    "in_time demo_received (sint (100000 :: i64)) (sint (108000 :: i64)) demo_timing"
    by (simp_all add: in_time_def effective_ttl_def demo_received_def demo_timing_def
        ChannelTiming_default_def SampleEnvelope_default_def)
  show ?thesis
    using deadline_classification [OF a, of 7 108001] deadline_classification [OF a, of 7 108000] c l
    by simp
qed

end
