(* ===== verification/Sample_Buffer.thy ===== *)
theory Sample_Buffer
  imports Envelope_Codec Ordered_Map
begin

text \<open>
  The receive buffer: \<^verbatim>\<open>src/core/sample_buffer.cpp\<close>. Samples are stored per sender, channel and target
  cycle; per stream (sender, channel) the buffer tracks the highest sequence number and the number of
  skipped ones, the last good sample, and keeps at most \<^verbatim>\<open>max_samples_per_key_\<close> samples, evicting the
  oldest target cycle first.

  The three members of type \<^verbatim>\<open>std::map\<close> are ordered maps, so iteration follows key order; the contract
  of \<open>Ordered_Map\<close> carries the proofs. \<^verbatim>\<open>size_t\<close> counts are natural numbers.
\<close>

section \<open>State and operations\<close>

record BufferedSample =
  buf_envelope :: SampleEnvelope
  buf_local_receive_ns :: i64

record BufferAddResult =
  add_status :: SampleStatus
  add_inserted :: bool
  add_duplicate :: bool
  add_seq_gap :: u64
  add_reason :: string

definition BufferAddResult_default :: BufferAddResult where
  "BufferAddResult_default =
     \<lparr>add_status = Fresh, add_inserted = False, add_duplicate = False, add_seq_gap = 0,
      add_reason = ''''\<rparr>"

type_synonym Key = "string \<times> string \<times> u64"
type_synonym StreamKey = "string \<times> string"

record StreamState =
  st_has_seq :: bool
  st_last_seq :: u64
  st_gap_count :: u64

definition StreamState_default :: StreamState where
  "StreamState_default = \<lparr>st_has_seq = False, st_last_seq = 0, st_gap_count = 0\<rparr>"

record SampleBuffer =
  sb_max_samples_per_key :: nat
  sb_samples :: "(Key, BufferedSample) omap"
  sb_last_good :: "(StreamKey, BufferedSample) omap"
  sb_stream_state :: "(StreamKey, StreamState) omap"

definition SampleBuffer_new :: "nat \<Rightarrow> SampleBuffer" where
  "SampleBuffer_new max_samples_per_key =
     \<lparr>sb_max_samples_per_key = max 1 max_samples_per_key, sb_samples = [], sb_last_good = [],
      sb_stream_state = []\<rparr>"

definition key_of :: "SampleEnvelope \<Rightarrow> Key" where
  "key_of e = (env_sender_id e, env_channel e, env_target_cycle e)"

definition stream_of :: "SampleEnvelope \<Rightarrow> StreamKey" where
  "stream_of e = (env_sender_id e, env_channel e)"

definition isGood :: "SampleEnvelope \<Rightarrow> bool" where
  "isGood e \<longleftrightarrow>
     env_clock_ok e \<and> env_producer_status e = ProducerStatus_Success \<and> verifyPayloadCrc e"

definition in_stream :: "StreamKey \<Rightarrow> Key \<Rightarrow> bool" where
  "in_stream stream k \<longleftrightarrow> fst k = fst stream \<and> fst (snd k) = snd stream"

text \<open>The inner loop of \<^verbatim>\<open>pruneStream\<close>; \<open>None\<close> is \<^verbatim>\<open>samples_.end()\<close>.\<close>

fun findOldest :: "StreamKey \<Rightarrow> (Key \<times> BufferedSample) list \<Rightarrow> (Key \<times> BufferedSample) option
    \<Rightarrow> (Key \<times> BufferedSample) option" where
  "findOldest stream [] oldest = oldest"
| "findOldest stream (it # rest) oldest =
     findOldest stream rest
       (if \<not> in_stream stream (fst it) then oldest
        else case oldest of
          None \<Rightarrow> Some it
        | Some cur \<Rightarrow>
            if env_target_cycle (buf_envelope (snd it)) < env_target_cycle (buf_envelope (snd cur))
            then Some it else oldest)"

fun pruneLoop :: "nat \<Rightarrow> nat \<Rightarrow> StreamKey \<Rightarrow> (Key, BufferedSample) omap \<Rightarrow> (Key, BufferedSample) omap"
where
  "pruneLoop mx count stream samples =
     (if count > mx then
        (case findOldest stream samples None of
           None \<Rightarrow> samples
         | Some oldest \<Rightarrow> pruneLoop mx (count - 1) stream (omap_erase (fst oldest) samples))
      else samples)"

declare pruneLoop.simps [simp del]

definition pruneStream :: "StreamKey \<Rightarrow> SampleBuffer \<Rightarrow> SampleBuffer" where
  "pruneStream stream b =
     (let count = length (filter (\<lambda>item. in_stream stream (fst item)) (sb_samples b))
      in b\<lparr>sb_samples := pruneLoop (sb_max_samples_per_key b) count stream (sb_samples b)\<rparr>)"

text \<open>
  \<^verbatim>\<open>add\<close>, split where the code returns early: first the duplicate-sequence check, then the gap
  accounting, then the insertion.
\<close>

definition add_insert :: "SampleEnvelope \<Rightarrow> i64 \<Rightarrow> BufferAddResult \<Rightarrow> StreamState \<Rightarrow> SampleBuffer
    \<Rightarrow> BufferAddResult \<times> SampleBuffer" where
  "add_insert e local_receive_ns result ss b =
     (let stored = \<lparr>buf_envelope = e, buf_local_receive_ns = local_receive_ns\<rparr>;
          result = result\<lparr>add_inserted := True,
            add_status := (if add_seq_gap result > 0 then TransportError else Fresh)\<rparr>;
          ss = (if \<not> st_has_seq ss \<or> env_seq e > st_last_seq ss
                then ss\<lparr>st_has_seq := True, st_last_seq := env_seq e\<rparr> else ss);
          b = b\<lparr>sb_samples := omap_assign (key_of e) stored (sb_samples b),
                sb_stream_state := omap_assign (stream_of e) ss (sb_stream_state b),
                sb_last_good := (if isGood e then omap_assign (stream_of e) stored (sb_last_good b)
                                 else sb_last_good b)\<rparr>
      in (result, pruneStream (stream_of e) b))"

definition buffer_add :: "SampleEnvelope \<Rightarrow> i64 \<Rightarrow> SampleBuffer \<Rightarrow> BufferAddResult \<times> SampleBuffer" where
  "buffer_add e local_receive_ns b =
     (let (ss, states) = omap_ref StreamState_default (stream_of e) (sb_stream_state b);
          b = b\<lparr>sb_stream_state := states\<rparr>
      in if st_has_seq ss \<and> env_seq e = st_last_seq ss then
           (BufferAddResult_default\<lparr>add_status := Duplicate, add_duplicate := True,
              add_reason := ''duplicate seq''\<rparr>, b)
         else
           (let gapped = st_has_seq ss \<and> env_seq e > st_last_seq ss + 1;
                gap = env_seq e - st_last_seq ss - 1;
                result = (if gapped
                  then BufferAddResult_default\<lparr>add_seq_gap := gap, add_reason := ''seq gap''\<rparr>
                  else BufferAddResult_default);
                ss = (if gapped then ss\<lparr>st_gap_count := st_gap_count ss + gap\<rparr> else ss);
                b = b\<lparr>sb_stream_state := omap_assign (stream_of e) ss (sb_stream_state b)\<rparr>
            in case omap_find (sb_samples b) (key_of e) of
                 Some existing \<Rightarrow>
                   if env_seq (buf_envelope existing) = env_seq e then
                     (result\<lparr>add_status := Duplicate, add_duplicate := True,
                        add_reason := ''duplicate sample key''\<rparr>, b)
                   else add_insert e local_receive_ns result ss b
               | None \<Rightarrow> add_insert e local_receive_ns result ss b))"

definition buffer_find :: "SampleBuffer \<Rightarrow> string \<Rightarrow> string \<Rightarrow> u64 \<Rightarrow> BufferedSample option" where
  "buffer_find b peer channel target_cycle = omap_find (sb_samples b) (peer, channel, target_cycle)"

definition getLastGood :: "SampleBuffer \<Rightarrow> string \<Rightarrow> string \<Rightarrow> BufferedSample option" where
  "getLastGood b peer channel = omap_find (sb_last_good b) (peer, channel)"

definition buffer_size :: "SampleBuffer \<Rightarrow> nat" where
  "buffer_size b = length (sb_samples b)"

definition seqGapCount :: "SampleBuffer \<Rightarrow> string \<Rightarrow> string \<Rightarrow> u64" where
  "seqGapCount b peer channel =
     (case omap_find (sb_stream_state b) (peer, channel) of None \<Rightarrow> 0 | Some ss \<Rightarrow> st_gap_count ss)"

section \<open>Pruning\<close>

lemma findOldest_None:
  "findOldest stream xs acc = None \<longleftrightarrow> acc = None \<and> (\<forall>x \<in> set xs. \<not> in_stream stream (fst x))"
  by (induction xs arbitrary: acc) (auto split: option.splits)

lemma findOldest_in:
  "findOldest stream xs acc = Some r \<Longrightarrow>
   acc = Some r \<or> r \<in> set xs \<and> in_stream stream (fst r)"
  by (induction xs arbitrary: acc) (fastforce split: if_splits option.splits)+

abbreviation tc :: "Key \<times> BufferedSample \<Rightarrow> u64" where
  "tc it \<equiv> env_target_cycle (buf_envelope (snd it))"

lemma findOldest_min:
  "findOldest stream xs acc = Some r \<Longrightarrow>
   (\<forall>x \<in> set xs. in_stream stream (fst x) \<longrightarrow> tc r \<le> tc x) \<and> (\<forall>a. acc = Some a \<longrightarrow> tc r \<le> tc a)"
proof (induction xs arbitrary: acc)
  case (Cons x xs)
  show ?case
  proof (cases "in_stream stream (fst x)")
    case False
    with Cons.prems Cons.IH [of acc] show ?thesis by auto
  next
    case True
    then obtain b where b: "findOldest stream xs (Some b) = Some r" "tc b \<le> tc x"
        "\<forall>a. acc = Some a \<longrightarrow> tc b \<le> tc a"
      using Cons.prems by (cases acc) (auto split: if_splits)
    show ?thesis using Cons.IH [OF b(1)] b(2,3) order_trans by fastforce
  qed
qed simp

definition keyed :: "(Key, BufferedSample) omap \<Rightarrow> bool" where
  "keyed m \<longleftrightarrow> (\<forall>(k, s) \<in> set m. key_of (buf_envelope s) = k)"

lemma keyedD: "keyed m \<Longrightarrow> (k, s) \<in> set m \<Longrightarrow> env_target_cycle (buf_envelope s) = snd (snd k)"
  by (auto simp: keyed_def key_of_def)

lemma keyed_erase: "keyed m \<Longrightarrow> keyed (omap_erase k m)"
  by (auto simp: keyed_def omap_erase_def)

lemma keyed_assign: "keyed m \<Longrightarrow> key_of (buf_envelope s) = k \<Longrightarrow> keyed (omap_assign k s m)"
  using set_omap_assign [of k s m] by (fastforce simp: keyed_def)

lemma findOldest_key:
  assumes "keyed m" "omap_wf m" "findOldest stream m None = Some r"
  shows "in_stream stream (fst r)" "omap_find m (fst r) \<noteq> None"
    "\<And>k. k \<in> dom (omap_find m) \<Longrightarrow> in_stream stream k \<Longrightarrow> snd (snd (fst r)) \<le> snd (snd k)"
proof -
  from findOldest_in [OF assms(3)] have r: "r \<in> set m" "in_stream stream (fst r)" by auto
  show "in_stream stream (fst r)" by fact
  show "omap_find m (fst r) \<noteq> None" using r by (metis map_of_eq_None_iff imageI)
  fix k assume "k \<in> dom (omap_find m)" "in_stream stream k"
  then obtain s where s: "(k, s) \<in> set m" using map_of_SomeD by fastforce
  with findOldest_min [OF assms(3)] \<open>in_stream stream k\<close>
  have "tc r \<le> tc (k, s)" by fastforce
  with r s show "snd (snd (fst r)) \<le> snd (snd k)"
    using keyedD [OF assms(1), of "fst r" "snd r"] keyedD [OF assms(1) s] by simp
qed

definition pruned :: "nat \<Rightarrow> StreamKey \<Rightarrow> (Key, BufferedSample) omap \<Rightarrow> (Key, BufferedSample) omap \<Rightarrow> bool"
where
  "pruned mx stream m m' \<longleftrightarrow>
     omap_wf m' \<and> keyed m' \<and> omap_find m' \<subseteq>\<^sub>m omap_find m \<and>
     om.count (in_stream stream) m' = min mx (om.count (in_stream stream) m) \<and>
     (\<forall>k \<in> dom (omap_find m) - dom (omap_find m').
        in_stream stream k \<and>
        (\<forall>k' \<in> dom (omap_find m'). in_stream stream k' \<longrightarrow> snd (snd k) \<le> snd (snd k')))"

lemma pruned_erase:
  assumes p: "pruned mx stream (omap_erase j m) m'" and w: "omap_wf m"
    and j: "in_stream stream j" "omap_find m j \<noteq> None"
    and least: "\<And>k. k \<in> dom (omap_find m) \<Longrightarrow> in_stream stream k \<Longrightarrow> snd (snd j) \<le> snd (snd k)"
    and over: "mx < om.count (in_stream stream) m"
  shows "pruned mx stream m m'"
proof -
  have sub: "omap_find m' \<subseteq>\<^sub>m (omap_find m)(j := None)"
    using p by (simp add: pruned_def)
  have le: "omap_find m' \<subseteq>\<^sub>m omap_find m"
    unfolding map_le_def
  proof
    fix a assume a: "a \<in> dom (omap_find m')"
    with sub have "omap_find m' a = ((omap_find m)(j := None)) a" by (auto simp: map_le_def)
    with a show "omap_find m' a = omap_find m a" by (auto split: if_splits)
  qed
  have c: "om.count (in_stream stream) m' = min mx (om.count (in_stream stream) m)"
    using p over om.count_erase [OF w, of "in_stream stream" j] j by (simp add: pruned_def)
  have d: "in_stream stream k \<and>
      (\<forall>k' \<in> dom (omap_find m'). in_stream stream k' \<longrightarrow> snd (snd k) \<le> snd (snd k'))"
    if k: "k \<in> dom (omap_find m) - dom (omap_find m')" for k
  proof (cases "k = j")
    case True
    with j least map_le_implies_dom_le [OF le] show ?thesis by blast
  next
    case False
    with k have "k \<in> dom (omap_find (omap_erase j m)) - dom (omap_find m')" by auto
    with p show ?thesis unfolding pruned_def by blast
  qed
  from p le c d show ?thesis unfolding pruned_def by blast
qed

lemma pruneLoop_pruned:
  assumes "omap_wf m" "keyed m" "n = om.count (in_stream stream) m"
  shows "pruned mx stream m (pruneLoop mx n stream m)"
  using assms
proof (induction mx n stream m rule: pruneLoop.induct)
  case (1 mx n stream m)
  show ?case
  proof (cases "n > mx")
    case False
    with 1(2-) show ?thesis by (subst pruneLoop.simps) (simp add: pruned_def)
  next
    case True
    have "findOldest stream m None \<noteq> None"
    proof
      assume "findOldest stream m None = None"
      then have "om.count (in_stream stream) m = 0"
        by (auto simp: findOldest_None om.count_def filter_empty_conv)
      with True 1(4) show False by simp
    qed
    then obtain r where r: "findOldest stream m None = Some r" by blast
    note R = findOldest_key [OF 1(3,2) r]
    let ?m = "omap_erase (fst r) m"
    have c: "Suc (om.count (in_stream stream) ?m) = n"
      using om.count_erase [OF 1(2), of "in_stream stream" "fst r"] R 1(4) by simp
    have p: "pruned mx stream ?m (pruneLoop mx (n - 1) stream ?m)"
      by (rule 1(1) [OF True r]) (use 1(2,3) c keyed_erase in auto)
    have "pruned mx stream m (pruneLoop mx (n - 1) stream ?m)"
      by (rule pruned_erase [OF p 1(2) R]) (use True 1(4) in auto)
    with True r show ?thesis by (subst pruneLoop.simps) simp
  qed
qed

section \<open>What one add does\<close>

definition stream_state_of :: "SampleBuffer \<Rightarrow> StreamKey \<Rightarrow> StreamState" where
  "stream_state_of b st =
     (case omap_find (sb_stream_state b) st of Some ss \<Rightarrow> ss | None \<Rightarrow> StreamState_default)"

definition gap_of :: "StreamState \<Rightarrow> u64 \<Rightarrow> u64" where
  "gap_of ss s = (if st_has_seq ss \<and> s > st_last_seq ss + 1 then s - st_last_seq ss - 1 else 0)"

definition seq_known :: "SampleBuffer \<Rightarrow> SampleEnvelope \<Rightarrow> bool" where
  "seq_known b e \<longleftrightarrow>
     (let ss = stream_state_of b (stream_of e) in st_has_seq ss \<and> env_seq e = st_last_seq ss)"

definition key_known :: "SampleBuffer \<Rightarrow> SampleEnvelope \<Rightarrow> bool" where
  "key_known b e \<longleftrightarrow>
     (\<exists>x. omap_find (sb_samples b) (key_of e) = Some x \<and> env_seq (buf_envelope x) = env_seq e)"

abbreviation stored :: "SampleEnvelope \<Rightarrow> i64 \<Rightarrow> BufferedSample" where
  "stored e t \<equiv> \<lparr>buf_envelope = e, buf_local_receive_ns = t\<rparr>"

definition counted :: "StreamState \<Rightarrow> u64 \<Rightarrow> StreamState" where
  "counted ss s = ss\<lparr>st_gap_count := st_gap_count ss + gap_of ss s\<rparr>"

lemma buffer_add_seq_known:
  assumes "seq_known b e"
  shows "buffer_add e t b =
    (BufferAddResult_default\<lparr>add_status := Duplicate, add_duplicate := True, add_reason := ''duplicate seq''\<rparr>,
     b\<lparr>sb_stream_state := snd (omap_ref StreamState_default (stream_of e) (sb_stream_state b))\<rparr>)"
  using assms
  by (simp add: buffer_add_def seq_known_def Let_def case_prod_beta stream_state_of_def omap_ref_fst
      split: option.splits)

definition gap_result :: "u64 \<Rightarrow> bool \<Rightarrow> BufferAddResult" where
  "gap_result g gapped =
     (if gapped then BufferAddResult_default\<lparr>add_seq_gap := g, add_reason := ''seq gap''\<rparr>
      else BufferAddResult_default)"

lemma buffer_add_otherwise:
  assumes "\<not> seq_known b e"
  defines "ss \<equiv> stream_state_of b (stream_of e)"
  defines "r \<equiv> gap_result (gap_of ss (env_seq e)) (st_has_seq ss \<and> env_seq e > st_last_seq ss + 1)"
  defines "b' \<equiv> b\<lparr>sb_stream_state := omap_assign (stream_of e) (counted ss (env_seq e))
      (snd (omap_ref StreamState_default (stream_of e) (sb_stream_state b)))\<rparr>"
  shows "buffer_add e t b =
    (if key_known b e
     then (r\<lparr>add_status := Duplicate, add_duplicate := True, add_reason := ''duplicate sample key''\<rparr>, b')
     else add_insert e t r (counted ss (env_seq e)) b')"
proof -
  have f: "fst (omap_ref StreamState_default (stream_of e) (sb_stream_state b)) = ss"
    by (simp add: ss_def stream_state_of_def omap_ref_fst)
  have s: "\<not> (st_has_seq ss \<and> env_seq e = st_last_seq ss)"
    using assms(1) by (simp add: seq_known_def ss_def Let_def)
  have c: "(if st_has_seq ss \<and> env_seq e > st_last_seq ss + 1
      then ss\<lparr>st_gap_count := st_gap_count ss + (env_seq e - st_last_seq ss - 1)\<rparr> else ss) =
      counted ss (env_seq e)"
    by (simp add: counted_def gap_of_def)
  show ?thesis
    unfolding buffer_add_def Let_def case_prod_beta f if_not_P [OF s] c
    by (auto simp: r_def b'_def key_known_def gap_result_def gap_of_def split: option.splits)
qed

lemma add_insert_simps [simp]:
  "add_inserted (fst (add_insert e t r ss b))"
  "add_duplicate (fst (add_insert e t r ss b)) = add_duplicate r"
  "add_seq_gap (fst (add_insert e t r ss b)) = add_seq_gap r"
  "add_status (fst (add_insert e t r ss b)) = (if add_seq_gap r > 0 then TransportError else Fresh)"
  "sb_max_samples_per_key (snd (add_insert e t r ss b)) = sb_max_samples_per_key b"
  "sb_samples (snd (add_insert e t r ss b)) =
     (let m = omap_assign (key_of e) (stored e t) (sb_samples b)
      in pruneLoop (sb_max_samples_per_key b) (om.count (in_stream (stream_of e)) m) (stream_of e) m)"
  "sb_last_good (snd (add_insert e t r ss b)) =
     (if isGood e then omap_assign (stream_of e) (stored e t) (sb_last_good b) else sb_last_good b)"
  "sb_stream_state (snd (add_insert e t r ss b)) =
     omap_assign (stream_of e)
       (if \<not> st_has_seq ss \<or> env_seq e > st_last_seq ss
        then ss\<lparr>st_has_seq := True, st_last_seq := env_seq e\<rparr> else ss) (sb_stream_state b)"
  by (simp_all add: add_insert_def pruneStream_def Let_def om.count_def)

lemma gap_result_simps [simp]:
  "\<not> add_inserted (gap_result g c)" "\<not> add_duplicate (gap_result g c)"
  "add_seq_gap (gap_result g c) = (if c then g else 0)"
  by (simp_all add: gap_result_def BufferAddResult_default_def)

lemma buffer_add_max [simp]:
  "sb_max_samples_per_key (snd (buffer_add e t b)) = sb_max_samples_per_key b"
  by (cases "seq_known b e") (simp_all add: buffer_add_seq_known buffer_add_otherwise)

lemma buffer_add_duplicate:
  "add_duplicate (fst (buffer_add e t b)) \<longleftrightarrow> seq_known b e \<or> key_known b e"
  by (cases "seq_known b e")
     (simp_all add: buffer_add_seq_known buffer_add_otherwise BufferAddResult_default_def)

lemma buffer_add_inserted:
  "add_inserted (fst (buffer_add e t b)) \<longleftrightarrow> \<not> seq_known b e \<and> \<not> key_known b e"
  by (cases "seq_known b e")
     (simp_all add: buffer_add_seq_known buffer_add_otherwise BufferAddResult_default_def)

lemma buffer_add_seq_gap:
  "\<not> seq_known b e \<Longrightarrow>
   add_seq_gap (fst (buffer_add e t b)) = gap_of (stream_state_of b (stream_of e)) (env_seq e)"
  by (simp add: buffer_add_otherwise gap_of_def)

lemma buffer_add_samples:
  "sb_samples (snd (buffer_add e t b)) =
     (if seq_known b e \<or> key_known b e then sb_samples b
      else let m = omap_assign (key_of e) (stored e t) (sb_samples b)
           in pruneLoop (sb_max_samples_per_key b) (om.count (in_stream (stream_of e)) m) (stream_of e) m)"
  by (cases "seq_known b e") (simp_all add: buffer_add_seq_known buffer_add_otherwise)

lemma buffer_add_last_good:
  "sb_last_good (snd (buffer_add e t b)) =
     (if seq_known b e \<or> key_known b e \<or> \<not> isGood e then sb_last_good b
      else omap_assign (stream_of e) (stored e t) (sb_last_good b))"
  by (cases "seq_known b e") (simp_all add: buffer_add_seq_known buffer_add_otherwise)

definition advanced :: "SampleBuffer \<Rightarrow> SampleEnvelope \<Rightarrow> StreamState" where
  "advanced b e =
     (let ss = stream_state_of b (stream_of e); ss' = counted ss (env_seq e)
      in if seq_known b e then ss
         else if \<not> key_known b e \<and> (\<not> st_has_seq ss \<or> env_seq e > st_last_seq ss)
         then ss'\<lparr>st_has_seq := True, st_last_seq := env_seq e\<rparr> else ss')"

lemma buffer_add_stream_state:
  "omap_find (sb_stream_state (snd (buffer_add e t b))) =
     (omap_find (sb_stream_state b))(stream_of e \<mapsto> advanced b e)"
proof (cases "seq_known b e")
  case True
  then show ?thesis
    by (simp add: buffer_add_seq_known omap_ref_snd omap_ref_fst advanced_def stream_state_of_def)
next
  case False
  then show ?thesis
    by (auto simp: buffer_add_otherwise omap_ref_snd advanced_def counted_def Let_def)
qed

lemma stream_state_add:
  "stream_state_of (snd (buffer_add e t b)) st =
     (if st = stream_of e then advanced b e else stream_state_of b st)"
  by (simp add: stream_state_of_def buffer_add_stream_state)

lemma buffer_add_wf:
  assumes "omap_wf (sb_last_good b)" "omap_wf (sb_stream_state b)"
  shows "omap_wf (sb_last_good (snd (buffer_add e t b)))"
    "omap_wf (sb_stream_state (snd (buffer_add e t b)))"
proof -
  show "omap_wf (sb_last_good (snd (buffer_add e t b)))"
    using assms by (simp add: buffer_add_last_good)
  show "omap_wf (sb_stream_state (snd (buffer_add e t b)))"
    using assms by (cases "seq_known b e") (simp_all add: buffer_add_seq_known buffer_add_otherwise)
qed

section \<open>Invariant\<close>

definition recorded :: "SampleBuffer \<Rightarrow> BufferedSample \<Rightarrow> bool" where
  "recorded b s \<longleftrightarrow>
     (let ss = stream_state_of b (stream_of (buf_envelope s))
      in st_has_seq ss \<and> env_seq (buf_envelope s) \<le> st_last_seq ss)"

definition buffer_inv :: "SampleBuffer \<Rightarrow> bool" where
  "buffer_inv b \<longleftrightarrow>
     1 \<le> sb_max_samples_per_key b \<and>
     omap_wf (sb_samples b) \<and> omap_wf (sb_last_good b) \<and> omap_wf (sb_stream_state b) \<and>
     keyed (sb_samples b) \<and>
     (\<forall>st. om.count (in_stream st) (sb_samples b) \<le> sb_max_samples_per_key b) \<and>
     (\<forall>k s. omap_find (sb_samples b) k = Some s \<longrightarrow> recorded b s) \<and>
     (\<forall>st s. omap_find (sb_last_good b) st = Some s \<longrightarrow>
        stream_of (buf_envelope s) = st \<and> isGood (buf_envelope s) \<and> recorded b s)"

lemma buffer_invD:
  assumes "buffer_inv b"
  shows "1 \<le> sb_max_samples_per_key b" "omap_wf (sb_samples b)" "omap_wf (sb_last_good b)"
    "omap_wf (sb_stream_state b)" "keyed (sb_samples b)"
    "om.count (in_stream st) (sb_samples b) \<le> sb_max_samples_per_key b"
    "omap_find (sb_samples b) k = Some s \<Longrightarrow> recorded b s"
    "omap_find (sb_last_good b) st = Some s \<Longrightarrow>
       stream_of (buf_envelope s) = st \<and> isGood (buf_envelope s) \<and> recorded b s"
  using assms unfolding buffer_inv_def by blast+

lemma buffer_inv_new: "buffer_inv (SampleBuffer_new n)"
  by (simp add: buffer_inv_def SampleBuffer_new_def keyed_def om.count_def)

lemma advanced_mono:
  assumes "st_has_seq (stream_state_of b (stream_of e))"
  shows "st_has_seq (advanced b e)" "st_last_seq (stream_state_of b (stream_of e)) \<le> st_last_seq (advanced b e)"
  using assms by (auto simp: advanced_def counted_def Let_def)

lemma recorded_add: "recorded b s \<Longrightarrow> recorded (snd (buffer_add e t b)) s"
  using advanced_mono [of b e] by (auto simp: recorded_def stream_state_add Let_def)

lemma recorded_new:
  "\<not> seq_known b e \<Longrightarrow> \<not> key_known b e \<Longrightarrow> recorded (snd (buffer_add e t b)) (stored e t)"
  by (auto simp: recorded_def stream_state_add advanced_def counted_def Let_def)

lemma add_pruned:
  assumes "buffer_inv b" "\<not> seq_known b e" "\<not> key_known b e"
  shows "pruned (sb_max_samples_per_key b) (stream_of e)
    (omap_assign (key_of e) (stored e t) (sb_samples b)) (sb_samples (snd (buffer_add e t b)))"
  using buffer_invD(2,5) [OF assms(1)] assms(2,3)
  by (simp add: buffer_add_samples Let_def pruneLoop_pruned keyed_assign)

lemma in_stream_key_of [simp]: "in_stream st (key_of e) \<longleftrightarrow> st = stream_of e"
  by (auto simp: in_stream_def key_of_def stream_of_def prod_eq_iff)

lemma in_stream_unique: "in_stream st k \<Longrightarrow> in_stream st' k \<Longrightarrow> st = st'"
  by (auto simp: in_stream_def prod_eq_iff)

lemma pruned_other:
  assumes "pruned mx st m m'" "omap_wf m" "\<not> in_stream st k"
  shows "omap_find m' k = omap_find m k"
proof (cases "k \<in> dom (omap_find m')")
  case True
  with assms(1) show ?thesis by (auto simp: pruned_def map_le_def)
next
  case False
  then have "k \<notin> dom (omap_find m)" using assms unfolding pruned_def by blast
  with False show ?thesis by (simp add: domIff)
qed

lemma pruned_count_other:
  assumes "pruned mx st m m'" "omap_wf m" "st' \<noteq> st"
  shows "om.count (in_stream st') m' = om.count (in_stream st') m"
proof -
  have "in_stream st' k \<Longrightarrow> omap_find m' k = omap_find m k" for k
    using pruned_other [OF assms(1,2)] in_stream_unique assms(3) by blast
  then have "{k \<in> dom (omap_find m'). in_stream st' k} = {k \<in> dom (omap_find m). in_stream st' k}"
    by auto
  with assms show ?thesis by (simp add: om.count_card pruned_def)
qed

lemma add_count:
  assumes "buffer_inv b"
  shows "om.count (in_stream st) (sb_samples (snd (buffer_add e t b))) \<le> sb_max_samples_per_key b"
proof (cases "seq_known b e \<or> key_known b e")
  case True
  then show ?thesis using buffer_invD(6) [OF assms] by (simp add: buffer_add_samples)
next
  case False
  then have p: "pruned (sb_max_samples_per_key b) (stream_of e)
    (omap_assign (key_of e) (stored e t) (sb_samples b)) (sb_samples (snd (buffer_add e t b)))"
    using add_pruned [OF assms] by simp
  show ?thesis
  proof (cases "st = stream_of e")
    case True
    with p show ?thesis by (simp add: pruned_def)
  next
    case False
    with pruned_count_other [OF p, of st] buffer_invD(2,6) [OF assms] show ?thesis
      by (simp add: om.count_assign)
  qed
qed

lemma add_find_samples:
  assumes "buffer_inv b" "omap_find (sb_samples (snd (buffer_add e t b))) k = Some s"
  shows "omap_find (sb_samples b) k = Some s \<or>
    s = stored e t \<and> k = key_of e \<and> \<not> seq_known b e \<and> \<not> key_known b e"
proof (cases "seq_known b e \<or> key_known b e")
  case True
  with assms(2) show ?thesis by (simp add: buffer_add_samples)
next
  case False
  then have "omap_find (sb_samples (snd (buffer_add e t b))) \<subseteq>\<^sub>m
      (omap_find (sb_samples b))(key_of e \<mapsto> stored e t)"
    using add_pruned [OF assms(1), of e t] by (simp add: pruned_def)
  with assms(2) have "((omap_find (sb_samples b))(key_of e \<mapsto> stored e t)) k = Some s"
    unfolding map_le_def by (metis domI)
  with False show ?thesis by (auto split: if_splits)
qed

lemma buffer_inv_add [invar_intros]:
  assumes "buffer_inv b"
  shows "buffer_inv (snd (buffer_add e t b))"
proof -
  note I = buffer_invD [OF assms]
  have "omap_wf (sb_samples (snd (buffer_add e t b))) \<and> keyed (sb_samples (snd (buffer_add e t b)))"
    using I(2,5) add_pruned [OF assms, of e t] by (auto simp: buffer_add_samples pruned_def)
  moreover have "recorded (snd (buffer_add e t b)) s"
    if "omap_find (sb_samples (snd (buffer_add e t b))) k = Some s" for k s
    using add_find_samples [OF assms that] I(7) recorded_add recorded_new by blast
  moreover have "stream_of (buf_envelope s) = st \<and> isGood (buf_envelope s) \<and>
      recorded (snd (buffer_add e t b)) s"
    if "omap_find (sb_last_good (snd (buffer_add e t b))) st = Some s" for st s
    using that I(8) [of st s] recorded_add recorded_new
    by (auto simp: buffer_add_last_good split: if_splits)
  ultimately show ?thesis
    using I(1,3,4) add_count [OF assms] buffer_add_wf [OF I(3,4)]
    unfolding buffer_inv_def by simp
qed

section \<open>Receive histories\<close>

text \<open>A buffer in service is a fresh one to which the received samples were added in arrival order.\<close>

fun buffer_run :: "SampleBuffer \<Rightarrow> (SampleEnvelope \<times> i64) list \<Rightarrow> SampleBuffer" where
  "buffer_run b [] = b"
| "buffer_run b ((e, t) # h) = buffer_run (snd (buffer_add e t b)) h"

lemma buffer_run_append: "buffer_run b (h @ h') = buffer_run (buffer_run b h) h'"
  by (induction b h rule: buffer_run.induct) simp_all

lemma buffer_run_snoc: "buffer_run b (h @ [(e, t)]) = snd (buffer_add e t (buffer_run b h))"
  by (simp add: buffer_run_append)

lemma buffer_inv_run [invar_intros]: "buffer_inv b \<Longrightarrow> buffer_inv (buffer_run b h)"
  by (induction b h rule: buffer_run.induct) (simp_all add: buffer_inv_add)

lemma buffer_run_max [simp]: "sb_max_samples_per_key (buffer_run b h) = sb_max_samples_per_key b"
  by (induction b h rule: buffer_run.induct) simp_all

lemma buffer_run_from:
  "omap_find (sb_samples (buffer_run (SampleBuffer_new n) h)) k = Some s \<Longrightarrow>
     (buf_envelope s, buf_local_receive_ns s) \<in> set h"
  "omap_find (sb_last_good (buffer_run (SampleBuffer_new n) h)) st = Some s \<Longrightarrow>
     (buf_envelope s, buf_local_receive_ns s) \<in> set h"
proof (induction h rule: rev_induct)
  case (snoc x h)
  obtain e t where x: "x = (e, t)" by (cases x)
  have i: "buffer_inv (buffer_run (SampleBuffer_new n) h)" by (intro buffer_inv_run buffer_inv_new)
  {
    case 1
    with snoc(1) add_find_samples [OF i, of e t k s] show ?case
      by (auto simp: x buffer_run_snoc)
  next
    case 2
    with snoc(2) show ?case
      by (auto simp: x buffer_run_snoc buffer_add_last_good split: if_splits)
  }
qed (simp_all add: SampleBuffer_new_def)

definition cycles :: "SampleBuffer \<Rightarrow> string \<Rightarrow> string \<Rightarrow> u64 set" where
  "cycles b peer channel = {c. buffer_find b peer channel c \<noteq> None}"

lemma cycles_code [code]:
  "cycles b p ch = set (map (\<lambda>x. snd (snd (fst x))) (filter (\<lambda>x. in_stream (p, ch) (fst x)) (sb_samples b)))"
proof -
  have "buffer_find b p ch c \<noteq> None \<longleftrightarrow> (p, ch, c) \<in> fst ` set (sb_samples b)" for c
    by (simp add: buffer_find_def map_of_eq_None_iff)
  then show ?thesis by (force simp: cycles_def in_stream_def)
qed

lemma cycles_count:
  assumes "omap_wf (sb_samples b)"
  shows "finite (cycles b p ch)" "card (cycles b p ch) = om.count (in_stream (p, ch)) (sb_samples b)"
proof -
  have e: "{k \<in> dom (omap_find (sb_samples b)). in_stream (p, ch) k} = (\<lambda>c. (p, ch, c)) ` cycles b p ch"
    by (auto simp: cycles_def buffer_find_def in_stream_def dom_def image_def)
  have j: "inj_on (\<lambda>c. (p, ch, c)) (cycles b p ch)" by (simp add: inj_on_def)
  show "finite (cycles b p ch)"
    using om.finite_dom [OF assms] e finite_imageD [OF _ j] by (metis (no_types, lifting) finite_subset mem_Collect_eq subsetI)
  show "card (cycles b p ch) = om.count (in_stream (p, ch)) (sb_samples b)"
    using card_image [OF j] e assms by (simp add: om.count_card)
qed

text \<open>
  C17. What the buffer returns. After any sequence of received samples, a buffer created with bound n
  holds at most max(1, n) samples of each sender and channel; a sample found for a sender, channel and
  cycle was received, with that receive time, and carries exactly that sender, channel and target
  cycle; and the last good sample of a stream is a received sample of that stream with a good clock,
  producer status success and a payload matching its CRC.
\<close>
theorem buffer_sound:
  fixes n h
  defines "b \<equiv> buffer_run (SampleBuffer_new n) h"
  shows "card (cycles b p ch) \<le> max 1 n \<and>
    (buffer_find b p ch c = Some s \<longrightarrow>
       (buf_envelope s, buf_local_receive_ns s) \<in> set h \<and> key_of (buf_envelope s) = (p, ch, c)) \<and>
    (getLastGood b p ch = Some g \<longrightarrow>
       (buf_envelope g, buf_local_receive_ns g) \<in> set h \<and> stream_of (buf_envelope g) = (p, ch) \<and>
       isGood (buf_envelope g))"
proof -
  have i: "buffer_inv b" unfolding b_def by (intro buffer_inv_run buffer_inv_new)
  note I = buffer_invD [OF i]
  have "card (cycles b p ch) \<le> max 1 n"
    using cycles_count(2) [OF I(2)] I(6) [of "(p, ch)"] by (simp add: b_def SampleBuffer_new_def)
  moreover have "key_of (buf_envelope s) = (p, ch, c)" if "buffer_find b p ch c = Some s"
    using that I(5) by (auto simp: buffer_find_def keyed_def dest!: map_of_SomeD)
  ultimately show ?thesis
    using I(8) [of "(p, ch)" g] buffer_run_from [of n h]
    by (auto simp: buffer_find_def getLastGood_def b_def)
qed

lemma pruned_le:
  "pruned mx st m m' \<Longrightarrow> k \<in> dom (omap_find m) - dom (omap_find m') \<Longrightarrow> k' \<in> dom (omap_find m') \<Longrightarrow>
   in_stream st k' \<Longrightarrow> snd (snd k) \<le> snd (snd k')"
  unfolding pruned_def by blast

lemma pruned_one:
  fixes S S' :: "u64 set"
  assumes f: "finite S" "S' \<subseteq> S" and c: "card S' = min mx (card S)" "card S \<le> Suc mx"
    and old: "\<And>x y. x \<in> S - S' \<Longrightarrow> y \<in> S' \<Longrightarrow> x \<le> y"
  shows "S' = (if card S > mx then S - {Min S} else S)"
proof (cases "card S > mx")
  case False
  with f c show ?thesis by (simp add: card_subset_eq)
next
  case True
  with c have "card (S - S') = 1" using f by (simp add: card_Diff_subset finite_subset)
  then obtain x where x: "S - S' = {x}" by (auto simp: card_1_singleton_iff)
  have "Min S = x"
  proof (rule Min_eqI)
    fix y assume "y \<in> S"
    then show "x \<le> y" using old [of x y] x by (cases "y \<in> S'") auto
  qed (use f x in auto)
  with True x f show ?thesis by auto
qed

lemma pruned_cycles:
  assumes w: "omap_wf (sb_samples a)" and p: "pruned mx (who, ch) (sb_samples a) (sb_samples a')"
    and le: "card (cycles a who ch) \<le> Suc mx"
  shows "cycles a' who ch =
    (if card (cycles a who ch) > mx then cycles a who ch - {Min (cycles a who ch)} else cycles a who ch)"
proof (rule pruned_one [OF _ _ _ le])
  show "finite (cycles a who ch)" using cycles_count(1) [OF w] .
  show "card (cycles a' who ch) = min mx (card (cycles a who ch))"
    using cycles_count(2) [of a'] cycles_count(2) [OF w] p by (simp add: pruned_def)
  show "cycles a' who ch \<subseteq> cycles a who ch"
    using p map_le_implies_dom_le [of "omap_find (sb_samples a')" "omap_find (sb_samples a)"]
    by (auto simp: cycles_def buffer_find_def pruned_def subset_iff dom_def)
  fix x y assume "x \<in> cycles a who ch - cycles a' who ch" "y \<in> cycles a' who ch"
  then have "(who, ch, x) \<in> dom (omap_find (sb_samples a)) - dom (omap_find (sb_samples a'))"
    "(who, ch, y) \<in> dom (omap_find (sb_samples a'))" by (auto simp: cycles_def buffer_find_def)
  from pruned_le [OF p this] show "x \<le> y" by (simp add: in_stream_def)
qed

text \<open>
  C4. What an accepted sample does to the buffer. When the sample is not a duplicate, the cycles
  buffered for its stream afterwards are the previous ones and its own target cycle, less the smallest
  of them when that exceeds the bound; its own cycle, if kept, holds exactly this sample with its
  receive time, the other kept cycles hold what they held before, and other streams are untouched.
\<close>
theorem buffer_add_evicts_oldest:
  assumes reach: "b = buffer_run (SampleBuffer_new n) h"
    and fresh: "\<not> add_duplicate (fst (buffer_add e t b))"
  defines "b' \<equiv> snd (buffer_add e t b)"
  defines "S \<equiv> insert (env_target_cycle e) (cycles b (env_sender_id e) (env_channel e))"
  shows "cycles b' (env_sender_id e) (env_channel e) = (if card S > max 1 n then S - {Min S} else S) \<and>
    (\<forall>p ch c s. buffer_find b' p ch c = Some s \<longrightarrow>
        s = (if (p, ch, c) = key_of e then stored e t else the (buffer_find b p ch c))) \<and>
    (\<forall>p ch c. (p, ch) \<noteq> stream_of e \<longrightarrow> buffer_find b' p ch c = buffer_find b p ch c)"
proof -
  have i: "buffer_inv b" unfolding reach by (intro buffer_inv_run buffer_inv_new)
  have mx: "sb_max_samples_per_key b = max 1 n" by (simp add: reach SampleBuffer_new_def)
  let ?m = "omap_assign (key_of e) (stored e t) (sb_samples b)"
  let ?C = "\<lambda>b. cycles b (env_sender_id e) (env_channel e)"
  have w: "omap_wf ?m" "omap_wf (sb_samples b)" using buffer_invD(2) [OF i] by simp_all
  have p: "pruned (max 1 n) (stream_of e) ?m (sb_samples b')"
    using add_pruned [OF i] fresh by (simp add: buffer_add_duplicate b'_def mx)
  have S: "S = ?C (b\<lparr>sb_samples := ?m\<rparr>)"
    by (auto simp: S_def cycles_def buffer_find_def key_of_def)
  have st: "stream_of e = (env_sender_id e, env_channel e)" by (simp add: stream_of_def)
  have "card S = om.count (in_stream (stream_of e)) ?m"
    using cycles_count(2) [of "b\<lparr>sb_samples := ?m\<rparr>" "env_sender_id e" "env_channel e"] w by (simp add: S st)
  then have le: "card S \<le> Suc (max 1 n)"
    using buffer_invD(6) [OF i, of "stream_of e"] w by (simp add: om.count_assign mx)
  have "?C b' = (if card S > max 1 n then S - {Min S} else S)"
    using pruned_cycles [of "b\<lparr>sb_samples := ?m\<rparr>"] w(1) p le unfolding S st by simp
  moreover have "s = (if (p, ch, c) = key_of e then stored e t else the (buffer_find b p ch c))"
    if "buffer_find b' p ch c = Some s" for p ch c s
  proof -
    have "omap_find ?m (p, ch, c) = Some s"
      using that p unfolding pruned_def map_le_def buffer_find_def by (metis domI)
    then show ?thesis by (auto simp: buffer_find_def split: if_splits)
  qed
  moreover have "buffer_find b' p' ch c = buffer_find b p' ch c" if "(p', ch) \<noteq> stream_of e" for p' ch c
    using pruned_other [OF p w(1), of "(p', ch, c)"] that
    by (auto simp: buffer_find_def in_stream_def key_of_def stream_of_def)
  ultimately show ?thesis by blast
qed

section \<open>In-order streams\<close>

definition stream_history :: "StreamKey \<Rightarrow> (SampleEnvelope \<times> i64) list \<Rightarrow> (SampleEnvelope \<times> i64) list" where
  "stream_history st h = filter (\<lambda>x. stream_of (fst x) = st) h"

lemma stream_history_snoc:
  "stream_history st (h @ [(e, t)]) =
     (if stream_of e = st then stream_history st h @ [(e, t)] else stream_history st h)"
  by (simp add: stream_history_def)

definition in_order :: "(SampleEnvelope \<times> i64) list \<Rightarrow> bool" where
  "in_order h = sorted_wrt (<) (map (env_seq \<circ> fst) h)"

lemma gap_of_in_order:
  assumes "st_has_seq ss" "st_last_seq ss < s"
  shows "unat (gap_of ss s) = unat s - unat (st_last_seq ss) - 1"
proof -
  let ?l = "st_last_seq ss"
  have u: "unat (?l + 1) = Suc (unat ?l)" by (rule unat_Suc_less [OF assms(2)])
  have le: "?l + 1 \<le> s" using assms(2) by (simp add: word_le_nat_alt word_less_nat_alt u)
  show ?thesis
  proof (cases "s > ?l + 1")
    case True
    then show ?thesis using assms le unat_sub [OF le] u by (simp add: gap_of_def diff_diff_eq)
  next
    case False
    with le have "s = ?l + 1" by auto
    with u show ?thesis by (simp add: gap_of_def)
  qed
qed

definition last_good_of :: "(SampleEnvelope \<times> i64) list \<Rightarrow> BufferedSample option" where
  "last_good_of h =
     (let gs = filter (\<lambda>x. isGood (fst x)) h
      in if gs = [] then None else Some (stored (fst (last gs)) (snd (last gs))))"

definition tracks :: "SampleBuffer \<Rightarrow> StreamKey \<Rightarrow> (SampleEnvelope \<times> i64) list \<Rightarrow> bool" where
  "tracks b st h \<longleftrightarrow>
     (let ss = stream_state_of b st
      in omap_find (sb_last_good b) st = last_good_of h \<and>
         (if h = [] then \<not> st_has_seq ss \<and> st_gap_count ss = 0
          else st_has_seq ss \<and> st_last_seq ss = env_seq (fst (last h)) \<and>
               unat (st_gap_count ss) + length h + unat (env_seq (fst (hd h))) =
                 Suc (unat (env_seq (fst (last h))))))"

lemma in_order_snoc:
  "in_order (h @ [(e, t)]) \<Longrightarrow> in_order h \<and> (h \<noteq> [] \<longrightarrow> env_seq (fst (last h)) < env_seq e)"
  by (auto simp: in_order_def sorted_wrt_append)

lemma tracks_add_same:
  assumes i: "buffer_inv b" and t: "tracks b (stream_of e) h" and o: "in_order (h @ [(e, ts)])"
  shows "tracks (snd (buffer_add e ts b)) (stream_of e) (h @ [(e, ts)])"
proof -
  let ?ss = "stream_state_of b (stream_of e)"
  have new: "st_has_seq ?ss \<longrightarrow> st_last_seq ?ss < env_seq e"
    using t in_order_snoc [OF o] by (auto simp: tracks_def Let_def split: if_splits)
  then have n1: "\<not> seq_known b e" by (auto simp: seq_known_def Let_def)
  have n2: "\<not> key_known b e"
  proof
    assume "key_known b e"
    then obtain x where x: "omap_find (sb_samples b) (key_of e) = Some x"
        "env_seq (buf_envelope x) = env_seq e" by (auto simp: key_known_def)
    then have "key_of (buf_envelope x) = key_of e"
      using buffer_invD(5) [OF i] by (auto simp: keyed_def dest!: map_of_SomeD)
    then have "stream_of (buf_envelope x) = stream_of e" by (simp add: key_of_def stream_of_def)
    with buffer_invD(7) [OF i x(1)] x(2) new show False
      by (auto simp: recorded_def Let_def)
  qed
  have adv: "advanced b e = (counted ?ss (env_seq e))\<lparr>st_has_seq := True, st_last_seq := env_seq e\<rparr>"
    using n1 n2 new by (auto simp: advanced_def Let_def)
  have g: "omap_find (sb_last_good (snd (buffer_add e ts b))) (stream_of e) = last_good_of (h @ [(e, ts)])"
    using t n1 n2 by (auto simp: buffer_add_last_good last_good_of_def tracks_def Let_def)
  have "unat (st_gap_count (advanced b e)) + length (h @ [(e, ts)]) +
      unat (env_seq (fst (hd (h @ [(e, ts)])))) = Suc (unat (env_seq e))"
  proof (cases "h = []")
    case True
    with t show ?thesis by (simp add: adv counted_def gap_of_def tracks_def Let_def)
  next
    case False
    have hs: "st_has_seq ?ss" and c: "unat (st_gap_count ?ss) + length h + unat (env_seq (fst (hd h))) =
        Suc (unat (st_last_seq ?ss))"
      using t False by (auto simp: tracks_def Let_def)
    then have l: "unat (st_last_seq ?ss) < unat (env_seq e)" and
        gap: "unat (gap_of ?ss (env_seq e)) = unat (env_seq e) - unat (st_last_seq ?ss) - 1"
      using new gap_of_in_order by (auto simp: word_less_nat_alt)
    have "0 < length h" using False by simp
    with c l gap have "unat (st_gap_count ?ss) + unat (gap_of ?ss (env_seq e)) \<le> unat (env_seq e)"
      by linarith
    then have "unat (st_gap_count (advanced b e)) =
        unat (st_gap_count ?ss) + unat (gap_of ?ss (env_seq e))"
      using unat_add_u64 unat_u64_lt [of "env_seq e"] by (simp add: adv counted_def)
    with c gap l False show ?thesis by simp
  qed
  with g show ?thesis by (simp add: tracks_def stream_state_add adv)
qed

lemma tracks_add_other:
  "st \<noteq> stream_of e \<Longrightarrow> tracks (snd (buffer_add e ts b)) st h = tracks b st h"
  by (simp add: tracks_def stream_state_add buffer_add_last_good)

lemma tracks_run:
  "in_order (stream_history st h) \<Longrightarrow>
   tracks (buffer_run (SampleBuffer_new n) h) st (stream_history st h)"
proof (induction h rule: rev_induct)
  case Nil
  then show ?case
    by (simp add: tracks_def stream_history_def stream_state_of_def SampleBuffer_new_def
        StreamState_default_def last_good_of_def)
next
  case (snoc x h)
  obtain e t where x: "x = (e, t)" by (cases x)
  have i: "buffer_inv (buffer_run (SampleBuffer_new n) h)" by (intro buffer_inv_run buffer_inv_new)
  show ?case
  proof (cases "stream_of e = st")
    case True
    with snoc i show ?thesis
      using in_order_snoc [of "stream_history st h" e t] tracks_add_same
      by (auto simp: x buffer_run_snoc stream_history_snoc)
  next
    case False
    with snoc show ?thesis by (simp add: x buffer_run_snoc stream_history_snoc tracks_add_other)
  qed
qed

text \<open>
  C13. Loss accounting and last good sample of an in-order stream. However the streams of different
  peers interleave, if the samples received from one sender on one channel have strictly increasing
  sequence numbers, then the reported gap count plus the number of received samples is the length of
  the sequence interval from the first to the last received number (so the gap count is exactly the
  number of lost samples), and the last good sample is the latest received good one, with its receive
  time.
\<close>
theorem in_order_stream_accounting:
  fixes n h
  defines "b \<equiv> buffer_run (SampleBuffer_new n) h"
  assumes "stream_history (peer, channel) h = (e1, t1) # rest"
    and "in_order ((e1, t1) # rest)"
  shows "unat (seqGapCount b peer channel) + length ((e1, t1) # rest) =
      unat (env_seq (fst (last ((e1, t1) # rest)))) - unat (env_seq e1) + 1 \<and>
    getLastGood b peer channel = last_good_of ((e1, t1) # rest)"
proof -
  have t: "tracks b (peer, channel) ((e1, t1) # rest)"
    using tracks_run [of "(peer, channel)" h n] assms(2,3) by (simp add: b_def)
  have "seqGapCount b peer channel = st_gap_count (stream_state_of b (peer, channel))"
    by (simp add: seqGapCount_def stream_state_of_def StreamState_default_def split: option.splits)
  with t show ?thesis by (auto simp: tracks_def getLastGood_def Let_def)
qed

section \<open>Witnesses\<close>

definition demo_sample :: "u64 \<Rightarrow> u64 \<Rightarrow> SampleEnvelope" where
  "demo_sample s c =
     SampleEnvelope_default\<lparr>env_sender_id := ''u1'', env_channel := ''pose'', env_seq := s,
       env_target_cycle := c, env_clock_ok := True, env_producer_status := ProducerStatus_Success\<rparr>"

definition demo_history :: "(SampleEnvelope \<times> i64) list" where
  "demo_history = [(demo_sample 1 5, 100), (demo_sample 4 6, 200)]"

lemma demo_good: "isGood (demo_sample s c)"
  by (simp add: isGood_def demo_sample_def SampleEnvelope_default_def verifyPayloadCrc_def
      crc32c_def)

lemma demo_stream: "stream_of (demo_sample s c) = (''u1'', ''pose'')" "env_seq (demo_sample s c) = s"
  by (simp_all add: stream_of_def demo_sample_def)

theorem buffer_sound_witness:
  "(demo_sample 4 6, 200) \<in> set demo_history \<and> key_of (demo_sample 4 6) = (''u1'', ''pose'', 6)"
proof -
  have "buffer_find (buffer_run (SampleBuffer_new 2) demo_history) ''u1'' ''pose'' 6 =
    Some (stored (demo_sample 4 6) 200)"
    by code_simp
  with buffer_sound [of 2 demo_history "''u1''" "''pose''" 6 "stored (demo_sample 4 6) 200"]
  show ?thesis by simp
qed

theorem buffer_add_evicts_oldest_witness:
  "cycles (snd (buffer_add (demo_sample 5 7) 300 (buffer_run (SampleBuffer_new 2) demo_history)))
     ''u1'' ''pose'' = {6, 7}"
proof -
  let ?b = "buffer_run (SampleBuffer_new 2) demo_history"
  have n: "\<not> add_duplicate (fst (buffer_add (demo_sample 5 7) 300 ?b))" by code_simp
  have c: "cycles ?b ''u1'' ''pose'' = {5, 6}" by code_simp
  have m: "Min {7, 5, 6 :: u64} = 5" by code_simp
  have s: "env_sender_id (demo_sample 5 7) = ''u1''" "env_channel (demo_sample 5 7) = ''pose''"
      "env_target_cycle (demo_sample 5 7) = 7"
    by (simp_all add: demo_sample_def)
  have d: "(if card {7, 5, 6 :: u64} > max 1 2 then {7, 5, 6 :: u64} - {5} else {7, 5, 6}) = {6, 7}"
    by auto
  show ?thesis
    by (rule trans [OF buffer_add_evicts_oldest [OF refl n, THEN conjunct1, unfolded s c m] d])
qed

theorem in_order_stream_accounting_witness:
  "seqGapCount (buffer_run (SampleBuffer_new 2) demo_history) ''u1'' ''pose'' = 2 \<and>
   getLastGood (buffer_run (SampleBuffer_new 2) demo_history) ''u1'' ''pose'' =
     Some (stored (demo_sample 4 6) 200)"
proof -
  have h: "stream_history (''u1'', ''pose'') demo_history =
      (demo_sample 1 5, 100) # [(demo_sample 4 6, 200)]"
    by (simp add: stream_history_def demo_history_def demo_stream)
  have o: "in_order ((demo_sample 1 5, 100) # [(demo_sample 4 6, 200)])"
    by (simp add: in_order_def demo_stream)
  from in_order_stream_accounting [OF h o, of 2]
  have "unat (seqGapCount (buffer_run (SampleBuffer_new 2) demo_history) ''u1'' ''pose'') = 2"
    "getLastGood (buffer_run (SampleBuffer_new 2) demo_history) ''u1'' ''pose'' =
     Some (stored (demo_sample 4 6) 200)"
    by (simp_all add: demo_stream last_good_of_def demo_good)
  then show ?thesis by (simp add: word_unat_eq_iff)
qed

end
