(* ===== verification/Snapshot_Builder.thy ===== *)
theory Snapshot_Builder
  imports Deadline_Checker Sample_Buffer
begin

text \<open>
  \<^verbatim>\<open>src/core/snapshot_builder.cpp\<close> and \<^verbatim>\<open>include/swarm_sync_core/cycle_snapshot.hpp\<close>: for each expected
  peer and channel of a cycle, look the sample up in the receive buffer, classify it and account for it.

  The builder relies on one promise of the buffer, that a sample found under a key carries that key;
  the locale \<open>sample_source\<close> states it and the receive buffer discharges it.
\<close>

section \<open>Data\<close>

record PeerSampleView =
  view_peer_id :: string
  view_channel :: string
  view_status :: SampleStatus
  view_sample :: "SampleEnvelope option"
  view_expected_target_cycle :: u64
  view_received_target_cycle :: u64
  view_t_local_receive_ns :: i64
  view_receive_latency_ns :: i64
  view_fresh_for_this_cycle :: bool
  view_late_for_this_cycle :: bool
  view_duplicate :: bool
  view_wrong_cycle :: bool
  view_bad_schema :: bool
  view_bad_crc :: bool
  view_sender_clock_bad :: bool
  view_drop_reason :: string

definition PeerSampleView_default :: PeerSampleView where
  "PeerSampleView_default =
     \<lparr>view_peer_id = '''', view_channel = '''', view_status = Missing, view_sample = None,
      view_expected_target_cycle = 0, view_received_target_cycle = 0, view_t_local_receive_ns = 0,
      view_receive_latency_ns = 0, view_fresh_for_this_cycle = False, view_late_for_this_cycle = False,
      view_duplicate = False, view_wrong_cycle = False, view_bad_schema = False, view_bad_crc = False,
      view_sender_clock_bad = False, view_drop_reason = ''''\<rparr>"

record SnapshotStats =
  stat_fresh_count :: u32
  stat_missing_count :: u32
  stat_late_count :: u32
  stat_wrong_cycle_count :: u32
  stat_bad_count :: u32

definition SnapshotStats_default :: SnapshotStats where
  "SnapshotStats_default =
     \<lparr>stat_fresh_count = 0, stat_missing_count = 0, stat_late_count = 0, stat_wrong_cycle_count = 0,
      stat_bad_count = 0\<rparr>"

record CycleSnapshot =
  snap_session_id :: string
  snap_task_id :: string
  snap_self_id :: string
  snap_cycle_id :: u64
  snap_t_cycle_start_ns :: i64
  snap_period_ns :: i64
  snap_local_clock :: ClockState
  snap_local_runtime :: RuntimeState
  snap_samples :: "PeerSampleView list"
  snap_stats :: SnapshotStats
  snap_all_required_fresh :: bool
  snap_all_required_usable :: bool

record ExpectedSample =
  exp_peer_id :: string
  exp_channel :: string
  exp_required :: bool
  exp_timing :: ChannelTiming

record SnapshotBuildRequest =
  req_session_id :: string
  req_task_id :: string
  req_self_id :: string
  req_cycle_id :: u64
  req_cycle_start_ns :: i64
  req_period_ns :: i64
  req_build_time_ns :: i64
  req_local_clock :: ClockState
  req_local_runtime :: RuntimeState
  req_expected_samples :: "ExpectedSample list"

section \<open>Operations\<close>

definition isBadStatus :: "SampleStatus \<Rightarrow> bool" where
  "isBadStatus st \<longleftrightarrow>
     st = BadSchema \<or> st = BadPayload \<or> st = SenderClockBad \<or> st = SenderReportedFail \<or> st = TransportError"

definition accountStatus :: "SampleStatus \<Rightarrow> SnapshotStats \<Rightarrow> SnapshotStats" where
  "accountStatus st stats =
     (case st of
        Fresh \<Rightarrow> stats\<lparr>stat_fresh_count := stat_fresh_count stats + 1\<rparr>
      | Missing \<Rightarrow> stats\<lparr>stat_missing_count := stat_missing_count stats + 1\<rparr>
      | Late \<Rightarrow> stats\<lparr>stat_late_count := stat_late_count stats + 1\<rparr>
      | WrongCycle \<Rightarrow> stats\<lparr>stat_wrong_cycle_count := stat_wrong_cycle_count stats + 1\<rparr>
      | _ \<Rightarrow> if isBadStatus st \<or> st = Duplicate
            then stats\<lparr>stat_bad_count := stat_bad_count stats + 1\<rparr> else stats)"

text \<open>One iteration of the loop of \<^verbatim>\<open>build\<close>: the view of one expected sample, given what the buffer holds.\<close>

definition build_view :: "SnapshotBuildRequest \<Rightarrow> ExpectedSample \<Rightarrow> BufferedSample option \<Rightarrow> PeerSampleView" where
  "build_view request expected buffered =
     (let view = PeerSampleView_default\<lparr>view_peer_id := exp_peer_id expected,
            view_channel := exp_channel expected, view_expected_target_cycle := req_cycle_id request\<rparr>
      in case buffered of
           None \<Rightarrow> view\<lparr>view_status := Missing, view_drop_reason := ''missing''\<rparr>
         | Some bs \<Rightarrow>
             let decision = checkReceivedSample (buf_envelope bs) (req_cycle_id request)
                   (req_cycle_start_ns request) (buf_local_receive_ns bs) (exp_timing expected)
             in view\<lparr>view_status := dd_status decision, view_sample := Some (buf_envelope bs),
                  view_received_target_cycle := env_target_cycle (buf_envelope bs),
                  view_t_local_receive_ns := buf_local_receive_ns bs,
                  view_receive_latency_ns := buf_local_receive_ns bs - env_t_publish_ns (buf_envelope bs),
                  view_fresh_for_this_cycle := dd_status decision = Fresh,
                  view_late_for_this_cycle := dd_status decision = Late,
                  view_wrong_cycle := dd_status decision = WrongCycle,
                  view_bad_schema := dd_status decision = BadSchema,
                  view_bad_crc := dd_status decision = BadPayload,
                  view_sender_clock_bad := dd_status decision = SenderClockBad,
                  view_drop_reason := dd_reason decision\<rparr>)"

definition build_step :: "SnapshotBuildRequest \<Rightarrow> SampleBuffer \<Rightarrow> CycleSnapshot \<Rightarrow> ExpectedSample \<Rightarrow> CycleSnapshot" where
  "build_step request buffer snapshot expected =
     (let view = build_view request expected
            (buffer_find buffer (exp_peer_id expected) (exp_channel expected) (req_cycle_id request));
          snapshot =
            (if exp_required expected
             then snapshot\<lparr>
               snap_all_required_fresh := snap_all_required_fresh snapshot \<and> view_status view = Fresh,
               snap_all_required_usable := snap_all_required_usable snapshot \<and> view_status view = Fresh\<rparr>
             else snapshot)
      in snapshot\<lparr>snap_stats := accountStatus (view_status view) (snap_stats snapshot),
                  snap_samples := snap_samples snapshot @ [view]\<rparr>)"

definition build_start :: "SnapshotBuildRequest \<Rightarrow> CycleSnapshot" where
  "build_start request =
     \<lparr>snap_session_id = req_session_id request, snap_task_id = req_task_id request,
      snap_self_id = req_self_id request, snap_cycle_id = req_cycle_id request,
      snap_t_cycle_start_ns = req_cycle_start_ns request, snap_period_ns = req_period_ns request,
      snap_local_clock = req_local_clock request,
      snap_local_runtime = (req_local_runtime request)\<lparr>rt_current_cycle := req_cycle_id request\<rparr>,
      snap_samples = [], snap_stats = SnapshotStats_default,
      snap_all_required_fresh = True, snap_all_required_usable = True\<rparr>"

definition build :: "SnapshotBuildRequest \<Rightarrow> SampleBuffer \<Rightarrow> CycleSnapshot" where
  "build request buffer = foldl (build_step request buffer) (build_start request) (req_expected_samples request)"

section \<open>What the builder needs of the buffer\<close>

locale sample_source =
  fixes find :: "'b \<Rightarrow> string \<Rightarrow> string \<Rightarrow> u64 \<Rightarrow> BufferedSample option"
    and reachable :: "'b \<Rightarrow> bool"
  assumes found_key: "reachable b \<Longrightarrow> find b p ch c = Some s \<Longrightarrow> key_of (buf_envelope s) = (p, ch, c)"
begin

definition view_at :: "'b \<Rightarrow> SnapshotBuildRequest \<Rightarrow> ExpectedSample \<Rightarrow> PeerSampleView" where
  "view_at b r x = build_view r x (find b (exp_peer_id x) (exp_channel x) (req_cycle_id r))"

lemma view_never_wrong_cycle: "reachable b \<Longrightarrow> view_status (view_at b r x) \<noteq> WrongCycle"
  using found_key [of b "exp_peer_id x" "exp_channel x" "req_cycle_id r"]
  by (auto simp: view_at_def build_view_def Let_def key_of_def checkReceivedSample_no_Wrong
      split: option.splits)

lemma view_sample_key:
  "reachable b \<Longrightarrow> view_sample (view_at b r x) = Some e \<Longrightarrow>
   key_of e = (exp_peer_id x, exp_channel x, req_cycle_id r)"
  using found_key [of b "exp_peer_id x" "exp_channel x" "req_cycle_id r"]
  by (auto simp: view_at_def build_view_def Let_def PeerSampleView_default_def split: option.splits)

end

definition in_service :: "SampleBuffer \<Rightarrow> bool" where
  "in_service b \<longleftrightarrow> (\<exists>n h. b = buffer_run (SampleBuffer_new n) h)"

lemma in_service_inv: "in_service b \<Longrightarrow> buffer_inv b"
  by (auto simp: in_service_def intro!: buffer_inv_run buffer_inv_new)

interpretation sb: sample_source buffer_find in_service
  by unfold_locales
     (auto simp: buffer_find_def keyed_def dest!: in_service_inv buffer_invD(5) map_of_SomeD)

section \<open>The loop\<close>

abbreviation views :: "SampleBuffer \<Rightarrow> SnapshotBuildRequest \<Rightarrow> PeerSampleView list" where
  "views b r \<equiv> map (sb.view_at b r) (req_expected_samples r)"

lemma build_step_simps:
  "snap_samples (build_step r b s x) = snap_samples s @ [sb.view_at b r x]"
  "snap_stats (build_step r b s x) = accountStatus (view_status (sb.view_at b r x)) (snap_stats s)"
  "snap_all_required_fresh (build_step r b s x) \<longleftrightarrow>
     snap_all_required_fresh s \<and> (exp_required x \<longrightarrow> view_status (sb.view_at b r x) = Fresh)"
  "snap_all_required_usable (build_step r b s x) \<longleftrightarrow>
     snap_all_required_usable s \<and> (exp_required x \<longrightarrow> view_status (sb.view_at b r x) = Fresh)"
  by (auto simp: build_step_def Let_def sb.view_at_def)

lemma build_fold:
  "snap_samples (foldl (build_step r b) s xs) = snap_samples s @ map (sb.view_at b r) xs"
  "snap_stats (foldl (build_step r b) s xs) =
     foldl (\<lambda>st v. accountStatus (view_status v) st) (snap_stats s) (map (sb.view_at b r) xs)"
  "snap_all_required_fresh (foldl (build_step r b) s xs) \<longleftrightarrow>
     snap_all_required_fresh s \<and> (\<forall>x \<in> set xs. exp_required x \<longrightarrow> view_status (sb.view_at b r x) = Fresh)"
  "snap_all_required_usable (foldl (build_step r b) s xs) \<longleftrightarrow>
     snap_all_required_usable s \<and> (\<forall>x \<in> set xs. exp_required x \<longrightarrow> view_status (sb.view_at b r x) = Fresh)"
  by (induction xs arbitrary: s) (auto simp: build_step_simps)

definition count_status :: "(SampleStatus \<Rightarrow> bool) \<Rightarrow> PeerSampleView list \<Rightarrow> nat" where
  "count_status P vs = length (filter (\<lambda>v. P (view_status v)) vs)"

lemma accountStatus_simps:
  "accountStatus Fresh s = s\<lparr>stat_fresh_count := stat_fresh_count s + 1\<rparr>"
  "accountStatus Missing s = s\<lparr>stat_missing_count := stat_missing_count s + 1\<rparr>"
  "accountStatus Late s = s\<lparr>stat_late_count := stat_late_count s + 1\<rparr>"
  "accountStatus WrongCycle s = s\<lparr>stat_wrong_cycle_count := stat_wrong_cycle_count s + 1\<rparr>"
  "isBadStatus st \<or> st = Duplicate \<Longrightarrow> accountStatus st s = s\<lparr>stat_bad_count := stat_bad_count s + 1\<rparr>"
  by (auto simp: accountStatus_def isBadStatus_def)

lemma accountStatus_fold:
  "foldl (\<lambda>st v. accountStatus (view_status v) st) s vs =
     \<lparr>stat_fresh_count = stat_fresh_count s + of_nat (count_status (\<lambda>x. x = Fresh) vs),
      stat_missing_count = stat_missing_count s + of_nat (count_status (\<lambda>x. x = Missing) vs),
      stat_late_count = stat_late_count s + of_nat (count_status (\<lambda>x. x = Late) vs),
      stat_wrong_cycle_count = stat_wrong_cycle_count s + of_nat (count_status (\<lambda>x. x = WrongCycle) vs),
      stat_bad_count = stat_bad_count s + of_nat (count_status (\<lambda>x. isBadStatus x \<or> x = Duplicate) vs)\<rparr>"
proof (induction vs arbitrary: s)
  case (Cons v vs)
  show ?case
    by (cases "view_status v")
       (simp_all add: Cons accountStatus_simps isBadStatus_def count_status_def)
qed (simp add: count_status_def)

lemma count_status_partition:
  "count_status (\<lambda>x. x = Fresh) vs + count_status (\<lambda>x. x = Missing) vs + count_status (\<lambda>x. x = Late) vs +
   count_status (\<lambda>x. x = WrongCycle) vs + count_status (\<lambda>x. isBadStatus x \<or> x = Duplicate) vs = length vs"
proof (induction vs)
  case (Cons v vs)
  then show ?case by (cases "view_status v") (simp_all add: count_status_def isBadStatus_def)
qed (simp add: count_status_def)

lemma unat_count: "length vs < 2 ^ 32 \<Longrightarrow> unat (of_nat (count_status P vs) :: u32) = count_status P vs"
  using le_less_trans [OF length_filter_le [of "\<lambda>v. P (view_status v)" vs]]
  by (simp add: count_status_def unat_of_nat)

text \<open>
  C18. The statistics of a snapshot account for every expected sample. With fewer than 2^32 expected
  samples, the counters of a built snapshot are the numbers of views of each kind, and they add up to the
  number of expected samples. The counter of wrong-cycle samples is always zero: the builder asks the
  buffer for the sample of the current cycle, so a sample that came for another cycle shows up as missing,
  although the requirements ask the snapshot to count wrong-cycle samples
  (\<^verbatim>\<open>docs/01_requirements_analysis.md\<close>, F5, and \<^verbatim>\<open>docs/02_architecture_design.md\<close>).
\<close>
theorem snapshot_stats_partition:
  assumes "in_service b" and "length (req_expected_samples r) < 2 ^ 32"
  defines "st \<equiv> snap_stats (build r b)"
  shows "unat (stat_fresh_count st) = count_status (\<lambda>x. x = Fresh) (snap_samples (build r b)) \<and>
    unat (stat_missing_count st) = count_status (\<lambda>x. x = Missing) (snap_samples (build r b)) \<and>
    unat (stat_late_count st) = count_status (\<lambda>x. x = Late) (snap_samples (build r b)) \<and>
    unat (stat_wrong_cycle_count st) = 0 \<and>
    unat (stat_fresh_count st) + unat (stat_missing_count st) + unat (stat_late_count st) +
      unat (stat_bad_count st) = length (req_expected_samples r)"
proof -
  let ?vs = "views b r"
  have len: "length ?vs < 2 ^ 32" using assms(2) by simp
  have s: "snap_samples (build r b) = ?vs" by (simp add: build_def build_fold build_start_def)
  have st: "st = foldl (\<lambda>st v. accountStatus (view_status v) st) SnapshotStats_default ?vs"
    by (simp add: st_def build_def build_fold build_start_def)
  have w: "count_status (\<lambda>x. x = WrongCycle) ?vs = 0"
    using sb.view_never_wrong_cycle [OF assms(1)] by (simp add: count_status_def filter_empty_conv)
  show ?thesis
    using count_status_partition [of ?vs] w
    by (simp add: s st accountStatus_fold SnapshotStats_default_def unat_count [OF len])
qed

text \<open>
  C2. What a snapshot delivers. For a buffer in service the views correspond one to one and in order to
  the expected samples; a delivered envelope was sent by the expected peer on the expected channel for
  exactly this cycle; and the snapshot is declared complete (all required samples fresh) exactly when
  for every required sample the buffer holds an envelope of this cycle that the deadline check accepts
  as usable.
\<close>
theorem snapshot_delivers:
  assumes "in_service b"
  shows "map (\<lambda>v. (view_peer_id v, view_channel v)) (snap_samples (build r b)) =
      map (\<lambda>x. (exp_peer_id x, exp_channel x)) (req_expected_samples r) \<and>
    (\<forall>v \<in> set (snap_samples (build r b)). \<forall>e. view_sample v = Some e \<longrightarrow>
      key_of e = (view_peer_id v, view_channel v, req_cycle_id r)) \<and>
    (snap_all_required_fresh (build r b) \<longleftrightarrow>
      (\<forall>x \<in> set (req_expected_samples r). exp_required x \<longrightarrow>
        (\<exists>s. buffer_find b (exp_peer_id x) (exp_channel x) (req_cycle_id r) = Some s \<and>
          dd_usable (checkReceivedSample (buf_envelope s) (req_cycle_id r) (req_cycle_start_ns r)
            (buf_local_receive_ns s) (exp_timing x)))))"
proof -
  have s: "snap_samples (build r b) = views b r" by (simp add: build_def build_fold build_start_def)
  have id: "view_peer_id (sb.view_at b r x) = exp_peer_id x" "view_channel (sb.view_at b r x) = exp_channel x" for x
    by (simp_all add: sb.view_at_def build_view_def Let_def split: option.splits)
  have f: "view_status (sb.view_at b r x) = Fresh \<longleftrightarrow>
      (\<exists>s. buffer_find b (exp_peer_id x) (exp_channel x) (req_cycle_id r) = Some s \<and>
        dd_usable (checkReceivedSample (buf_envelope s) (req_cycle_id r) (req_cycle_start_ns r)
          (buf_local_receive_ns s) (exp_timing x)))" for x
    by (simp add: sb.view_at_def build_view_def Let_def usable_iff_Fresh split: option.splits)
  have "snap_all_required_fresh (build r b) \<longleftrightarrow>
      (\<forall>x \<in> set (req_expected_samples r). exp_required x \<longrightarrow> view_status (sb.view_at b r x) = Fresh)"
    by (simp add: build_def build_fold build_start_def)
  then show ?thesis
    using sb.view_sample_key [OF assms] by (auto simp: s id f)
qed

definition demo_request :: SnapshotBuildRequest where
  "demo_request =
     \<lparr>req_session_id = ''s'', req_task_id = ''t'', req_self_id = ''u0'', req_cycle_id = 6,
      req_cycle_start_ns = 100, req_period_ns = 1000, req_build_time_ns = 500,
      req_local_clock = ClockState_default, req_local_runtime = RuntimeState_default,
      req_expected_samples =
        [\<lparr>exp_peer_id = ''u1'', exp_channel = ''pose'', exp_required = True, exp_timing = ChannelTiming_default\<rparr>,
         \<lparr>exp_peer_id = ''u2'', exp_channel = ''pose'', exp_required = False, exp_timing = ChannelTiming_default\<rparr>]\<rparr>"

abbreviation demo_buffer :: SampleBuffer where
  "demo_buffer \<equiv> buffer_run (SampleBuffer_new 2) demo_history"

lemma demo_in_service: "in_service demo_buffer"
  by (auto simp: in_service_def)

theorem snapshot_stats_partition_witness:
  "unat (stat_fresh_count (snap_stats (build demo_request demo_buffer))) +
   unat (stat_missing_count (snap_stats (build demo_request demo_buffer))) +
   unat (stat_late_count (snap_stats (build demo_request demo_buffer))) +
   unat (stat_bad_count (snap_stats (build demo_request demo_buffer))) = 2"
  using snapshot_stats_partition [OF demo_in_service, of demo_request] by (simp add: demo_request_def)

theorem snapshot_delivers_witness:
  "snap_all_required_fresh (build demo_request demo_buffer) \<and>
   (\<exists>s. buffer_find demo_buffer ''u1'' ''pose'' 6 = Some s)"
proof -
  have "snap_all_required_fresh (build demo_request demo_buffer)" by code_simp
  moreover have "\<forall>x \<in> set (req_expected_samples demo_request). exp_required x \<longrightarrow>
      (\<exists>s. buffer_find demo_buffer (exp_peer_id x) (exp_channel x) (req_cycle_id demo_request) = Some s)"
    using snapshot_delivers [OF demo_in_service, of demo_request] calculation by blast
  ultimately show ?thesis by (simp add: demo_request_def)
qed

end
