(* ===== verification/Session.thy ===== *)
theory Session
  imports Types
begin

text \<open>
  The session state machine: \<^verbatim>\<open>src/core/session.cpp\<close> and \<^verbatim>\<open>include/swarm_sync_core/session.hpp\<close>. Each
  operation returns its \<^verbatim>\<open>bool\<close> result together with the new manager. The defaulted clock argument of
  \<^verbatim>\<open>arm\<close> and \<^verbatim>\<open>startIfDue\<close> is the constant \<open>clock_assumed_ok\<close>.
\<close>

section \<open>State and operations\<close>

datatype SessionState = IDLE | CONFIGURED | ARMED | RUNNING | STOPPED | ERROR

record SessionConfig =
  sc_team_id :: string
  sc_session_id :: string
  sc_task_id :: string
  sc_self_id :: string
  sc_required_participants :: "string list"
  sc_optional_participants :: "string list"
  sc_epoch_ns :: i64
  sc_period_ns :: i64
  sc_start_cycle :: u64
  sc_max_cycle :: u64

definition SessionConfig_default :: SessionConfig where
  "SessionConfig_default =
     \<lparr>sc_team_id = '''', sc_session_id = '''', sc_task_id = '''', sc_self_id = '''',
      sc_required_participants = [], sc_optional_participants = [], sc_epoch_ns = 0, sc_period_ns = 0,
      sc_start_cycle = 0, sc_max_cycle = 0\<rparr>"

record SessionManager =
  sm_config :: SessionConfig
  sm_state :: SessionState
  sm_reason :: string

definition SessionManager_new :: SessionManager where
  "SessionManager_new = \<lparr>sm_config = SessionConfig_default, sm_state = IDLE, sm_reason = ''''\<rparr>"

definition clock_assumed_ok :: ClockState where
  "clock_assumed_ok =
     \<lparr>clock_clock_ok = True, clock_offset_ns = 0, clock_uncertainty_ns = 0,
      clock_quality = ClockQuality_OK, clock_source = ''''\<rparr>"

definition isValidConfig :: "SessionConfig \<Rightarrow> string + unit" where
  "isValidConfig config =
     (if sc_team_id config = '''' then Inl ''team_id is required''
      else if sc_session_id config = '''' then Inl ''session_id is required''
      else if sc_task_id config = '''' then Inl ''task_id is required''
      else if sc_self_id config = '''' then Inl ''self_id is required''
      else if i64_le (sc_period_ns config) 0 then Inl ''period_ns must be positive''
      else if sc_max_cycle config > 0 \<and> sc_max_cycle config < sc_start_cycle config
      then Inl ''max_cycle must be >= start_cycle''
      else if sc_self_id config \<notin> set (sc_required_participants config)
      then Inl ''self_id must be in required_participants''
      else Inr ())"

definition markError :: "string \<Rightarrow> SessionManager \<Rightarrow> SessionManager" where
  "markError why m = m\<lparr>sm_reason := why, sm_state := ERROR\<rparr>"

definition session_configure :: "SessionConfig \<Rightarrow> SessionManager \<Rightarrow> bool \<times> SessionManager" where
  "session_configure config m =
     (case isValidConfig config of
        Inl why \<Rightarrow> (False, markError why m)
      | Inr _ \<Rightarrow> (True, m\<lparr>sm_config := config, sm_state := CONFIGURED, sm_reason := ''''\<rparr>))"

definition clock_unusable :: "ClockState \<Rightarrow> bool" where
  "clock_unusable clock \<longleftrightarrow> \<not> clock_clock_ok clock \<or> clock_quality clock = ClockQuality_BAD"

definition session_arm :: "i64 \<Rightarrow> ClockState \<Rightarrow> SessionManager \<Rightarrow> bool \<times> SessionManager" where
  "session_arm epoch_ns clock m =
     (if sm_state m \<noteq> CONFIGURED \<and> sm_state m \<noteq> STOPPED
      then (False, markError ''cannot arm before configured'' m)
      else if clock_unusable clock then (False, markError ''cannot arm with bad clock'' m)
      else (True, m\<lparr>sm_config := (sm_config m)\<lparr>sc_epoch_ns := epoch_ns\<rparr>, sm_state := ARMED,
                    sm_reason := ''''\<rparr>))"

definition startIfDue :: "i64 \<Rightarrow> ClockState \<Rightarrow> SessionManager \<Rightarrow> bool \<times> SessionManager" where
  "startIfDue now_ns clock m =
     (if sm_state m = RUNNING then (True, m)
      else if sm_state m \<noteq> ARMED then (False, m)
      else if clock_unusable clock then (False, markError ''cannot start with bad clock'' m)
      else if i64_less now_ns (sc_epoch_ns (sm_config m)) then (False, m)
      else (True, m\<lparr>sm_state := RUNNING, sm_reason := ''''\<rparr>))"

definition session_stop :: "string \<Rightarrow> SessionManager \<Rightarrow> SessionManager" where
  "session_stop why m = m\<lparr>sm_reason := why, sm_state := STOPPED\<rparr>"

definition session_running :: "SessionManager \<Rightarrow> bool" where
  "session_running m \<longleftrightarrow> sm_state m = RUNNING"

section \<open>Traces\<close>

datatype SessionOp =
    Configure SessionConfig
  | Arm i64 ClockState
  | StartIfDue i64 ClockState
  | Stop string
  | MarkError string

fun session_op :: "SessionOp \<Rightarrow> SessionManager \<Rightarrow> SessionManager" where
  "session_op (Configure c) m = snd (session_configure c m)"
| "session_op (Arm t c) m = snd (session_arm t c m)"
| "session_op (StartIfDue t c) m = snd (startIfDue t c m)"
| "session_op (Stop why) m = session_stop why m"
| "session_op (MarkError why) m = markError why m"

text \<open>\<open>session_trace ops m\<close>: the manager is in state \<open>m\<close> after the calls \<open>ops\<close> on a fresh one.\<close>

inductive session_trace :: "SessionOp list \<Rightarrow> SessionManager \<Rightarrow> bool" where
  trace_new: "session_trace [] SessionManager_new"
| trace_op: "session_trace ops m \<Longrightarrow> session_trace (ops @ [x]) (session_op x m)"

inductive_cases session_traceE: "session_trace ops m"

lemmas session_defs =
  session_configure_def session_arm_def startIfDue_def session_stop_def markError_def

definition is_StartIfDue :: "SessionOp \<Rightarrow> bool" where
  "is_StartIfDue x \<longleftrightarrow> (\<exists>t c. x = StartIfDue t c)"

lemma op_to_ARMED:
  "sm_state (session_op x m) = ARMED \<Longrightarrow>
   (\<exists>t c. x = Arm t c \<and> \<not> clock_unusable c \<and> sc_epoch_ns (sm_config (session_op x m)) = t \<and>
      (sm_state m = CONFIGURED \<or> sm_state m = STOPPED)) \<or>
   is_StartIfDue x \<and> sm_state m = ARMED \<and> sm_config (session_op x m) = sm_config m"
  by (cases x) (auto simp: session_defs is_StartIfDue_def split: if_splits sum.splits)

lemma op_to_RUNNING:
  "sm_state (session_op x m) = RUNNING \<Longrightarrow>
   (\<exists>t c. x = StartIfDue t c \<and>
      (sm_state m = RUNNING \<or>
       sm_state m = ARMED \<and> \<not> clock_unusable c \<and> i64_le (sc_epoch_ns (sm_config m)) t)) \<and>
   sm_config (session_op x m) = sm_config m"
  by (cases x) (auto simp: session_defs split: if_splits sum.splits)

definition armed_by :: "SessionOp list \<Rightarrow> i64 \<Rightarrow> bool" where
  "armed_by ops epoch \<longleftrightarrow>
     (\<exists>pre c waits. ops = pre @ Arm epoch c # waits \<and> \<not> clock_unusable c \<and> list_all is_StartIfDue waits)"

definition started_by :: "SessionOp list \<Rightarrow> i64 \<Rightarrow> bool" where
  "started_by ops epoch \<longleftrightarrow>
     (\<exists>pre now c rest. ops = pre @ StartIfDue now c # rest \<and> armed_by pre epoch \<and> \<not> clock_unusable c \<and>
        i64_le epoch now \<and> list_all is_StartIfDue rest)"

lemma armed_by_snoc: "armed_by ops t \<Longrightarrow> is_StartIfDue x \<Longrightarrow> armed_by (ops @ [x]) t"
  unfolding armed_by_def by (metis append_Cons append_assoc list_all_append list.pred_inject)

lemma started_by_snoc: "started_by ops t \<Longrightarrow> is_StartIfDue x \<Longrightarrow> started_by (ops @ [x]) t"
  unfolding started_by_def by (metis append_Cons append_assoc list_all_append list.pred_inject)

lemma trace_armed_started:
  "session_trace ops m \<Longrightarrow>
   (sm_state m = ARMED \<longrightarrow> armed_by ops (sc_epoch_ns (sm_config m))) \<and>
   (sm_state m = RUNNING \<longrightarrow> started_by ops (sc_epoch_ns (sm_config m)))"
proof (induction rule: session_trace.induct)
  case (trace_op ops m x)
  have "armed_by (ops @ [x]) (sc_epoch_ns (sm_config (session_op x m)))"
    if "sm_state (session_op x m) = ARMED"
    using op_to_ARMED [OF that]
  proof
    assume "\<exists>t c. x = Arm t c \<and> \<not> clock_unusable c \<and> sc_epoch_ns (sm_config (session_op x m)) = t \<and>
      (sm_state m = CONFIGURED \<or> sm_state m = STOPPED)"
    then show ?thesis unfolding armed_by_def by (metis list.pred_inject(1))
  next
    assume "is_StartIfDue x \<and> sm_state m = ARMED \<and> sm_config (session_op x m) = sm_config m"
    then show ?thesis using trace_op.IH armed_by_snoc by simp
  qed
  moreover have "started_by (ops @ [x]) (sc_epoch_ns (sm_config (session_op x m)))"
    if run: "sm_state (session_op x m) = RUNNING"
  proof -
    obtain t c where x: "x = StartIfDue t c" and cfg: "sm_config (session_op x m) = sm_config m"
      and d: "sm_state m = RUNNING \<or>
       sm_state m = ARMED \<and> \<not> clock_unusable c \<and> i64_le (sc_epoch_ns (sm_config m)) t"
      using op_to_RUNNING [OF run] by blast
    from d show ?thesis
    proof
      assume "sm_state m = RUNNING"
      then show ?thesis using trace_op.IH started_by_snoc x cfg by (simp add: is_StartIfDue_def)
    next
      assume a: "sm_state m = ARMED \<and> \<not> clock_unusable c \<and> i64_le (sc_epoch_ns (sm_config m)) t"
      then have "armed_by ops (sc_epoch_ns (sm_config m))" using trace_op.IH by simp
      with a x cfg show ?thesis unfolding started_by_def by (metis list.pred_inject(1))
    qed
  qed
  ultimately show ?case by blast
qed (simp add: SessionManager_new_def)

text \<open>
  C15. A session runs only after being armed and becoming due. If a manager is RUNNING after a sequence
  of calls, that sequence contains a call that armed the session for its current epoch with a usable
  clock, followed, with nothing but start polls in between, by a start poll with a usable clock at or
  after that epoch, and only start polls after it.
\<close>
theorem running_only_after_due_start:
  assumes "session_trace ops m" and "session_running m"
  shows "\<exists>pre c1 waits now c2 rest.
    ops = pre @ Arm (sc_epoch_ns (sm_config m)) c1 # waits @ StartIfDue now c2 # rest \<and>
    \<not> clock_unusable c1 \<and> \<not> clock_unusable c2 \<and> i64_le (sc_epoch_ns (sm_config m)) now \<and>
    list_all is_StartIfDue waits \<and> list_all is_StartIfDue rest"
proof -
  have "started_by ops (sc_epoch_ns (sm_config m))"
    using assms trace_armed_started by (simp add: session_running_def)
  then show ?thesis
    unfolding started_by_def armed_by_def by (metis append_Cons append_assoc)
qed

lemma isValidConfig_epoch [simp]: "isValidConfig (c\<lparr>sc_epoch_ns := t\<rparr>) = isValidConfig c"
  by (simp add: isValidConfig_def)

lemma op_keeps_valid:
  "isValidConfig (sm_config m) = Inr () \<Longrightarrow> isValidConfig (sm_config (session_op x m)) = Inr ()"
  by (cases x) (auto simp: session_defs split: sum.splits)

definition configures :: "SessionOp \<Rightarrow> bool" where
  "configures x \<longleftrightarrow> (\<exists>c. x = Configure c \<and> isValidConfig c = Inr ())"

lemma op_configures: "configures x \<Longrightarrow> isValidConfig (sm_config (session_op x m)) = Inr ()"
  by (auto simp: configures_def session_configure_def)

lemma op_config_cases:
  "\<not> configures x \<Longrightarrow> \<exists>t. sm_config (session_op x m) = (sm_config m)\<lparr>sc_epoch_ns := t\<rparr>"
  by (cases x; force simp: configures_def session_defs split: sum.splits
      intro: exI [of _ "sc_epoch_ns (sm_config m)"])

text \<open>
  The configuration in use. After any sequence of calls the manager's configuration is valid if
  and only if the sequence contains a call that configured it with a valid configuration; in every
  other case it is still the empty default, up to the epoch.
\<close>
lemma config_valid_iff_configured:
  assumes "session_trace ops m"
  shows "(isValidConfig (sm_config m) = Inr () \<longleftrightarrow> (\<exists>x \<in> set ops. configures x)) \<and>
    (\<not> (\<exists>x \<in> set ops. configures x) \<longrightarrow> (\<exists>t. sm_config m = SessionConfig_default\<lparr>sc_epoch_ns := t\<rparr>))"
  using assms
proof (induction rule: session_trace.induct)
  case trace_new
  have "SessionConfig_default = SessionConfig_default\<lparr>sc_epoch_ns := 0\<rparr>"
    by (simp add: SessionConfig_default_def)
  then show ?case
    by (auto simp: SessionManager_new_def isValidConfig_def SessionConfig_default_def)
next
  case (trace_op ops m x)
  show ?case
  proof (cases "configures x")
    case True
    then show ?thesis by (simp add: op_configures)
  next
    case False
    obtain t where t: "sm_config (session_op x m) = (sm_config m)\<lparr>sc_epoch_ns := t\<rparr>"
      using op_config_cases [OF False] by blast
    from trace_op.IH False show ?thesis by (auto simp: t)
  qed
qed

lemma session_trace_foldl:
  "session_trace pre m \<Longrightarrow> session_trace (pre @ ops) (foldl (\<lambda>m x. session_op x m) m ops)"
proof (induction ops arbitrary: pre m)
  case (Cons x ops)
  from Cons.IH [OF trace_op [OF Cons.prems, of x]] show ?case by simp
qed simp

text \<open>
  C26. The guard of \<open>arm\<close>, with its message that a session cannot be armed before it is configured, does
  not enforce it. From every state that a manager can reach without a successful \<open>configure\<close>, the calls
  \<open>stop\<close>, \<open>arm\<close> for any epoch with a usable clock and \<open>startIfDue\<close> at or after that epoch with a usable clock
  make the session run, with the empty default configuration but for the epoch, which is not valid.
\<close>
theorem unconfigured_session_can_run:
  assumes "session_trace ops m" and "\<not> (\<exists>x \<in> set ops. configures x)"
    and "\<not> clock_unusable c1" and "\<not> clock_unusable c2" and "i64_le epoch now"
  shows "\<exists>m'. session_trace (ops @ [Stop why, Arm epoch c1, StartIfDue now c2]) m' \<and> session_running m' \<and>
    sm_config m' = SessionConfig_default\<lparr>sc_epoch_ns := epoch\<rparr> \<and> isValidConfig (sm_config m') \<noteq> Inr ()"
proof -
  let ?m = "foldl (\<lambda>m x. session_op x m) m [Stop why, Arm epoch c1, StartIfDue now c2]"
  obtain t where t: "sm_config m = SessionConfig_default\<lparr>sc_epoch_ns := t\<rparr>"
    using config_valid_iff_configured [OF assms(1)] assms(2) by blast
  have "session_running ?m \<and> sm_config ?m = SessionConfig_default\<lparr>sc_epoch_ns := epoch\<rparr>"
    using assms(3-5) by (simp add: session_defs session_running_def t)
  moreover have "isValidConfig (SessionConfig_default\<lparr>sc_epoch_ns := epoch\<rparr>) \<noteq> Inr ()"
    by (simp add: isValidConfig_def SessionConfig_default_def)
  ultimately show ?thesis using session_trace_foldl [OF assms(1)] by metis
qed

theorem unconfigured_session_can_run_witness:
  "\<exists>m. session_trace [Configure SessionConfig_default, Stop ''shutdown'', Arm 7 clock_assumed_ok,
      StartIfDue 9 clock_assumed_ok] m \<and> session_running m \<and> sc_team_id (sm_config m) = []"
proof -
  have t: "session_trace [Configure SessionConfig_default]
      (session_op (Configure SessionConfig_default) SessionManager_new)"
    using trace_op [OF trace_new, of "Configure SessionConfig_default"] by (simp only: append_Nil)
  have c: "\<not> configures (Configure SessionConfig_default)"
    by (simp add: configures_def isValidConfig_def SessionConfig_default_def)
  have k: "\<not> clock_unusable clock_assumed_ok"
    by (simp add: clock_unusable_def clock_assumed_ok_def enum_defs)
  show ?thesis
    using unconfigured_session_can_run [OF t _ k k, of 7 9 "''shutdown''"] c
    by (fastforce simp: SessionConfig_default_def)
qed

definition demo_session :: SessionConfig where
  "demo_session = SessionConfig_default\<lparr>sc_team_id := ''t'', sc_session_id := ''s'', sc_task_id := ''k'',
     sc_self_id := ''u1'', sc_required_participants := [''u1''], sc_period_ns := 20000000\<rparr>"

definition demo_ops :: "SessionOp list" where
  "demo_ops = [Configure demo_session, Arm 500 clock_assumed_ok, StartIfDue 500 clock_assumed_ok]"

definition demo_manager :: SessionManager where
  "demo_manager = foldl (\<lambda>m x. session_op x m) SessionManager_new demo_ops"

lemma demo_trace: "session_trace demo_ops demo_manager"
  using session_trace_foldl [OF trace_new, of demo_ops] by (simp add: demo_manager_def)

theorem running_only_after_due_start_witness:
  "session_running demo_manager \<and> (\<exists>c1. Arm 500 c1 \<in> set demo_ops)"
proof -
  have r: "session_running demo_manager" "sc_epoch_ns (sm_config demo_manager) = 500" by code_simp+
  obtain pre c1 waits where "demo_ops = pre @ Arm 500 c1 # waits"
    using running_only_after_due_start [OF demo_trace r(1)] r(2) by auto
  with r show ?thesis by (metis in_set_conv_decomp)
qed

end
