(* ===== verification/Cycle_Scheduler.thy ===== *)
theory Cycle_Scheduler
  imports Types Double
begin

text \<open>
  \<^verbatim>\<open>src/core/cycle_scheduler.cpp\<close> and \<^verbatim>\<open>include/swarm_sync_core/cycle_scheduler.hpp\<close>: the mapping from
  time to cycle numbers and the emission of cycle events.

  The registered callback is client code. The model records whether one is registered and \<open>tick\<close>
  returns, beside the event and the new scheduler, the list of events the callback was invoked with.
\<close>

section \<open>State and operations\<close>

record CycleEvent =
  ev_session_id :: string
  ev_task_id :: string
  ev_cycle_id :: u64
  ev_expected_time_ns :: i64
  ev_actual_time_ns :: i64
  ev_jitter_ns :: i64
  ev_period_ns :: i64
  ev_clock_ok :: bool

record CycleSchedulerConfig =
  cs_session_id :: string
  cs_task_id :: string
  cs_epoch_ns :: i64
  cs_period_ns :: i64
  cs_start_cycle :: u64
  cs_max_cycle :: u64

definition CycleSchedulerConfig_default :: CycleSchedulerConfig where
  "CycleSchedulerConfig_default =
     \<lparr>cs_session_id = '''', cs_task_id = '''', cs_epoch_ns = 0, cs_period_ns = 0, cs_start_cycle = 0,
      cs_max_cycle = 0\<rparr>"

record CycleScheduler =
  sch_config :: CycleSchedulerConfig
  sch_callback :: bool
  sch_running :: bool
  sch_has_emitted :: bool
  sch_last_emitted_cycle :: u64

definition CycleScheduler_new :: CycleScheduler where
  "CycleScheduler_new =
     \<lparr>sch_config = CycleSchedulerConfig_default, sch_callback = False, sch_running = False,
      sch_has_emitted = False, sch_last_emitted_cycle = 0\<rparr>"

definition kMinFrequencyHz :: double where "kMinFrequencyHz = Fin (1 / 2)"
definition kMaxFrequencyHz :: double where "kMaxFrequencyHz = Fin 50"
definition kMinPeriodNs :: i64 where "kMinPeriodNs = 20000000"
definition kMaxPeriodNs :: i64 where "kMaxPeriodNs = 2000000000"

definition isValidFrequencyHz :: "double \<Rightarrow> bool" where
  "isValidFrequencyHz f \<longleftrightarrow> isfinite f \<and> dle kMinFrequencyHz f \<and> dle f kMaxFrequencyHz"

definition isValidPeriodNs :: "i64 \<Rightarrow> bool" where
  "isValidPeriodNs p \<longleftrightarrow> i64_le kMinPeriodNs p \<and> i64_le p kMaxPeriodNs"

definition periodNsFromFrequencyHz :: "double \<Rightarrow> i64 option" where
  "periodNsFromFrequencyHz f =
     (if \<not> isValidFrequencyHz f then None else llround (ddiv (Fin 1000000000) f))"

definition scheduler_configure :: "CycleSchedulerConfig \<Rightarrow> CycleScheduler \<Rightarrow> bool \<times> CycleScheduler" where
  "scheduler_configure config s =
     (if \<not> isValidPeriodNs (cs_period_ns config) then (False, s)
      else if cs_session_id config = '''' \<or> cs_task_id config = '''' then (False, s)
      else if cs_max_cycle config > 0 \<and> cs_max_cycle config < cs_start_cycle config then (False, s)
      else (True, s\<lparr>sch_config := config, sch_running := False, sch_has_emitted := False,
                    sch_last_emitted_cycle := 0\<rparr>))"

definition scheduler_configure_basic ::
    "string \<Rightarrow> string \<Rightarrow> i64 \<Rightarrow> i64 \<Rightarrow> CycleScheduler \<Rightarrow> bool \<times> CycleScheduler" where
  "scheduler_configure_basic session_id task_id epoch_ns period_ns s =
     scheduler_configure
       (CycleSchedulerConfig_default\<lparr>cs_session_id := session_id, cs_task_id := task_id,
          cs_epoch_ns := epoch_ns, cs_period_ns := period_ns\<rparr>) s"

definition setCallback :: "bool \<Rightarrow> CycleScheduler \<Rightarrow> CycleScheduler" where
  "setCallback cb s = s\<lparr>sch_callback := cb\<rparr>"

definition scheduler_start :: "CycleScheduler \<Rightarrow> CycleScheduler" where
  "scheduler_start s = (if i64_less 0 (cs_period_ns (sch_config s)) then s\<lparr>sch_running := True\<rparr> else s)"

definition scheduler_stop :: "CycleScheduler \<Rightarrow> CycleScheduler" where
  "scheduler_stop s = s\<lparr>sch_running := False\<rparr>"

definition computeCycleId :: "CycleSchedulerConfig \<Rightarrow> i64 \<Rightarrow> u64" where
  "computeCycleId config now_ns =
     (if i64_less now_ns (cs_epoch_ns config) \<or> i64_le (cs_period_ns config) 0 then cs_start_cycle config
      else cs_start_cycle config + (now_ns - cs_epoch_ns config) div cs_period_ns config)"

text \<open>
  A period of zero makes the code divide by zero once the cycle number exceeds the start cycle. That
  is \<open>None\<close>.
\<close>

definition expectedTimeNs :: "CycleSchedulerConfig \<Rightarrow> u64 \<Rightarrow> i64 option" where
  "expectedTimeNs config cycle_id =
     (if cycle_id \<le> cs_start_cycle config then Some (cs_epoch_ns config)
      else let offset_cycles = cycle_id - cs_start_cycle config; period = cs_period_ns config
           in if period = 0 then None
              else if offset_cycles > i64_max div period then Some i64_max
              else Some (cs_epoch_ns config + offset_cycles * period))"

definition tick :: "i64 \<Rightarrow> bool \<Rightarrow> CycleScheduler \<Rightarrow> CycleEvent option \<times> CycleEvent list \<times> CycleScheduler" where
  "tick now_ns clock_ok s =
     (let config = sch_config s in
      if \<not> sch_running s \<or> i64_le (cs_period_ns config) 0 \<or> i64_less now_ns (cs_epoch_ns config)
      then (None, [], s)
      else let cycle_id = computeCycleId config now_ns in
        if cs_max_cycle config > 0 \<and> cycle_id > cs_max_cycle config
        then (None, [], s\<lparr>sch_running := False\<rparr>)
        else if sch_has_emitted s \<and> cycle_id \<le> sch_last_emitted_cycle s then (None, [], s)
        else case expectedTimeNs config cycle_id of
               None \<Rightarrow> (None, [], s)
             | Some expected \<Rightarrow>
                 let event = \<lparr>ev_session_id = cs_session_id config, ev_task_id = cs_task_id config,
                       ev_cycle_id = cycle_id, ev_expected_time_ns = expected,
                       ev_actual_time_ns = now_ns, ev_jitter_ns = now_ns - expected,
                       ev_period_ns = cs_period_ns config, ev_clock_ok = clock_ok\<rparr>;
                     s' = s\<lparr>sch_has_emitted := True, sch_last_emitted_cycle := cycle_id\<rparr>
                 in (Some event, if sch_callback s then [event] else [], s'))"

section \<open>Period and frequency\<close>

lemma round_half_away_bounds:
  assumes "of_int a \<le> x" "x \<le> of_int b" "0 \<le> a"
  shows "a \<le> round_half_away x" "round_half_away x \<le> b"
proof -
  have "0 \<le> x" using assms by (metis of_int_0_le_iff order_trans)
  then have r: "round_half_away x = \<lfloor>x + 1 / 2\<rfloor>" by (simp add: round_half_away_def)
  show "a \<le> round_half_away x" unfolding r using assms by linarith
  show "round_half_away x \<le> b" unfolding r using assms by linarith
qed

text \<open>
  C24. The two validity ranges agree. For every frequency accepted by isValidFrequencyHz, including
  the rounding of the floating-point division, periodNsFromFrequencyHz returns a period and
  isValidPeriodNs accepts it; every other value, NaN and infinities included, yields no period.
\<close>
theorem frequency_gives_valid_period:
  "case periodNsFromFrequencyHz f of
     Some p \<Rightarrow> isValidFrequencyHz f \<and> isValidPeriodNs p
   | None \<Rightarrow> \<not> isValidFrequencyHz f"
proof (cases "isValidFrequencyHz f")
  case True
  then obtain x where f: "f = Fin x" and x: "1 / 2 \<le> x" "x \<le> 50"
    by (cases f) (auto simp: isValidFrequencyHz_def kMinFrequencyHz_def kMaxFrequencyHz_def)
  let ?q = "1000000000 / x"
  have q: "of_int 20000000 \<le> ?q" "?q \<le> of_int 2000000000"
    using x by (simp_all add: field_simps)
  have m: "mk_double ?q = Fin (round_rat ?q)"
    by (rule mk_double_Fin) (use q in auto)
  have r: "of_int 20000000 \<le> round_rat ?q" "round_rat ?q \<le> of_int 2000000000"
    using round_rat_mono [OF q(1)] round_rat_mono [OF q(2)] round_rat_of_int [of 20000000]
      round_rat_of_int [of 2000000000] by simp_all
  define n where "n = round_half_away (round_rat ?q)"
  have n: "20000000 \<le> n" "n \<le> 2000000000"
    unfolding n_def using round_half_away_bounds [OF r] by simp_all
  have "periodNsFromFrequencyHz f = Some (word_of_int n)"
    using True x n m by (simp add: periodNsFromFrequencyHz_def f n_def [symmetric] Let_def)
  moreover have "isValidPeriodNs (word_of_int n)"
    using n by (simp add: isValidPeriodNs_def kMinPeriodNs_def kMaxPeriodNs_def sint_i64_of_int)
  ultimately show ?thesis using True by simp
qed (simp add: periodNsFromFrequencyHz_def)

section \<open>Time and cycle numbers\<close>

definition cycle_at :: "CycleSchedulerConfig \<Rightarrow> i64 \<Rightarrow> int" where
  "cycle_at c now = uint (cs_start_cycle c) + (sint now - sint (cs_epoch_ns c)) div sint (cs_period_ns c)"

text \<open>Times at which cycle numbers are meaningful: from the epoch on, as long as nothing overflows.\<close>

definition in_range :: "CycleSchedulerConfig \<Rightarrow> i64 \<Rightarrow> bool" where
  "in_range c now \<longleftrightarrow>
     0 < sint (cs_period_ns c) \<and> i64_le (cs_epoch_ns c) now \<and> i64_sub_ok now (cs_epoch_ns c) \<and>
     cycle_at c now < 2 ^ 64"

lemma div_nonneg: "in_range c now \<Longrightarrow> 0 \<le> (sint now - sint (cs_epoch_ns c)) div sint (cs_period_ns c)"
  by (simp add: in_range_def pos_imp_zdiv_nonneg_iff)

lemma uint_elapsed_div:
  assumes "in_range c now"
  shows "uint ((now - cs_epoch_ns c) div cs_period_ns c) =
    (sint now - sint (cs_epoch_ns c)) div sint (cs_period_ns c)"
  using assms by (simp add: in_range_def uint_div uint_of_nonneg_i64 i64_simps)

lemma uint_computeCycleId:
  assumes "in_range c now"
  shows "uint (computeCycleId c now) = cycle_at c now"
proof -
  have "uint (cs_start_cycle c + (now - cs_epoch_ns c) div cs_period_ns c) = cycle_at c now"
    using uint_elapsed_div [OF assms] div_nonneg [OF assms] assms
    by (simp add: uint_word_ariths in_range_def cycle_at_def)
  with assms show ?thesis by (simp add: computeCycleId_def in_range_def)
qed

lemma computeCycleId_mono:
  assumes "in_range c t" "in_range c t'" "i64_le t t'"
  shows "computeCycleId c t \<le> computeCycleId c t'"
  using assms by (simp add: word_le_def uint_computeCycleId cycle_at_def zdiv_mono1 in_range_def)

lemma expectedTimeNs_cycle:
  assumes r: "in_range c now"
  defines "q \<equiv> (sint now - sint (cs_epoch_ns c)) div sint (cs_period_ns c)"
  shows "\<exists>t. expectedTimeNs c (computeCycleId c now) = Some t \<and>
    sint t = sint (cs_epoch_ns c) + q * sint (cs_period_ns c)"
proof (cases "q = 0")
  case True
  then have "computeCycleId c now = cs_start_cycle c"
    using uint_computeCycleId [OF r] by (simp add: cycle_at_def q_def word_uint_eq_iff)
  with True show ?thesis by (simp add: expectedTimeNs_def)
next
  case False
  let ?p = "cs_period_ns c" and ?e = "cs_epoch_ns c" and ?d = "computeCycleId c now - cs_start_cycle c"
  have p: "0 < sint ?p" "?p \<noteq> 0" "uint ?p = sint ?p"
    using r by (auto simp: in_range_def uint_of_nonneg_i64)
  have q: "0 < q" using False div_nonneg [OF r] by (simp add: q_def)
  have el: "0 \<le> sint now - sint ?e" "sint now - sint ?e < 2 ^ 63"
    using r by (auto simp: in_range_def)
  have qp: "0 \<le> q * sint ?p" "q * sint ?p \<le> sint now - sint ?e"
    using q p by (simp_all add: q_def) (smt (verit) minus_mod_eq_div_mult pos_mod_sign)
  have d: "uint ?d = q"
    using r uint_elapsed_div [OF r] by (simp add: computeCycleId_def in_range_def q_def)
  have gt: "\<not> computeCycleId c now \<le> cs_start_cycle c"
    using uint_computeCycleId [OF r] q by (simp add: word_le_def cycle_at_def q_def)
  have "q \<le> (2 ^ 63 - 1) div sint ?p"
    unfolding q_def using el p by (intro zdiv_mono1) auto
  then have sat: "\<not> ?d > i64_max div ?p"
    by (simp add: word_less_def uint_div d p)
  have s: "sint (?d * ?p) = q * sint ?p"
    using sint_i64_mult [of ?d ?p] qp el by (simp only: d p)
  have "sint (?e + ?d * ?p) = sint ?e + q * sint ?p"
    using qp el i64_range [of ?e] i64_range [of now] by (subst sint_i64_add) (auto simp: s)
  then show ?thesis using gt sat p by (simp add: expectedTimeNs_def Let_def)
qed

section \<open>Ticks\<close>

lemma tick_cases:
  assumes "tick now ok s = (Some ev, calls, s')"
  shows "sch_running s" "ev_cycle_id ev = computeCycleId (sch_config s) now"
    "expectedTimeNs (sch_config s) (ev_cycle_id ev) = Some (ev_expected_time_ns ev)"
    "ev_actual_time_ns ev = now" "ev_jitter_ns ev = now - ev_expected_time_ns ev"
    "sch_has_emitted s \<Longrightarrow> sch_last_emitted_cycle s < ev_cycle_id ev"
    "cs_max_cycle (sch_config s) > 0 \<Longrightarrow> ev_cycle_id ev \<le> cs_max_cycle (sch_config s)"
    "s' = s\<lparr>sch_has_emitted := True, sch_last_emitted_cycle := ev_cycle_id ev\<rparr>"
    "calls = (if sch_callback s then [ev] else [])"
  using assms by (auto simp: tick_def Let_def split: if_splits option.splits)

lemma tick_None:
  "tick now ok s = (None, calls, s') \<Longrightarrow>
   calls = [] \<and> (s' = s \<or> s' = s\<lparr>sch_running := False\<rparr>)"
  by (auto simp: tick_def Let_def split: if_splits option.splits)

text \<open>
  C14. The event of a tick. Within the representable range, a tick that emits reports the cycle in which
  the current time lies, counted in whole periods from the epoch; the expected time is the exact start
  of that cycle; and the jitter is the time elapsed since then, at least zero and less than one period.
\<close>
theorem tick_event_timing:
  assumes "tick now ok s = (Some ev, calls, s')" and "in_range (sch_config s) now"
  defines "epoch \<equiv> sint (cs_epoch_ns (sch_config s))" and "period \<equiv> sint (cs_period_ns (sch_config s))"
  shows "uint (ev_cycle_id ev) = uint (cs_start_cycle (sch_config s)) + (sint now - epoch) div period \<and>
    sint (ev_expected_time_ns ev) =
      epoch + (uint (ev_cycle_id ev) - uint (cs_start_cycle (sch_config s))) * period \<and>
    sint (ev_jitter_ns ev) = sint now - sint (ev_expected_time_ns ev) \<and>
    0 \<le> sint (ev_jitter_ns ev) \<and> sint (ev_jitter_ns ev) < period"
proof -
  note T = tick_cases [OF assms(1)]
  let ?q = "(sint now - epoch) div period"
  have p: "0 < period" and sub: "i64_sub_ok now (cs_epoch_ns (sch_config s))"
    using assms(2) by (simp_all add: in_range_def period_def)
  have c: "uint (ev_cycle_id ev) = uint (cs_start_cycle (sch_config s)) + ?q"
    using uint_computeCycleId [OF assms(2)] T(2) by (simp add: cycle_at_def epoch_def period_def)
  have e: "sint (ev_expected_time_ns ev) = epoch + ?q * period"
    using expectedTimeNs_cycle [OF assms(2)] T(2,3) by (simp add: epoch_def period_def)
  have m: "sint now - epoch - ?q * period = (sint now - epoch) mod period"
    by (simp add: minus_div_mult_eq_mod)
  have b: "0 \<le> (sint now - epoch) mod period" "(sint now - epoch) mod period < period" "period < 2 ^ 63"
    using p i64_range [of "cs_period_ns (sch_config s)"] by (simp_all add: period_def)
  have j: "sint (ev_jitter_ns ev) = sint now - sint (ev_expected_time_ns ev)"
    unfolding T(5) by (rule sint_i64_sub) (use e m b in auto)
  from c e m b j show ?thesis by simp
qed

text \<open>Everything a client may do with a configured scheduler, in any order.\<close>

datatype SchedulerOp = Tick i64 bool | Start | StopScheduler | SetCallback bool

fun scheduler_op :: "SchedulerOp \<Rightarrow> CycleScheduler \<Rightarrow> CycleEvent list \<times> CycleScheduler" where
  "scheduler_op (Tick now ok) s = (case tick now ok s of (ev, calls, s') \<Rightarrow> (case_option [] (\<lambda>x. [x]) ev, s'))"
| "scheduler_op Start s = ([], scheduler_start s)"
| "scheduler_op StopScheduler s = ([], scheduler_stop s)"
| "scheduler_op (SetCallback cb) s = ([], setCallback cb s)"

fun scheduler_run :: "SchedulerOp list \<Rightarrow> CycleScheduler \<Rightarrow> CycleEvent list" where
  "scheduler_run [] s = []"
| "scheduler_run (x # xs) s = (case scheduler_op x s of (evs, s') \<Rightarrow> evs @ scheduler_run xs s')"

lemma scheduler_op_None:
  "scheduler_op x s = ([], s') \<Longrightarrow>
   sch_config s' = sch_config s \<and> sch_has_emitted s' = sch_has_emitted s \<and>
   sch_last_emitted_cycle s' = sch_last_emitted_cycle s"
  by (cases x)
     (auto simp: scheduler_start_def scheduler_stop_def setCallback_def
       split: prod.splits option.splits if_splits dest: tick_None)

lemma scheduler_op_Some:
  "scheduler_op x s = (ev # evs, s') \<Longrightarrow>
   evs = [] \<and> sch_config s' = sch_config s \<and> sch_has_emitted s' \<and> sch_last_emitted_cycle s' = ev_cycle_id ev \<and>
   (sch_has_emitted s \<longrightarrow> sch_last_emitted_cycle s < ev_cycle_id ev) \<and>
   (cs_max_cycle (sch_config s) > 0 \<longrightarrow> ev_cycle_id ev \<le> cs_max_cycle (sch_config s))"
  by (cases x) (auto split: prod.splits option.splits dest: tick_cases)

lemma scheduler_run_increasing:
  "sorted_wrt (<) (map ev_cycle_id (scheduler_run xs s)) \<and>
   (\<forall>ev \<in> set (scheduler_run xs s).
     (sch_has_emitted s \<longrightarrow> sch_last_emitted_cycle s < ev_cycle_id ev) \<and>
     (cs_max_cycle (sch_config s) > 0 \<longrightarrow> ev_cycle_id ev \<le> cs_max_cycle (sch_config s)))"
proof (induction xs arbitrary: s)
  case (Cons x xs)
  obtain evs s' where o: "scheduler_op x s = (evs, s')" by fastforce
  show ?case
  proof (cases evs)
    case Nil
    with o scheduler_op_None [of x s s'] Cons.IH [of s'] show ?thesis by auto
  next
    case (Cons ev es)
    with o scheduler_op_Some [of x s ev es s'] Cons.IH [of s'] show ?thesis
      by (auto intro: less_trans)
  qed
qed simp

text \<open>
  C16. No cycle is emitted twice or out of order. Whatever ticks, starts, stops and callback changes a
  client performs on a scheduler after configuring it, even with a clock that jumps backwards, the
  emitted cycle numbers are strictly increasing, and none exceeds the configured maximum.
\<close>
theorem emitted_cycles_increase:
  "sorted_wrt (<) (map ev_cycle_id (scheduler_run xs (snd (scheduler_configure config s)))) \<and>
   (fst (scheduler_configure config s) \<and> cs_max_cycle config > 0 \<longrightarrow>
     (\<forall>ev \<in> set (scheduler_run xs (snd (scheduler_configure config s))).
        ev_cycle_id ev \<le> cs_max_cycle config))"
  using scheduler_run_increasing [of xs "snd (scheduler_configure config s)"]
  by (auto simp: scheduler_configure_def split: if_splits)

section \<open>Exactly once\<close>

definition wanted :: "CycleSchedulerConfig \<Rightarrow> u64 \<Rightarrow> bool" where
  "wanted c k \<longleftrightarrow> cs_max_cycle c = 0 \<or> k \<le> cs_max_cycle c"

definition wanted_cycles :: "CycleSchedulerConfig \<Rightarrow> i64 list \<Rightarrow> u64 list" where
  "wanted_cycles c ts = filter (wanted c) (map (computeCycleId c) ts)"

definition emitted :: "i64 list \<Rightarrow> CycleScheduler \<Rightarrow> u64 list" where
  "emitted ts s = map ev_cycle_id (scheduler_run (map (\<lambda>t. Tick t True) ts) s)"

lemma tick_in_range:
  assumes "in_range (sch_config s) t" "sch_running s"
  shows "\<exists>ev calls. tick t ok s =
    (let k = computeCycleId (sch_config s) t in
     if \<not> wanted (sch_config s) k then (None, [], s\<lparr>sch_running := False\<rparr>)
     else if sch_has_emitted s \<and> k \<le> sch_last_emitted_cycle s then (None, [], s)
     else (Some ev, calls, s\<lparr>sch_has_emitted := True, sch_last_emitted_cycle := k\<rparr>)) \<and>
   ev_cycle_id ev = computeCycleId (sch_config s) t"
proof -
  have w: "wanted (sch_config s) k \<longleftrightarrow> \<not> (cs_max_cycle (sch_config s) > 0 \<and> k > cs_max_cycle (sch_config s))" for k
    by (auto simp: wanted_def word_gt_0 not_less)
  obtain e where e: "expectedTimeNs (sch_config s) (computeCycleId (sch_config s) t) = Some e"
    using expectedTimeNs_cycle [OF assms(1)] by blast
  have g: "\<not> (\<not> sch_running s \<or> i64_le (cs_period_ns (sch_config s)) 0 \<or> i64_less t (cs_epoch_ns (sch_config s)))"
    using assms by (auto simp: in_range_def)
  let ?ev = "\<lparr>ev_session_id = cs_session_id (sch_config s), ev_task_id = cs_task_id (sch_config s),
    ev_cycle_id = computeCycleId (sch_config s) t, ev_expected_time_ns = e, ev_actual_time_ns = t,
    ev_jitter_ns = t - e, ev_period_ns = cs_period_ns (sch_config s), ev_clock_ok = ok\<rparr>"
  show ?thesis
    by (intro exI [of _ ?ev] exI [of _ "if sch_callback s then [?ev] else []"])
       (simp only: tick_def Let_def if_not_P [OF g] w e option.case simp_thms CycleEvent.simps)
qed

lemma stopped_emits_nothing: "\<not> sch_running s \<Longrightarrow> emitted ts s = []"
  by (induction ts) (simp_all add: emitted_def tick_def)

lemma emitted_Cons:
  assumes "in_range (sch_config s) t" "sch_running s"
  defines "k \<equiv> computeCycleId (sch_config s) t"
  shows "emitted (t # ts) s =
    (if \<not> wanted (sch_config s) k then []
     else if sch_has_emitted s \<and> k \<le> sch_last_emitted_cycle s then emitted ts s
     else k # emitted ts (s\<lparr>sch_has_emitted := True, sch_last_emitted_cycle := k\<rparr>))"
proof -
  obtain ev calls where tk: "tick t True s =
    (if \<not> wanted (sch_config s) k then (None, [], s\<lparr>sch_running := False\<rparr>)
     else if sch_has_emitted s \<and> k \<le> sch_last_emitted_cycle s then (None, [], s)
     else (Some ev, calls, s\<lparr>sch_has_emitted := True, sch_last_emitted_cycle := k\<rparr>))"
    and ev: "ev_cycle_id ev = k"
    using tick_in_range [OF assms(1,2), of True] unfolding k_def Let_def by blast
  show ?thesis
    using stopped_emits_nothing [of "s\<lparr>sch_running := False\<rparr>" ts] ev
    by (auto simp: emitted_def tk)
qed

lemma emitted_once:
  assumes "\<forall>t \<in> set ts. in_range (sch_config s) t" "sorted (map sint ts)" "sch_running s"
    and "sch_has_emitted s \<Longrightarrow> \<forall>t \<in> set ts. sch_last_emitted_cycle s \<le> computeCycleId (sch_config s) t"
  shows "emitted ts s =
    (if sch_has_emitted s then tl (remdups_adj (sch_last_emitted_cycle s # wanted_cycles (sch_config s) ts))
     else remdups_adj (wanted_cycles (sch_config s) ts))"
  using assms
proof (induction ts arbitrary: s)
  case Nil
  then show ?case by (simp add: emitted_def wanted_cycles_def)
next
  case (Cons t ts)
  let ?c = "sch_config s"
  let ?k = "computeCycleId ?c t"
  have mono: "?k \<le> computeCycleId ?c t'" if "t' \<in> set ts" for t'
    using that Cons.prems(1,2) by (intro computeCycleId_mono) auto
  note E = emitted_Cons [OF _ Cons.prems(3), of t ts]
  show ?case
  proof (cases "wanted ?c ?k")
    case False
    then have "filter (wanted ?c) (map (computeCycleId ?c) ts) = []"
      using mono by (force simp: filter_empty_conv wanted_def)
    with False Cons.prems(1) show ?thesis by (simp add: E wanted_cycles_def)
  next
    case True
    show ?thesis
    proof (cases "sch_has_emitted s \<and> ?k \<le> sch_last_emitted_cycle s")
      case old: True
      then have eq: "?k = sch_last_emitted_cycle s"
        using Cons.prems(4) by (simp add: order_antisym)
      have "emitted (t # ts) s = emitted ts s" using True old Cons.prems(1) by (simp add: E)
      also have "\<dots> = tl (remdups_adj (sch_last_emitted_cycle s # wanted_cycles ?c ts))"
        using old Cons by simp
      finally show ?thesis using True old eq by (simp add: wanted_cycles_def)
    next
      case new: False
      let ?s = "s\<lparr>sch_has_emitted := True, sch_last_emitted_cycle := ?k\<rparr>"
      have "emitted (t # ts) s = ?k # emitted ts ?s" using True new Cons.prems(1) by (auto simp: E)
      also have "emitted ts ?s = tl (remdups_adj (?k # wanted_cycles ?c ts))"
        using Cons.IH [of ?s] Cons.prems mono by simp
      also have "?k # \<dots> = remdups_adj (?k # wanted_cycles ?c ts)"
        by (metis remdups_adj_Cons_alt)
      finally show ?thesis using True new by (auto simp: wanted_cycles_def)
    qed
  qed
qed

text \<open>
  C3. Every cycle is emitted exactly once. If a freshly configured and started scheduler is ticked at
  non-decreasing times within the representable range, the emitted cycles are precisely the cycles in
  which at least one tick fell, each once and in order, up to the configured maximum cycle.
\<close>
theorem each_cycle_emitted_once:
  assumes "scheduler_configure config s0 = (True, s)"
    and "sorted (map sint ts)" and "\<forall>t \<in> set ts. in_range config t"
  shows "emitted ts (scheduler_start s) = remdups_adj (wanted_cycles config ts)"
proof -
  have s: "sch_config s = config" "\<not> sch_has_emitted s" "0 < sint (cs_period_ns config)"
    using assms(1)
    by (auto simp: scheduler_configure_def isValidPeriodNs_def kMinPeriodNs_def split: if_splits)
  then have "sch_config (scheduler_start s) = config" "sch_running (scheduler_start s)"
    "\<not> sch_has_emitted (scheduler_start s)"
    by (simp_all add: scheduler_start_def)
  with emitted_once [of ts "scheduler_start s"] assms(2,3) show ?thesis by simp
qed

section \<open>From cycle numbers back to time\<close>

text \<open>
  C23. Expected time and cycle number are inverse. For a cycle not before the start cycle whose start
  time is representable, expectedTimeNs returns exactly the epoch plus the elapsed periods, and
  computeCycleId maps that time back to the cycle.
\<close>
theorem cycle_time_roundtrip:
  assumes "0 < sint (cs_period_ns c)" and "cs_start_cycle c \<le> k"
    and "(uint k - uint (cs_start_cycle c)) * sint (cs_period_ns c) < 2 ^ 63"
    and "sint (cs_epoch_ns c) + (uint k - uint (cs_start_cycle c)) * sint (cs_period_ns c) < 2 ^ 63"
  shows "\<exists>t. expectedTimeNs c k = Some t \<and> computeCycleId c t = k \<and>
    sint t = sint (cs_epoch_ns c) + (uint k - uint (cs_start_cycle c)) * sint (cs_period_ns c)"
proof -
  let ?p = "cs_period_ns c" and ?e = "cs_epoch_ns c" and ?d = "uint k - uint (cs_start_cycle c)"
  have d: "0 \<le> ?d" using assms(2) by (simp add: word_le_def)
  have dp: "0 \<le> ?d * sint ?p" using d assms(1) by simp
  define now where "now = (word_of_int (sint ?e + ?d * sint ?p) :: i64)"
  have now: "sint now = sint ?e + ?d * sint ?p"
    unfolding now_def using dp assms(4) i64_range [of ?e] by (intro sint_i64_of_int) auto
  have q: "(sint now - sint ?e) div sint ?p = ?d" using assms(1) by (simp add: now)
  have r: "in_range c now"
    using assms(1,3) dp q uint_lt2p [of k] by (auto simp: in_range_def cycle_at_def now)
  have k: "computeCycleId c now = k"
    using uint_computeCycleId [OF r] q by (simp add: cycle_at_def word_uint_eq_iff)
  then obtain t where t: "expectedTimeNs c k = Some t" "sint t = sint now"
    using expectedTimeNs_cycle [OF r] q now by auto
  then have "t = now" by (simp add: signed_word_eqI)
  with t k now show ?thesis by auto
qed

definition late_cycle_config :: CycleSchedulerConfig where
  "late_cycle_config = CycleSchedulerConfig_default\<lparr>cs_session_id := ''s'', cs_task_id := ''t'',
     cs_epoch_ns := 1700000000000000000, cs_period_ns := kMinPeriodNs\<rparr>"

text \<open>
  The saturation of expectedTimeNs leaves out the epoch: with an epoch in the year 2023 and the
  shortest period, a cycle just below the saturation bound gets a start time before the epoch, because
  adding the epoch overflows, while the next higher cycle saturates at the maximum.
\<close>
lemma expected_time_overflows_below_saturation:
  "fst (scheduler_configure late_cycle_config s) \<and>
   (\<exists>t. expectedTimeNs late_cycle_config 461168601842 = Some t \<and> sint t < sint (cs_epoch_ns late_cycle_config)) \<and>
   expectedTimeNs late_cycle_config 461168601843 = Some i64_max"
  by (simp add: late_cycle_config_def CycleSchedulerConfig_default_def kMinPeriodNs_def kMaxPeriodNs_def
      expectedTimeNs_def Let_def scheduler_configure_def isValidPeriodNs_def)

section \<open>Witnesses\<close>

definition demo_scheduler_config :: CycleSchedulerConfig where
  "demo_scheduler_config = CycleSchedulerConfig_default\<lparr>cs_session_id := ''s'', cs_task_id := ''t'',
     cs_epoch_ns := 1000, cs_period_ns := 20000000, cs_start_cycle := 5, cs_max_cycle := 7\<rparr>"

definition demo_scheduler :: CycleScheduler where
  "demo_scheduler = scheduler_start (snd (scheduler_configure demo_scheduler_config CycleScheduler_new))"

lemmas demo_scheduler_simps =
  demo_scheduler_config_def CycleSchedulerConfig_default_def scheduler_configure_def isValidPeriodNs_def
  kMinPeriodNs_def kMaxPeriodNs_def

lemma demo_in_range: "t \<in> {1000, 30000000, 35000000, 70000000} \<Longrightarrow> in_range demo_scheduler_config t"
  by (auto simp: in_range_def cycle_at_def demo_scheduler_simps)

theorem tick_event_timing_witness:
  "\<exists>ev calls s'. tick 30000000 True demo_scheduler = (Some ev, calls, s') \<and> sint (ev_jitter_ns ev) < 20000000"
proof -
  have c: "sch_config demo_scheduler = demo_scheduler_config" "sch_running demo_scheduler"
    "\<not> sch_has_emitted demo_scheduler"
    by (simp_all add: demo_scheduler_def scheduler_start_def demo_scheduler_simps)
  have w: "wanted demo_scheduler_config (computeCycleId demo_scheduler_config 30000000)"
    by (simp add: wanted_def computeCycleId_def demo_scheduler_simps)
  obtain ev calls where "tick 30000000 True demo_scheduler = (Some ev, calls,
      demo_scheduler\<lparr>sch_has_emitted := True,
        sch_last_emitted_cycle := computeCycleId demo_scheduler_config 30000000\<rparr>)"
    using tick_in_range [of demo_scheduler 30000000 True] demo_in_range [of 30000000] c w
    by (auto simp: Let_def)
  moreover from tick_event_timing [OF this, unfolded c(1)] demo_in_range [of 30000000]
  have "sint (ev_jitter_ns ev) < sint (cs_period_ns demo_scheduler_config)" by blast
  ultimately show ?thesis by (auto simp: demo_scheduler_simps)
qed

theorem emitted_cycles_increase_witness:
  "list_all (\<lambda>ev. ev_cycle_id ev \<le> 7) (scheduler_run [Start, Tick 30000000 True, Tick 90000000 True]
       (snd (scheduler_configure demo_scheduler_config CycleScheduler_new)))"
proof -
  have "fst (scheduler_configure demo_scheduler_config CycleScheduler_new)"
    "cs_max_cycle demo_scheduler_config = 7"
    by (simp_all add: demo_scheduler_simps)
  then show ?thesis
    using emitted_cycles_increase [of "[Start, Tick 30000000 True, Tick 90000000 True]"
        demo_scheduler_config CycleScheduler_new] unfolding list_all_iff by simp
qed

theorem each_cycle_emitted_once_witness:
  "emitted [1000, 30000000, 35000000, 70000000] demo_scheduler = [5, 6]"
proof -
  have "scheduler_configure demo_scheduler_config CycleScheduler_new =
      (True, snd (scheduler_configure demo_scheduler_config CycleScheduler_new))"
    by (simp add: demo_scheduler_simps)
  from each_cycle_emitted_once [OF this, of "[1000, 30000000, 35000000, 70000000]"]
  have "emitted [1000, 30000000, 35000000, 70000000] demo_scheduler =
      remdups_adj (wanted_cycles demo_scheduler_config [1000, 30000000, 35000000, 70000000])"
    using demo_in_range by (simp add: demo_scheduler_def)
  also have "\<dots> = [5, 6]"
    by (simp add: wanted_cycles_def wanted_def computeCycleId_def demo_scheduler_simps)
  finally show ?thesis .
qed

theorem cycle_time_roundtrip_witness:
  "\<exists>t. expectedTimeNs demo_scheduler_config 6 = Some t \<and> computeCycleId demo_scheduler_config t = 6"
  using cycle_time_roundtrip [of demo_scheduler_config 6] by (auto simp: demo_scheduler_simps)

end
