(* ===== verification/Weaknet_Guards.thy ===== *)
theory Weaknet_Guards
  imports Types Double
begin

text \<open>
  The stateless policies of the weak-network layer, \<^verbatim>\<open>src/core/weaknet/\<close>: channel profiles, the cycle
  window, the payload guard, the traffic budget and the deterministic send stagger.
\<close>

section \<open>channel\_profile.cpp\<close>

datatype ChannelKind = RealtimeSample | Health | CommandConfig | BulkDebug
datatype Reliability = BestEffort | Reliable
datatype CongestionControl = Drop | Block
datatype Priority = RealTime | InteractiveHigh | DataHigh | DataLow | Background

record ZenohQosProfile =
  qos_reliability :: Reliability
  qos_congestion :: CongestionControl
  qos_priority :: Priority
  qos_express :: bool

record ChannelProfile =
  prof_name :: string
  prof_kind :: ChannelKind
  prof_qos :: ZenohQosProfile
  prof_allow_ack :: bool
  prof_max_queue_cycles :: u32
  prof_max_hz :: double
  prof_max_bandwidth_kbps :: u32

definition ChannelProfile_default :: ChannelProfile where
  "ChannelProfile_default =
     \<lparr>prof_name = '''', prof_kind = RealtimeSample,
      prof_qos = \<lparr>qos_reliability = BestEffort, qos_congestion = Drop, qos_priority = DataHigh, qos_express = False\<rparr>,
      prof_allow_ack = False, prof_max_queue_cycles = 1, prof_max_hz = Fin 0, prof_max_bandwidth_kbps = 0\<rparr>"

definition defaultProfileFor :: "ChannelKind \<Rightarrow> ChannelProfile" where
  "defaultProfileFor kind =
     (let profile = ChannelProfile_default\<lparr>prof_kind := kind\<rparr> in
      case kind of
        RealtimeSample \<Rightarrow> profile\<lparr>prof_name := ''realtime_sample'',
          prof_qos := \<lparr>qos_reliability = BestEffort, qos_congestion = Drop, qos_priority = RealTime, qos_express = True\<rparr>,
          prof_allow_ack := False, prof_max_queue_cycles := 1, prof_max_hz := Fin 50\<rparr>
      | Health \<Rightarrow> profile\<lparr>prof_name := ''health'',
          prof_qos := \<lparr>qos_reliability = BestEffort, qos_congestion = Drop, qos_priority = DataLow, qos_express = False\<rparr>,
          prof_allow_ack := False, prof_max_queue_cycles := 1, prof_max_hz := Fin 2\<rparr>
      | CommandConfig \<Rightarrow> profile\<lparr>prof_name := ''command_config'',
          prof_qos := \<lparr>qos_reliability = Reliable, qos_congestion = Block, qos_priority = InteractiveHigh, qos_express = True\<rparr>,
          prof_allow_ack := True, prof_max_queue_cycles := 0\<rparr>
      | BulkDebug \<Rightarrow> profile\<lparr>prof_name := ''bulk_debug'',
          prof_qos := \<lparr>qos_reliability = BestEffort, qos_congestion = Drop, qos_priority = Background, qos_express = False\<rparr>,
          prof_allow_ack := False, prof_max_queue_cycles := 2, prof_max_bandwidth_kbps := 50\<rparr>)"

definition validateChannelProfile :: "ChannelProfile \<Rightarrow> string + unit" where
  "validateChannelProfile profile =
     (if prof_name profile = '''' then Inl ''channel profile name is required''
      else if prof_kind profile = RealtimeSample \<and> prof_allow_ack profile
      then Inl ''realtime_sample must not use per-sample ACK''
      else if prof_kind profile = RealtimeSample \<and> qos_congestion (prof_qos profile) \<noteq> Drop
      then Inl ''realtime_sample must use drop congestion control''
      else if prof_kind profile = RealtimeSample \<and> prof_max_queue_cycles profile > 1
      then Inl ''realtime_sample max_queue_cycles must be <= 1''
      else if prof_kind profile = CommandConfig \<and> qos_reliability (prof_qos profile) \<noteq> Reliable
      then Inl ''command_config must use reliable QoS''
      else if dlt (prof_max_hz profile) (Fin 0) \<or> \<not> isfinite (prof_max_hz profile)
      then Inl ''max_hz must be finite and non-negative''
      else Inr ())"

fun ChannelKind_toString :: "ChannelKind \<Rightarrow> string" where
  "ChannelKind_toString RealtimeSample = ''realtime_sample''"
| "ChannelKind_toString Health = ''health''"
| "ChannelKind_toString CommandConfig = ''command_config''"
| "ChannelKind_toString BulkDebug = ''bulk_debug''"

definition Reliability_toString :: "Reliability \<Rightarrow> string" where
  "Reliability_toString r = (if r = Reliable then ''reliable'' else ''best_effort'')"

definition CongestionControl_toString :: "CongestionControl \<Rightarrow> string" where
  "CongestionControl_toString c = (if c = Block then ''block'' else ''drop'')"

fun Priority_toString :: "Priority \<Rightarrow> string" where
  "Priority_toString RealTime = ''real_time''"
| "Priority_toString InteractiveHigh = ''interactive_high''"
| "Priority_toString DataHigh = ''data_high''"
| "Priority_toString DataLow = ''data_low''"
| "Priority_toString Background = ''background''"

section \<open>cycle\_window.cpp\<close>

datatype LateDisposition = NotLate | LatePocket | Expired

record CycleWindowConfig =
  win_period_ns :: i64
  win_receive_cutoff_offset_ns :: i64
  win_late_record_window_ns :: i64
  win_ttl_ns :: i64

record SampleTiming =
  smp_target_cycle :: u64
  smp_local_receive_ns :: i64
  smp_sender_clock_ok :: bool
  smp_schema_ok :: bool
  smp_payload_ok :: bool
  smp_producer_ok :: bool
  smp_duplicate :: bool

record WindowDecision =
  wd_status :: SampleStatus
  wd_late_disposition :: LateDisposition
  wd_usable_for_cycle :: bool
  wd_record_in_late_pocket :: bool
  wd_reason :: string

definition CycleWindow_valid :: "CycleWindowConfig \<Rightarrow> string + unit" where
  "CycleWindow_valid cfg =
     (if i64_le (win_period_ns cfg) 0 then Inl ''period_ns must be positive''
      else if i64_less (win_receive_cutoff_offset_ns cfg) 0 \<or> i64_less (win_late_record_window_ns cfg) 0 \<or>
              i64_less (win_ttl_ns cfg) 0
      then Inl ''window durations must be non-negative''
      else if i64_less (win_period_ns cfg) (win_receive_cutoff_offset_ns cfg)
      then Inl ''receive cutoff must be inside the current cycle''
      else Inr ())"

definition window_drop :: "SampleStatus \<Rightarrow> LateDisposition \<Rightarrow> bool \<Rightarrow> string \<Rightarrow> WindowDecision" where
  "window_drop st late pocket why =
     \<lparr>wd_status = st, wd_late_disposition = late, wd_usable_for_cycle = False,
      wd_record_in_late_pocket = pocket, wd_reason = why\<rparr>"

definition classify :: "CycleWindowConfig \<Rightarrow> u64 \<Rightarrow> i64 \<Rightarrow> SampleTiming \<Rightarrow> WindowDecision" where
  "classify cfg current_cycle cycle_start_ns sample =
     (let cutoff_ns = cycle_start_ns + win_receive_cutoff_offset_ns cfg;
          late_until_ns = cutoff_ns + win_late_record_window_ns cfg in
      if \<not> smp_sender_clock_ok sample then window_drop SenderClockBad NotLate False ''sender clock is bad''
      else if \<not> smp_producer_ok sample
      then window_drop SenderReportedFail NotLate False ''producer reported failure''
      else if \<not> smp_schema_ok sample then window_drop BadSchema NotLate False ''schema check failed''
      else if \<not> smp_payload_ok sample then window_drop BadPayload NotLate False ''payload check failed''
      else if smp_duplicate sample then window_drop Duplicate NotLate False ''duplicate sample''
      else if smp_target_cycle sample \<noteq> current_cycle
      then window_drop WrongCycle NotLate False ''target cycle mismatch''
      else if i64_less 0 (win_receive_cutoff_offset_ns cfg) \<and> i64_less cutoff_ns (smp_local_receive_ns sample)
      then (if win_late_record_window_ns cfg = 0 \<or> i64_le (smp_local_receive_ns sample) late_until_ns
            then window_drop Late LatePocket True ''arrived after receive cutoff''
            else window_drop Late Expired False ''arrived after late record window'')
      else if i64_less 0 (win_ttl_ns cfg) \<and>
              i64_less (cycle_start_ns + win_ttl_ns cfg) (smp_local_receive_ns sample)
      then window_drop Late Expired False ''sample ttl expired''
      else \<lparr>wd_status = Fresh, wd_late_disposition = NotLate, wd_usable_for_cycle = True,
            wd_record_in_late_pocket = False, wd_reason = ''fresh''\<rparr>)"

section \<open>payload\_guard.cpp\<close>

datatype PayloadGuardAction = Accept | Warn | Reject

record PayloadGuardConfig =
  pg_warn_bytes :: nat
  pg_reject_bytes :: nat
  pg_allow_empty_payload :: bool
  pg_require_schema_id :: bool
  pg_require_payload_type :: bool

record PayloadGuardDecision =
  pd_action :: PayloadGuardAction
  pd_payload_bytes :: nat
  pd_reason :: string

definition checkPayload :: "PayloadGuardConfig \<Rightarrow> nat \<Rightarrow> string \<Rightarrow> string \<Rightarrow> PayloadGuardDecision" where
  "checkPayload config payload_bytes payload_type schema_id =
     (let decide = (\<lambda>act why. \<lparr>pd_action = act, pd_payload_bytes = payload_bytes, pd_reason = why\<rparr>) in
      if \<not> pg_allow_empty_payload config \<and> payload_bytes = 0
      then decide Reject ''empty payload is not allowed''
      else if pg_require_payload_type config \<and> payload_type = ''''
      then decide Reject ''payload_type is required''
      else if pg_require_schema_id config \<and> schema_id = '''' then decide Reject ''schema_id is required''
      else if pg_reject_bytes config > 0 \<and> payload_bytes > pg_reject_bytes config
      then decide Reject ''payload exceeds reject threshold''
      else if pg_warn_bytes config > 0 \<and> payload_bytes > pg_warn_bytes config
      then decide Warn ''payload exceeds warning threshold''
      else decide Accept ''accepted'')"

section \<open>budget\_guard.cpp\<close>

record ChannelBudgetInput =
  bud_channel :: string
  bud_publishers :: u32
  bud_effective_fanout :: u32
  bud_frequency_hz :: double
  bud_payload_bytes_p95 :: u32
  bud_envelope_overhead_bytes :: u32
  bud_transport_overhead_bytes :: u32

record BudgetReport =
  rep_accepted :: bool
  rep_total_realtime_bps :: double
  rep_max_realtime_bps :: double
  rep_utilization_ratio :: double
  rep_reason :: string

definition budget_term :: "double \<Rightarrow> ChannelBudgetInput \<Rightarrow> double" where
  "budget_term factor input =
     (let bytes_per_sample = d_of_nat (unat (bud_payload_bytes_p95 input + bud_envelope_overhead_bytes input +
            bud_transport_overhead_bytes input))
      in dmul (dmul (dmul (dmul (dmul (d_of_nat (unat (bud_publishers input)))
           (d_of_nat (unat (bud_effective_fanout input)))) (bud_frequency_hz input)) bytes_per_sample)
           (Fin 8)) factor)"

definition computeTrafficBudget :: "ChannelBudgetInput list \<Rightarrow> double \<Rightarrow> double \<Rightarrow> BudgetReport" where
  "computeTrafficBudget inputs max_realtime_bps safety_factor =
     (if dle max_realtime_bps (Fin 0) \<or> \<not> isfinite max_realtime_bps then
        \<lparr>rep_accepted = False, rep_total_realtime_bps = Fin 0, rep_max_realtime_bps = max_realtime_bps,
         rep_utilization_ratio = Fin 0, rep_reason = ''max_realtime_bps must be positive''\<rparr>
      else
        let factor = (if dlt (Fin 0) safety_factor \<and> isfinite safety_factor then safety_factor else Fin 1);
            total = foldl (\<lambda>acc input. dadd acc (budget_term factor input)) (Fin 0) inputs;
            accepted = dle total max_realtime_bps
        in \<lparr>rep_accepted = accepted, rep_total_realtime_bps = total, rep_max_realtime_bps = max_realtime_bps,
            rep_utilization_ratio = ddiv total max_realtime_bps,
            rep_reason = (if accepted then ''within budget'' else ''traffic budget exceeded'')\<rparr>)"

section \<open>send\_stagger.cpp\<close>

record SendStaggerConfig =
  sg_enabled :: bool
  sg_max_spread_ns :: i64
  sg_slot_width_ns :: i64

record SendStaggerDecision =
  sd_enabled :: bool
  sd_slot_index :: u32
  sd_offset_ns :: i64
  sd_reason :: string

text \<open>\<^verbatim>\<open>std::to_string\<close> of an unsigned integer.\<close>

fun decimal :: "nat \<Rightarrow> string" where
  "decimal n = (if n < 10 then [char_of (48 + n)] else decimal (n div 10) @ [char_of (48 + n mod 10)])"

declare decimal.simps [simp del]

text \<open>
  \<^verbatim>\<open>std::hash<std::string>\<close> is unspecified by the language and a parameter \<open>hash\<close>. The number of slots is
  computed in \<^verbatim>\<open>uint32_t\<close>; when it wraps to zero the code takes a remainder modulo zero, which is \<open>None\<close>.
\<close>

definition decide :: "(string \<Rightarrow> u64) \<Rightarrow> SendStaggerConfig \<Rightarrow> string \<Rightarrow> string \<Rightarrow> string \<Rightarrow> u64
    \<Rightarrow> SendStaggerDecision option" where
  "decide hash cfg session_id channel sender_id cycle_id =
     (if \<not> sg_enabled cfg \<or> i64_le (sg_max_spread_ns cfg) 0 \<or> i64_le (sg_slot_width_ns cfg) 0
      then Some \<lparr>sd_enabled = False, sd_slot_index = 0, sd_offset_ns = 0, sd_reason = ''stagger disabled''\<rparr>
      else
        let slot_count = ucast (sg_max_spread_ns cfg div sg_slot_width_ns cfg) + 1 :: u32;
            key = session_id @ ''|'' @ channel @ ''|'' @ sender_id @ ''|'' @ decimal (unat cycle_id)
        in if slot_count = 0 then None
           else
             let slot_index = ucast (hash key mod ucast slot_count) :: u32;
                 offset_ns = ucast slot_index * sg_slot_width_ns cfg;
                 offset_ns = (if i64_less (sg_max_spread_ns cfg) offset_ns then sg_max_spread_ns cfg else offset_ns)
             in Some \<lparr>sd_enabled = True, sd_slot_index = slot_index, sd_offset_ns = offset_ns,
                      sd_reason = ''deterministic_micro_slot''\<rparr>)"

section \<open>The cycle window\<close>

definition sample_acceptable :: "u64 \<Rightarrow> SampleTiming \<Rightarrow> bool" where
  "sample_acceptable cycle s \<longleftrightarrow>
     smp_sender_clock_ok s \<and> smp_producer_ok s \<and> smp_schema_ok s \<and> smp_payload_ok s \<and>
     \<not> smp_duplicate s \<and> smp_target_cycle s = cycle"

definition window_no_overflow :: "CycleWindowConfig \<Rightarrow> i64 \<Rightarrow> bool" where
  "window_no_overflow cfg start \<longleftrightarrow>
     0 \<le> sint start \<and>
     sint start + sint (win_receive_cutoff_offset_ns cfg) + sint (win_late_record_window_ns cfg) < 2 ^ 63 \<and>
     sint start + sint (win_ttl_ns cfg) < 2 ^ 63"

lemma window_sums:
  assumes "CycleWindow_valid cfg = Inr ()" "window_no_overflow cfg start"
  shows "sint (start + win_receive_cutoff_offset_ns cfg) = sint start + sint (win_receive_cutoff_offset_ns cfg)"
    "sint (start + win_receive_cutoff_offset_ns cfg + win_late_record_window_ns cfg) =
       sint start + sint (win_receive_cutoff_offset_ns cfg) + sint (win_late_record_window_ns cfg)"
    "sint (start + win_ttl_ns cfg) = sint start + sint (win_ttl_ns cfg)"
proof -
  have v: "0 \<le> sint (win_receive_cutoff_offset_ns cfg)" "0 \<le> sint (win_late_record_window_ns cfg)"
    "0 \<le> sint (win_ttl_ns cfg)"
    using assms(1) by (auto simp: CycleWindow_valid_def split: if_splits)
  show 1: "sint (start + win_receive_cutoff_offset_ns cfg) = sint start + sint (win_receive_cutoff_offset_ns cfg)"
    by (rule sint_i64_add) (use v assms(2) in \<open>auto simp: window_no_overflow_def\<close>)
  show "sint (start + win_receive_cutoff_offset_ns cfg + win_late_record_window_ns cfg) =
       sint start + sint (win_receive_cutoff_offset_ns cfg) + sint (win_late_record_window_ns cfg)"
    by (subst sint_i64_add) (use v 1 assms(2) in \<open>auto simp: window_no_overflow_def\<close>)
  show "sint (start + win_ttl_ns cfg) = sint start + sint (win_ttl_ns cfg)"
    by (rule sint_i64_add) (use v assms(2) in \<open>auto simp: window_no_overflow_def\<close>)
qed

text \<open>
  C35. The cycle window. With a valid configuration and no overflow, a sample is usable for the cycle
  exactly when it is acceptable, arrived by the receive cutoff (if one is set) and within the time to
  live (if one is set); it goes to the late pocket exactly when it is acceptable and arrived after the
  cutoff, but by the end of the late window if that window is limited. A sample in the late pocket is
  therefore never usable: no late sample is passed off as fresh. The code reads a zero as "not set": with a
  cutoff of zero nothing is late by the cutoff, and with a late window of zero the late pocket is open
  without limit, where \<^verbatim>\<open>docs/weaknet/03_cycle_window_and_late_pocket.md\<close> has no such exceptions.
\<close>
theorem cycle_window_classification:
  assumes "CycleWindow_valid cfg = Inr ()" and "window_no_overflow cfg start"
  shows "(wd_usable_for_cycle (classify cfg cycle start s) \<longleftrightarrow>
      sample_acceptable cycle s \<and>
      (win_receive_cutoff_offset_ns cfg = 0 \<or>
        sint (smp_local_receive_ns s) \<le> sint start + sint (win_receive_cutoff_offset_ns cfg)) \<and>
      (win_ttl_ns cfg = 0 \<or> sint (smp_local_receive_ns s) \<le> sint start + sint (win_ttl_ns cfg))) \<and>
    (wd_record_in_late_pocket (classify cfg cycle start s) \<longleftrightarrow>
      sample_acceptable cycle s \<and> win_receive_cutoff_offset_ns cfg \<noteq> 0 \<and>
      sint start + sint (win_receive_cutoff_offset_ns cfg) < sint (smp_local_receive_ns s) \<and>
      (win_late_record_window_ns cfg = 0 \<or>
        sint (smp_local_receive_ns s) \<le>
          sint start + sint (win_receive_cutoff_offset_ns cfg) + sint (win_late_record_window_ns cfg))) \<and>
    (wd_usable_for_cycle (classify cfg cycle start s) \<longleftrightarrow> wd_status (classify cfg cycle start s) = Fresh)"
proof -
  have z: "i64_less 0 (win_receive_cutoff_offset_ns cfg) \<longleftrightarrow> win_receive_cutoff_offset_ns cfg \<noteq> 0"
    "i64_less 0 (win_ttl_ns cfg) \<longleftrightarrow> win_ttl_ns cfg \<noteq> 0"
    using assms(1) by (simp_all add: CycleWindow_valid_def i64_pos_iff not_less split: if_splits)
  show ?thesis
    unfolding classify_def Let_def z window_sums [OF assms]
    by (simp add: window_drop_def sample_acceptable_def not_less; blast)
qed

definition demo_window :: CycleWindowConfig where
  "demo_window = \<lparr>win_period_ns = 100, win_receive_cutoff_offset_ns = 60, win_late_record_window_ns = 30, win_ttl_ns = 0\<rparr>"

definition demo_timing_at :: "i64 \<Rightarrow> SampleTiming" where
  "demo_timing_at t = \<lparr>smp_target_cycle = 3, smp_local_receive_ns = t, smp_sender_clock_ok = True,
     smp_schema_ok = True, smp_payload_ok = True, smp_producer_ok = True, smp_duplicate = False\<rparr>"

theorem cycle_window_classification_witness:
  "wd_usable_for_cycle (classify demo_window 3 1000 (demo_timing_at 1060)) \<and>
   wd_record_in_late_pocket (classify demo_window 3 1000 (demo_timing_at 1090)) \<and>
   \<not> wd_record_in_late_pocket (classify demo_window 3 1000 (demo_timing_at 1091))"
proof -
  have "CycleWindow_valid demo_window = Inr ()" "window_no_overflow demo_window 1000"
    by (simp_all add: demo_window_def CycleWindow_valid_def window_no_overflow_def)
  note C = cycle_window_classification [OF this]
  show ?thesis
    using C [of 3 "demo_timing_at 1060"] C [of 3 "demo_timing_at 1090"] C [of 3 "demo_timing_at 1091"]
    by (simp add: demo_window_def demo_timing_at_def sample_acceptable_def)
qed

section \<open>Profiles and payload guard\<close>

text \<open>
  The built-in channel profiles are valid, and every valid profile of a realtime channel, built in
  or not, sends without acknowledgement, drops under congestion and queues at most one cycle.
\<close>
lemma channel_profiles_valid:
  "validateChannelProfile (defaultProfileFor kind) = Inr () \<and> prof_kind (defaultProfileFor kind) = kind \<and>
   prof_name (defaultProfileFor kind) = ChannelKind_toString kind \<and>
   (validateChannelProfile p = Inr () \<and> prof_kind p = RealtimeSample \<longrightarrow>
     \<not> prof_allow_ack p \<and> qos_congestion (prof_qos p) = Drop \<and> prof_max_queue_cycles p \<le> 1)"
proof (intro conjI impI)
  show "validateChannelProfile (defaultProfileFor kind) = Inr ()" "prof_kind (defaultProfileFor kind) = kind"
    "prof_name (defaultProfileFor kind) = ChannelKind_toString kind"
    by (cases kind; simp add: defaultProfileFor_def validateChannelProfile_def ChannelProfile_default_def)+
qed (auto simp: validateChannelProfile_def not_less split: if_splits)

fun severity :: "PayloadGuardAction \<Rightarrow> nat" where
  "severity Accept = 0" | "severity Warn = 1" | "severity Reject = 2"

text \<open>
  The payload guard is monotone: a larger non-empty payload of the same type and schema never gets
  a milder action, and nothing above a configured reject threshold passes.
\<close>
lemma payload_guard_monotone:
  assumes "0 < n" and "n \<le> m"
  shows "severity (pd_action (checkPayload cfg n ty schema)) \<le> severity (pd_action (checkPayload cfg m ty schema)) \<and>
    (0 < pg_reject_bytes cfg \<and> pg_reject_bytes cfg < n \<longrightarrow> pd_action (checkPayload cfg n ty schema) = Reject)"
  using assms by (auto simp: checkPayload_def Let_def)

section \<open>The traffic budget\<close>

definition sample_bytes :: "ChannelBudgetInput \<Rightarrow> nat" where
  "sample_bytes x = unat (bud_payload_bytes_p95 x) + unat (bud_envelope_overhead_bytes x) +
     unat (bud_transport_overhead_bytes x)"












text \<open>
  The sample size of the budget is summed in 32 bits and wraps: a channel whose payload estimate and
  overheads add up to 2^32 bytes per sample is accepted with a computed load of zero, whatever the
  positive limit.
\<close>
lemma traffic_budget_size_wraps:
  "\<exists>x. sample_bytes x = 2 ^ 32 \<and> bud_publishers x = 1 \<and> bud_effective_fanout x = 1 \<and> bud_frequency_hz x = Fin 50 \<and>
     rep_accepted (computeTrafficBudget [x] (Fin 1) (Fin 1)) \<and>
     rep_total_realtime_bps (computeTrafficBudget [x] (Fin 1) (Fin 1)) = Fin 0"
proof -
  let ?x = "\<lparr>bud_channel = ''pose'', bud_publishers = 1, bud_effective_fanout = 1, bud_frequency_hz = Fin 50,
     bud_payload_bytes_p95 = 4294967104, bud_envelope_overhead_bytes = 128, bud_transport_overhead_bytes = 64\<rparr>
     :: ChannelBudgetInput"
  have one: "d_of_nat (Suc 0) = Fin 1" "d_of_nat 0 = Fin 0"
    using d_of_nat_exact [of 1] d_of_nat_exact [of 0] by simp_all
  have m: "mk_double 1 = Fin 1" "mk_double 0 = Fin 0" "mk_double 50 = Fin 50"
    using d_of_nat_exact [of 1] d_of_nat_exact [of 0] d_of_nat_exact [of 50] by (simp_all add: d_of_nat_def)
  have "budget_term (Fin 1) ?x = Fin 0"
    by (simp add: budget_term_def Let_def one m)
  then show ?thesis
    by (intro exI [of _ ?x]) (simp add: computeTrafficBudget_def Let_def sample_bytes_def m)
qed

section \<open>The send stagger\<close>

lemma slot_bound:
  fixes q :: i64 and h :: u64
  assumes "(ucast q + 1 :: u32) \<noteq> 0"
  shows "unat (ucast (h mod ucast (ucast q + 1 :: u32)) :: u32) \<le> unat q"
proof -
  let ?n = "ucast q + 1 :: u32"
  have "unat ?n \<noteq> 0" using assms by (simp add: unat_eq_0)
  moreover have "unat ?n = (unat q mod 2 ^ 32 + 1) mod 2 ^ 32" by (simp add: unat_word_ariths unat_ucast_down)
  ultimately have n: "unat ?n = unat q mod 2 ^ 32 + 1"
    by (metis Suc_eq_plus1 mod_Suc mod_mod_trivial)
  have "unat (h mod ucast ?n) = unat h mod unat ?n" by (simp only: unat_mod_distrib unat_ucast_up)
  then have "unat (h mod ucast ?n) < unat ?n" using \<open>unat ?n \<noteq> 0\<close> by simp
  moreover have "unat (ucast (h mod ucast ?n) :: u32) \<le> unat (h mod ucast ?n)"
    by (simp only: unat_ucast_down mod_less_eq_dividend)
  ultimately have "unat (ucast (h mod ucast ?n) :: u32) \<le> unat q mod 2 ^ 32" using n by linarith
  also have "\<dots> \<le> unat q" by (rule mod_less_eq_dividend)
  finally show ?thesis .
qed

text \<open>
  C39. The send offset of an enabled stagger is a whole number of slots, at least zero and at most the
  configured spread, whatever the hash function; a disabled or misconfigured stagger sends at offset
  zero.
\<close>
theorem stagger_within_spread:
  assumes "decide hash cfg session channel sender cycle = Some d"
  shows "(if sd_enabled d
     then sint (sd_offset_ns d) = uint (sd_slot_index d) * sint (sg_slot_width_ns cfg) \<and>
       0 \<le> sint (sd_offset_ns d) \<and> sint (sd_offset_ns d) \<le> sint (sg_max_spread_ns cfg)
     else sd_offset_ns d = 0 \<and>
       (\<not> sg_enabled cfg \<or> sint (sg_max_spread_ns cfg) \<le> 0 \<or> sint (sg_slot_width_ns cfg) \<le> 0))"
proof (cases "\<not> sg_enabled cfg \<or> i64_le (sg_max_spread_ns cfg) 0 \<or> i64_le (sg_slot_width_ns cfg) 0")
  case True
  with assms show ?thesis by (auto simp: decide_def)
next
  case False
  let ?w = "sg_slot_width_ns cfg" and ?m = "sg_max_spread_ns cfg"
  let ?h = "hash (session @ ''|'' @ channel @ ''|'' @ sender @ ''|'' @ decimal (unat cycle))"
  let ?n = "ucast (?m div ?w) + 1 :: u32"
  let ?i = "ucast (?h mod ucast ?n) :: u32"
  have n: "?n \<noteq> 0" using assms False by (auto simp: decide_def Let_def)
  have w: "uint ?w = sint ?w" "uint ?m = sint ?m" "0 < sint ?w"
    using False by (simp_all add: uint_of_nonneg_i64 not_le)
  have "uint ?i \<le> uint (?m div ?w)" using slot_bound [OF n, of ?h] unfolding uint_nat of_nat_le_iff .
  then have "uint ?i * sint ?w \<le> (sint ?m div sint ?w) * sint ?w"
    using w by (intro mult_right_mono) (simp_all add: uint_div)
  also have "\<dots> \<le> sint ?m" using pos_mod_sign [OF w(3), of "sint ?m"] by (simp add: minus_mod_eq_div_mult [symmetric])
  finally have le: "uint ?i * sint ?w \<le> sint ?m" .
  have uc: "uint (ucast ?i :: i64) = uint ?i" by (rule uint_ucast_up)
  have "sint (ucast ?i * ?w :: i64) = uint ?i * sint ?w"
    using sint_i64_mult [of "ucast ?i" ?w] le i64_range(2) [of ?m] by (simp only: uc w)
  then have off: "sint (ucast ?i * ?w :: i64) = uint ?i * sint ?w" "\<not> i64_less ?m (ucast ?i * ?w)"
    using le by simp_all
  have d: "d = \<lparr>sd_enabled = True, sd_slot_index = ?i, sd_offset_ns = ucast ?i * ?w,
      sd_reason = ''deterministic_micro_slot''\<rparr>"
    using assms False n off(2) by (simp add: decide_def Let_def)
  show ?thesis unfolding d using off(1) le w(3) by simp
qed

definition demo_stagger :: SendStaggerConfig where
  "demo_stagger = \<lparr>sg_enabled = True, sg_max_spread_ns = 2000000, sg_slot_width_ns = 500000\<rparr>"

theorem stagger_within_spread_witness:
  "\<exists>d. decide (\<lambda>_. 7) demo_stagger ''s'' ''c'' ''u1'' 3 = Some d \<and> sd_enabled d \<and>
     sint (sd_offset_ns d) \<le> 2000000"
proof -
  obtain d where d: "decide (\<lambda>_. 7) demo_stagger ''s'' ''c'' ''u1'' 3 = Some d" "sd_enabled d"
    by (simp add: decide_def demo_stagger_def Let_def)
  from stagger_within_spread [OF d(1)] d(2) have "sint (sd_offset_ns d) \<le> sint (sg_max_spread_ns demo_stagger)"
    by simp
  with d show ?thesis by (auto simp: demo_stagger_def)
qed

text \<open>
  The number of slots is computed in 32 bits: an enabled stagger with 2^32 slots (a spread of about
  4.3 seconds in slots of one nanosecond) takes a remainder modulo zero.
\<close>
lemma stagger_slot_count_wraps:
  "decide hash \<lparr>sg_enabled = True, sg_max_spread_ns = 4294967295, sg_slot_width_ns = 1\<rparr>
     session channel sender cycle = None"
  by (simp add: decide_def Let_def)

end
