(* ===== verification/Link_Health.thy ===== *)
theory Link_Health
  imports Weaknet_Guards
begin

text \<open>
  Observation and judgement of a link, \<^verbatim>\<open>src/core/weaknet/\<close>: the sliding window of sample outcomes and its
  summary (\<^verbatim>\<open>link_health.cpp\<close>), the link state machine (\<^verbatim>\<open>state_machine.cpp\<close>) and the recommendations
  (\<^verbatim>\<open>recommendation_engine.cpp\<close>). Ratios are IEEE doubles; the thresholds of the code are the doubles
  nearest to their decimal literals (\<open>dec\<close>).
\<close>

section \<open>link\_health.cpp\<close>

datatype LinkState = Good | Degraded | Congested | Partitioned | Recovering

definition dec :: "nat \<Rightarrow> nat \<Rightarrow> double" where
  "dec p r = mk_double (of_nat p / of_nat r)"

record PeerChannelHealth =
  hl_peer_id :: string
  hl_channel :: string
  hl_fresh_ratio :: double
  hl_late_ratio :: double
  hl_missing_ratio :: double
  hl_duplicate_ratio :: double
  hl_wrong_cycle_ratio :: double
  hl_bad_payload_ratio :: double
  hl_rx_latency_p50_ns :: i64
  hl_rx_latency_p95_ns :: i64
  hl_rx_latency_p99_ns :: i64
  hl_seq_gap_count :: u64
  hl_late_pocket_count :: u64
  hl_oversized_drop_count :: u64
  hl_observed_count :: u64
  hl_state :: LinkState
  hl_primary_reason :: string

definition PeerChannelHealth_default :: PeerChannelHealth where
  "PeerChannelHealth_default =
     \<lparr>hl_peer_id = '''', hl_channel = '''', hl_fresh_ratio = Fin 0, hl_late_ratio = Fin 0,
      hl_missing_ratio = Fin 0, hl_duplicate_ratio = Fin 0, hl_wrong_cycle_ratio = Fin 0,
      hl_bad_payload_ratio = Fin 0, hl_rx_latency_p50_ns = 0, hl_rx_latency_p95_ns = 0,
      hl_rx_latency_p99_ns = 0, hl_seq_gap_count = 0, hl_late_pocket_count = 0,
      hl_oversized_drop_count = 0, hl_observed_count = 0, hl_state = Good, hl_primary_reason = ''''\<rparr>"

record LinkHealthSample =
  ls_status :: SampleStatus
  ls_latency_ns :: i64
  ls_seq_gap :: u64
  ls_late_pocket :: bool
  ls_oversized_drop :: bool

record LinkHealthWindow =
  lw_max_samples :: nat
  lw_samples :: "LinkHealthSample list"

definition LinkHealthWindow_new :: "nat \<Rightarrow> LinkHealthWindow" where
  "LinkHealthWindow_new max_samples = \<lparr>lw_max_samples = max 1 max_samples, lw_samples = []\<rparr>"

definition badPayloadStatus :: "SampleStatus \<Rightarrow> bool" where
  "badPayloadStatus st \<longleftrightarrow>
     st = BadPayload \<or> st = BadSchema \<or> st = SenderClockBad \<or> st = SenderReportedFail \<or> st = TransportError"

text \<open>Conversion of a double to \<^verbatim>\<open>size_t\<close>; it is only applied to finite values that are not negative.\<close>

fun d_to_size :: "double \<Rightarrow> nat" where
  "d_to_size (Fin x) = nat \<lfloor>x\<rfloor>"
| "d_to_size _ = 0"

definition percentile :: "i64 list \<Rightarrow> double \<Rightarrow> i64" where
  "percentile values q =
     (if values = [] then 0
      else let values = sort_key sint values;
               last_index = d_of_nat (length values - 1);
               index = d_to_size (dmin last_index (dmax (Fin 0) (dmul q last_index)))
           in values ! index)"

definition observe :: "LinkHealthSample \<Rightarrow> LinkHealthWindow \<Rightarrow> LinkHealthWindow" where
  "observe sample w =
     (let samples = lw_samples w @ [sample]
      in w\<lparr>lw_samples :=
             if length samples > lw_max_samples w then drop (length samples - lw_max_samples w) samples
             else samples\<rparr>)"

definition window_clear :: "LinkHealthWindow \<Rightarrow> LinkHealthWindow" where
  "window_clear w = w\<lparr>lw_samples := []\<rparr>"

record HealthTotals =
  ht_fresh :: nat
  ht_late :: nat
  ht_missing :: nat
  ht_duplicate :: nat
  ht_wrong :: nat
  ht_bad :: nat
  ht_latencies :: "i64 list"
  ht_seq_gap_count :: u64
  ht_late_pocket_count :: u64
  ht_oversized_drop_count :: u64

definition HealthTotals_zero :: HealthTotals where
  "HealthTotals_zero =
     \<lparr>ht_fresh = 0, ht_late = 0, ht_missing = 0, ht_duplicate = 0, ht_wrong = 0, ht_bad = 0,
      ht_latencies = [], ht_seq_gap_count = 0, ht_late_pocket_count = 0, ht_oversized_drop_count = 0\<rparr>"

text \<open>The loop body of \<^verbatim>\<open>summarize\<close>.\<close>

definition health_step :: "HealthTotals \<Rightarrow> LinkHealthSample \<Rightarrow> HealthTotals" where
  "health_step t s =
     (let t =
        (case ls_status s of
           Fresh \<Rightarrow> t\<lparr>ht_fresh := ht_fresh t + 1, ht_latencies := ht_latencies t @ [ls_latency_ns s]\<rparr>
         | Late \<Rightarrow> t\<lparr>ht_late := ht_late t + 1, ht_latencies := ht_latencies t @ [ls_latency_ns s]\<rparr>
         | Missing \<Rightarrow> t\<lparr>ht_missing := ht_missing t + 1\<rparr>
         | Duplicate \<Rightarrow> t\<lparr>ht_duplicate := ht_duplicate t + 1\<rparr>
         | WrongCycle \<Rightarrow> t\<lparr>ht_wrong := ht_wrong t + 1\<rparr>
         | _ \<Rightarrow> if badPayloadStatus (ls_status s) then t\<lparr>ht_bad := ht_bad t + 1\<rparr> else t)
      in t\<lparr>ht_seq_gap_count := ht_seq_gap_count t + ls_seq_gap s,
           ht_late_pocket_count := ht_late_pocket_count t + (if ls_late_pocket s then 1 else 0),
           ht_oversized_drop_count := ht_oversized_drop_count t + (if ls_oversized_drop s then 1 else 0)\<rparr>)"

definition judge :: "nat \<Rightarrow> PeerChannelHealth \<Rightarrow> PeerChannelHealth" where
  "judge n h =
     (if deq (hl_fresh_ratio h) (Fin 0) \<and> n \<ge> 3
      then h\<lparr>hl_state := Partitioned, hl_primary_reason := ''fresh ratio is zero''\<rparr>
      else if dlt (hl_fresh_ratio h) (dec 90 100) \<or> i64_less 40000000 (hl_rx_latency_p99_ns h)
      then h\<lparr>hl_state := Congested, hl_primary_reason := ''fresh ratio low or p99 latency high''\<rparr>
      else if dlt (dec 2 100) (hl_late_ratio h) \<or> dlt (dec 1 100) (hl_missing_ratio h)
      then h\<lparr>hl_state := Degraded, hl_primary_reason := ''late or missing ratio above degraded threshold''\<rparr>
      else h\<lparr>hl_state := Good, hl_primary_reason := ''healthy''\<rparr>)"

definition summarize :: "LinkHealthWindow \<Rightarrow> string \<Rightarrow> string \<Rightarrow> PeerChannelHealth" where
  "summarize w peer_id channel =
     (let samples = lw_samples w; n = length samples;
          h = PeerChannelHealth_default\<lparr>hl_peer_id := peer_id, hl_channel := channel,
                hl_observed_count := of_nat n\<rparr>
      in if samples = [] then h\<lparr>hl_state := Partitioned, hl_primary_reason := ''no samples observed''\<rparr>
         else
           let t = foldl health_step HealthTotals_zero samples;
               denom = d_of_nat n;
               ratio = (\<lambda>k. ddiv (d_of_nat k) denom)
           in judge n (h\<lparr>hl_seq_gap_count := ht_seq_gap_count t,
                hl_late_pocket_count := ht_late_pocket_count t,
                hl_oversized_drop_count := ht_oversized_drop_count t,
                hl_fresh_ratio := ratio (ht_fresh t), hl_late_ratio := ratio (ht_late t),
                hl_missing_ratio := ratio (ht_missing t), hl_duplicate_ratio := ratio (ht_duplicate t),
                hl_wrong_cycle_ratio := ratio (ht_wrong t), hl_bad_payload_ratio := ratio (ht_bad t),
                hl_rx_latency_p50_ns := percentile (ht_latencies t) (dec 50 100),
                hl_rx_latency_p95_ns := percentile (ht_latencies t) (dec 95 100),
                hl_rx_latency_p99_ns := percentile (ht_latencies t) (dec 99 100)\<rparr>))"

fun LinkState_toString :: "LinkState \<Rightarrow> string" where
  "LinkState_toString Good = ''GOOD''"
| "LinkState_toString Degraded = ''DEGRADED''"
| "LinkState_toString Congested = ''CONGESTED''"
| "LinkState_toString Partitioned = ''PARTITIONED''"
| "LinkState_toString Recovering = ''RECOVERING''"

section \<open>state\_machine.cpp\<close>

text \<open>The evidence maps are listed in key order.\<close>

record StateTransition =
  tr_previous :: LinkState
  tr_current :: LinkState
  tr_changed :: bool
  tr_reason :: string
  tr_evidence :: "(string \<times> double) list"

definition next_state :: "LinkState \<Rightarrow> PeerChannelHealth \<Rightarrow> LinkState" where
  "next_state current health =
     (if current = Partitioned
      then if dlt (dec 50 100) (hl_fresh_ratio health) then Recovering else Partitioned
      else if current = Recovering
      then if dlt (dec 995 1000) (hl_fresh_ratio health) \<and> dlt (hl_late_ratio health) (dec 5 1000) \<and>
              dlt (hl_missing_ratio health) (dec 1 1000)
           then Good else hl_state health
      else hl_state health)"

definition machine_update :: "PeerChannelHealth \<Rightarrow> LinkState \<Rightarrow> StateTransition \<times> LinkState" where
  "machine_update health current =
     (let nxt = next_state current health
      in (\<lparr>tr_previous = current, tr_current = nxt, tr_changed = (current \<noteq> nxt),
           tr_reason = (if hl_primary_reason health = '''' then ''state evaluated'' else hl_primary_reason health),
           tr_evidence = [(''fresh_ratio'', hl_fresh_ratio health), (''late_ratio'', hl_late_ratio health),
             (''missing_ratio'', hl_missing_ratio health),
             (''rx_latency_p99_ns'', d_of_int (sint (hl_rx_latency_p99_ns health))),
             (''seq_gap_count'', d_of_nat (unat (hl_seq_gap_count health)))]\<rparr>, nxt))"

section \<open>recommendation\_engine.cpp\<close>

datatype RecommendationLevel = InfoLevel | WarnLevel | CriticalLevel
datatype RecommendationType =
  ChangeFrequency | ChangeTargetCycleOffset | DisableChannel | ReducePayload | ChangeTopology

record RuntimeRecommendation =
  rec_cycle_id :: u64
  rec_level :: RecommendationLevel
  rec_type :: RecommendationType
  rec_channel :: string
  rec_peer :: string
  rec_confidence :: double
  rec_reason :: string
  rec_evidence :: "(string \<times> double) list"

definition recommend :: "u64 \<Rightarrow> PeerChannelHealth \<Rightarrow> RecommendationLevel \<Rightarrow> RecommendationType \<Rightarrow> double
    \<Rightarrow> string \<Rightarrow> (string \<times> double) list \<Rightarrow> RuntimeRecommendation" where
  "recommend cycle_id health level ty confidence why evidence =
     \<lparr>rec_cycle_id = cycle_id, rec_level = level, rec_type = ty, rec_channel = hl_channel health,
      rec_peer = hl_peer_id health, rec_confidence = confidence, rec_reason = why, rec_evidence = evidence\<rparr>"

definition health_evidence :: "PeerChannelHealth \<Rightarrow> (string \<times> double) list" where
  "health_evidence health =
     [(''fresh_ratio'', hl_fresh_ratio health), (''late_ratio'', hl_late_ratio health),
      (''missing_ratio'', hl_missing_ratio health),
      (''rx_latency_p99_ns'', d_of_int (sint (hl_rx_latency_p99_ns health)))]"

definition evaluate :: "u64 \<Rightarrow> PeerChannelHealth \<Rightarrow> BudgetReport option \<Rightarrow> RuntimeRecommendation list" where
  "evaluate cycle_id health budget =
     (let add = (\<lambda>level ty confidence why. recommend cycle_id health level ty confidence why (health_evidence health)) in
      (case hl_state health of
         Degraded \<Rightarrow> [add WarnLevel DisableChannel (dec 60 100)
           ''consider disabling bulk/debug channels; realtime remains suggestion-only'']
       | Congested \<Rightarrow> [add WarnLevel ChangeFrequency (dec 75 100) ''consider lowering realtime frequency'',
           add WarnLevel ChangeTargetCycleOffset (dec 70 100) ''consider increasing target_cycle_offset'']
       | Partitioned \<Rightarrow> [add CriticalLevel ChangeTopology (dec 85 100)
           ''peer appears partitioned; consider router/topology recovery'']
       | _ \<Rightarrow> []) @
      (case budget of
         Some report \<Rightarrow>
           if \<not> rep_accepted report
           then [recommend cycle_id health CriticalLevel ReducePayload (dec 95 100) (rep_reason report)
                  [(''budget_utilization_ratio'', rep_utilization_ratio report),
                   (''max_realtime_bps'', rep_max_realtime_bps report),
                   (''total_realtime_bps'', rep_total_realtime_bps report)]]
           else []
       | None \<Rightarrow> []))"

fun RecommendationLevel_toString :: "RecommendationLevel \<Rightarrow> string" where
  "RecommendationLevel_toString InfoLevel = ''info''"
| "RecommendationLevel_toString WarnLevel = ''warn''"
| "RecommendationLevel_toString CriticalLevel = ''critical''"

fun RecommendationType_toString :: "RecommendationType \<Rightarrow> string" where
  "RecommendationType_toString ChangeFrequency = ''change_frequency''"
| "RecommendationType_toString ChangeTargetCycleOffset = ''change_target_cycle_offset''"
| "RecommendationType_toString DisableChannel = ''disable_channel''"
| "RecommendationType_toString ReducePayload = ''reduce_payload''"
| "RecommendationType_toString ChangeTopology = ''change_topology''"

section \<open>The window\<close>

definition observe_all :: "LinkHealthSample list \<Rightarrow> LinkHealthWindow \<Rightarrow> LinkHealthWindow" where
  "observe_all xs w = foldl (\<lambda>w x. observe x w) w xs"

definition latest :: "nat \<Rightarrow> 'a list \<Rightarrow> 'a list" where
  "latest n xs = drop (length xs - n) xs"

lemma latest_snoc: "0 < n \<Longrightarrow> latest n (latest n xs @ [x]) = latest n (xs @ [x])"
  by (cases "length xs \<le> n") (simp_all add: latest_def Suc_diff_le not_le)

lemma observe_latest:
  "lw_samples (observe x w) = latest (lw_max_samples w) (lw_samples w @ [x])"
  "lw_max_samples (observe x w) = lw_max_samples w"
  by (simp_all add: observe_def latest_def Let_def)

lemma observe_all_latest:
  "0 < n \<Longrightarrow> observe_all xs (LinkHealthWindow_new n) = \<lparr>lw_max_samples = n, lw_samples = latest n xs\<rparr>"
proof (induction xs rule: rev_induct)
  case Nil
  then show ?case by (simp add: observe_all_def LinkHealthWindow_new_def latest_def)
next
  case (snoc x xs)
  have "observe_all (xs @ [x]) (LinkHealthWindow_new n) = observe x (observe_all xs (LinkHealthWindow_new n))"
    by (simp add: observe_all_def)
  also have "\<dots> = \<lparr>lw_max_samples = n, lw_samples = latest n (xs @ [x])\<rparr>"
    using snoc observe_latest [of x "\<lparr>lw_max_samples = n, lw_samples = latest n xs\<rparr>"]
    by (intro LinkHealthWindow.equality) (simp_all add: latest_snoc)
  finally show ?case .
qed

section \<open>Counting\<close>

definition outcomes :: "SampleStatus \<Rightarrow> LinkHealthSample list \<Rightarrow> nat" where
  "outcomes st xs = length (filter (\<lambda>s. ls_status s = st) xs)"

definition arrived :: "LinkHealthSample list \<Rightarrow> i64 list" where
  "arrived xs = map ls_latency_ns (filter (\<lambda>s. ls_status s = Fresh \<or> ls_status s = Late) xs)"

lemma health_step_simps:
  "ht_fresh (health_step t s) = ht_fresh t + (if ls_status s = Fresh then 1 else 0)"
  "ht_late (health_step t s) = ht_late t + (if ls_status s = Late then 1 else 0)"
  "ht_missing (health_step t s) = ht_missing t + (if ls_status s = Missing then 1 else 0)"
  "ht_latencies (health_step t s) =
     ht_latencies t @ (if ls_status s = Fresh \<or> ls_status s = Late then [ls_latency_ns s] else [])"
  "ht_seq_gap_count (health_step t s) = ht_seq_gap_count t + ls_seq_gap s"
  by (cases "ls_status s"; simp add: health_step_def Let_def)+

lemma health_totals:
  "ht_fresh (foldl health_step t xs) = ht_fresh t + outcomes Fresh xs"
  "ht_late (foldl health_step t xs) = ht_late t + outcomes Late xs"
  "ht_missing (foldl health_step t xs) = ht_missing t + outcomes Missing xs"
  "ht_latencies (foldl health_step t xs) = ht_latencies t @ arrived xs"
  by (induction xs arbitrary: t) (auto simp: health_step_simps outcomes_def arrived_def)

lemma outcomes_le: "outcomes st xs \<le> length xs"
  by (simp add: outcomes_def)

section \<open>Ratios against thresholds\<close>

lemma dec_Fin: "p \<le> r \<Longrightarrow> 0 < r \<Longrightarrow> dec p r = Fin (round_rat (of_nat p / of_nat r))"
proof -
  assume "p \<le> r" "0 < r"
  then have "\<bar>of_nat p / of_nat r :: rat\<bar> \<le> 2 ^ 52" by (simp add: divide_le_eq)
  then show ?thesis by (simp add: dec_def mk_double_Fin)
qed

lemma ratio_Fin:
  assumes "k \<le> n" "0 < n" "n \<le> 2 ^ 52"
  shows "ddiv (d_of_nat k) (d_of_nat n) = Fin (round_rat (of_nat k / of_nat n))"
  using assms dec_Fin [OF assms(1,2)] by (simp add: d_of_nat_exact dec_def)

lemma ratio_thresholds:
  assumes "k \<le> n" "0 < n" "n * r \<le> 2 ^ 45" "p \<le> r" "0 < r"
  shows "dlt (ddiv (d_of_nat k) (d_of_nat n)) (dec p r) \<longleftrightarrow> k * r < p * n"
    "dlt (dec p r) (ddiv (d_of_nat k) (d_of_nat n)) \<longleftrightarrow> p * n < k * r"
proof -
  have "n * 1 \<le> n * r" using assms(5) by (intro mult_le_mono) simp_all
  from order_trans [OF this assms(3)] have n: "n \<le> 2 ^ 52" by simp
  show "dlt (ddiv (d_of_nat k) (d_of_nat n)) (dec p r) \<longleftrightarrow> k * r < p * n"
    "dlt (dec p r) (ddiv (d_of_nat k) (d_of_nat n)) \<longleftrightarrow> p * n < k * r"
    using ratio_less_iff [of n k r p] assms by (simp_all add: ratio_Fin [OF assms(1,2) n] dec_Fin)
qed

lemma ratio_zero:
  assumes "k \<le> n" "0 < n" "n \<le> 2 ^ 45"
  shows "deq (ddiv (d_of_nat k) (d_of_nat n)) (Fin 0) \<longleftrightarrow> k = 0"
proof -
  have "round_rat (of_nat k / of_nat n) \<noteq> 0" if "0 < k"
    using ratio_less_iff(2) [of n k 1 0] assms that by simp
  moreover have "ddiv (d_of_nat k) (d_of_nat n) = Fin (round_rat (of_nat k / of_nat n))"
    using assms by (intro ratio_Fin) simp_all
  ultimately show ?thesis by (cases "k = 0") (auto simp: deq_def)
qed

definition state_by_counts :: "nat \<Rightarrow> nat \<Rightarrow> nat \<Rightarrow> nat \<Rightarrow> i64 \<Rightarrow> LinkState" where
  "state_by_counts n fresh late missing p99 =
     (if n = 0 \<or> fresh = 0 \<and> 3 \<le> n then Partitioned
      else if fresh * 100 < 90 * n \<or> 40000000 < sint p99 then Congested
      else if 2 * n < late * 100 \<or> n < missing * 100 then Degraded
      else Good)"

lemma summarize_nonempty:
  assumes "lw_samples w = xs" "xs \<noteq> []"
  shows "hl_fresh_ratio (summarize w p c) = ddiv (d_of_nat (outcomes Fresh xs)) (d_of_nat (length xs))"
    "hl_late_ratio (summarize w p c) = ddiv (d_of_nat (outcomes Late xs)) (d_of_nat (length xs))"
    "hl_missing_ratio (summarize w p c) = ddiv (d_of_nat (outcomes Missing xs)) (d_of_nat (length xs))"
    "hl_rx_latency_p50_ns (summarize w p c) = percentile (arrived xs) (dec 50 100)"
    "hl_rx_latency_p95_ns (summarize w p c) = percentile (arrived xs) (dec 95 100)"
    "hl_rx_latency_p99_ns (summarize w p c) = percentile (arrived xs) (dec 99 100)"
    "hl_state (summarize w p c) = hl_state (judge (length xs) (summarize w p c))"
  using assms by (simp_all add: summarize_def Let_def judge_def health_totals HealthTotals_zero_def)

lemma summarize_state_exact:
  fixes observed :: "LinkHealthSample list"
  assumes "0 < n" and "n \<le> 2 ^ 35"
  defines "xs \<equiv> latest n observed"
  shows "hl_state (summarize (observe_all observed (LinkHealthWindow_new n)) peer channel) =
    state_by_counts (length xs) (outcomes Fresh xs) (outcomes Late xs) (outcomes Missing xs)
      (percentile (arrived xs) (dec 99 100))"
proof -
  let ?w = "observe_all observed (LinkHealthWindow_new n)"
  have w: "lw_samples ?w = xs" using assms(1) by (simp add: observe_all_latest xs_def)
  show ?thesis
  proof (cases "xs = []")
    case True
    with w show ?thesis by (simp add: summarize_def state_by_counts_def)
  next
    case False
    have len: "0 < length xs" "length xs \<le> 2 ^ 35"
      using False assms(2) by (auto simp: xs_def latest_def)
    then have r: "length xs * 100 \<le> 2 ^ 45" "length xs \<le> 2 ^ 45" by simp_all
    note T = ratio_thresholds [OF outcomes_le len(1) r(1)] and Z = ratio_zero [OF outcomes_le len(1) r(2)]
    show ?thesis
      by (subst summarize_nonempty(7) [OF w False])
         (use len in \<open>simp add: judge_def state_by_counts_def summarize_nonempty [OF w False] T Z\<close>)
  qed
qed

text \<open>
  C34. The link state is an exact function of the window. After any sequence of observed outcomes, with a
  window of at most 2^35 samples, the state reported for a link is determined by the outcome counts of the
  latest window together with the 99th percentile of the latencies of the samples that arrived in it, and
  the floating-point comparisons decide as the exact fractions would: PARTITIONED without samples, or
  without a fresh one among three or more; CONGESTED with less than 90 percent fresh or a 99th percentile
  latency above 40 ms; DEGRADED with more than 2 percent late or more than 1 percent missing; GOOD
  otherwise. These are the thresholds of the code; \<^verbatim>\<open>specs/state_machine.yaml\<close> has the latency limit as
  0.8 of the period and asks for ten cycles without a fresh sample before PARTITIONED.
\<close>
theorem link_state_exact:
  fixes observed :: "LinkHealthSample list"
  assumes "0 < n" and "n \<le> 2 ^ 35"
  defines "xs \<equiv> latest n observed"
  shows "hl_state (summarize (observe_all observed (LinkHealthWindow_new n)) peer channel) =
    state_by_counts (length xs) (outcomes Fresh xs) (outcomes Late xs) (outcomes Missing xs)
      (percentile (arrived xs) (dec 99 100))"
  unfolding xs_def using assms(1,2) by (rule summarize_state_exact)

section \<open>Percentiles\<close>

lemma clamp_id: "0 \<le> y \<Longrightarrow> y \<le> m \<Longrightarrow> dmin (Fin m) (dmax (Fin 0) (Fin y)) = Fin y"
  by (auto simp: dmax_def dmin_def)

lemma percentile_nth:
  assumes "vs \<noteq> []" "length vs \<le> 2 ^ 52" "0 \<le> x" "x \<le> 1"
  defines "i \<equiv> nat \<lfloor>round_rat (x * of_nat (length vs - 1))\<rfloor>"
  shows "percentile vs (Fin x) = sort_key sint vs ! i" "i < length vs"
proof -
  let ?m = "length vs - 1" and ?y = "x * of_nat (length vs - 1)"
  have m: "?m \<le> 2 ^ 52" using assms(2) by linarith
  have y: "0 \<le> ?y" "?y \<le> of_nat ?m"
    using assms(3,4) mult_right_mono [of x 1 "of_nat ?m"] by simp_all
  have "(of_nat ?m :: rat) \<le> of_nat (2 ^ 52)" using m by (simp only: of_nat_le_iff)
  then have md: "mk_double ?y = Fin (round_rat ?y)" using y by (intro mk_double_Fin) simp
  have rm: "round_rat (of_nat ?m) = of_nat ?m" using m by (intro round_rat_of_nat) simp
  have r: "0 \<le> round_rat ?y" "round_rat ?y \<le> of_nat ?m"
    using round_rat_nonneg [OF y(1)] round_rat_mono [OF y(2)] rm by simp_all
  have "dmul (Fin x) (d_of_nat ?m) = Fin (round_rat ?y)"
    unfolding d_of_nat_exact [OF m] dmul.simps md ..
  then have "dmin (d_of_nat ?m) (dmax (Fin 0) (dmul (Fin x) (d_of_nat ?m))) = Fin (round_rat ?y)"
    using clamp_id [OF r] unfolding d_of_nat_exact [OF m] by simp
  then show "percentile vs (Fin x) = sort_key sint vs ! i"
    using assms(1) by (simp add: percentile_def Let_def i_def)
  have "nat \<lfloor>round_rat ?y\<rfloor> \<le> ?m" using r(2) by linarith
  then show "i < length vs" using assms(1) by (cases vs) (simp_all add: i_def)
qed

lemma dec_unit: "p \<le> r \<Longrightarrow> 0 < r \<Longrightarrow> \<exists>x. dec p r = Fin x \<and> 0 \<le> x \<and> x \<le> 1 \<and> x = round_rat (of_nat p / of_nat r)"
  using round_rat_nonneg [of "of_nat p / of_nat r"] round_rat_mono [of "of_nat p / of_nat r" 1]
    round_rat_of_nat [of 1] by (simp add: dec_Fin)

lemma percentile_mem:
  assumes "vs \<noteq> []" "length vs \<le> 2 ^ 52" "p \<le> r" "0 < r"
  shows "percentile vs (dec p r) \<in> set vs"
proof -
  obtain x where x: "dec p r = Fin x" "0 \<le> x" "x \<le> 1" using dec_unit [OF assms(3,4)] by blast
  show ?thesis
    using percentile_nth [OF assms(1,2) x(2,3)] nth_mem [of _ "sort_key sint vs"] unfolding x(1)
    by (metis length_sort set_sort)
qed

lemma percentile_mono:
  assumes "length vs \<le> 2 ^ 52" "p \<le> p'" "p' \<le> r" "0 < r"
  shows "i64_le (percentile vs (dec p r)) (percentile vs (dec p' r))"
proof (cases "vs = []")
  case False
  obtain x where x: "dec p r = Fin x" "0 \<le> x" "x \<le> 1" "x = round_rat (of_nat p / of_nat r)"
    using dec_unit [of p r] assms by auto
  obtain x' where x': "dec p' r = Fin x'" "0 \<le> x'" "x' \<le> 1" "x' = round_rat (of_nat p' / of_nat r)"
    using dec_unit [of p' r] assms by auto
  have "x \<le> x'"
    unfolding x(4) x'(4) using assms by (intro round_rat_mono divide_right_mono) simp_all
  then have "round_rat (x * of_nat (length vs - 1)) \<le> round_rat (x' * of_nat (length vs - 1))"
    by (intro round_rat_mono mult_right_mono) simp_all
  then have "nat \<lfloor>round_rat (x * of_nat (length vs - 1))\<rfloor> \<le> nat \<lfloor>round_rat (x' * of_nat (length vs - 1))\<rfloor>"
    by (intro nat_mono floor_mono)
  moreover have "sorted (map sint (sort_key sint vs))" by simp
  ultimately have "map sint (sort_key sint vs) ! nat \<lfloor>round_rat (x * of_nat (length vs - 1))\<rfloor> \<le>
      map sint (sort_key sint vs) ! nat \<lfloor>round_rat (x' * of_nat (length vs - 1))\<rfloor>"
    using percentile_nth(2) [OF False assms(1) x'(2,3)]
    by (intro sorted_nth_mono) (simp_all only: length_map length_sort)
  then show ?thesis
    using percentile_nth [OF False assms(1) x(2,3)] percentile_nth [OF False assms(1) x'(2,3)]
    unfolding x(1) x'(1) by simp
qed (simp add: percentile_def)

text \<open>
  C37. Latency percentiles. After any observations, with a window of at most 2^35 samples, the three
  reported percentiles are ordered (p50 at most p95 at most p99), and each is the latency of one of the
  fresh or late samples of the latest window, or zero if there is none.
\<close>
theorem latency_percentiles:
  fixes observed :: "LinkHealthSample list" and peer channel :: string
  assumes "0 < n" and "n \<le> 2 ^ 35" and "observed \<noteq> []"
  defines "h \<equiv> summarize (observe_all observed (LinkHealthWindow_new n)) peer channel"
    and "lat \<equiv> arrived (latest n observed)"
  shows "i64_le (hl_rx_latency_p50_ns h) (hl_rx_latency_p95_ns h) \<and>
    i64_le (hl_rx_latency_p95_ns h) (hl_rx_latency_p99_ns h) \<and>
    (if lat = [] then hl_rx_latency_p99_ns h = 0
     else {hl_rx_latency_p50_ns h, hl_rx_latency_p95_ns h, hl_rx_latency_p99_ns h} \<subseteq> set lat)"
proof -
  have w: "lw_samples (observe_all observed (LinkHealthWindow_new n)) = latest n observed"
    "latest n observed \<noteq> []"
    using assms(1,3) by (simp_all add: observe_all_latest latest_def) (cases observed; simp)
  note S = summarize_nonempty(4-6) [OF w, of peer channel, folded h_def lat_def]
  have "length lat \<le> length (latest n observed)" by (simp add: lat_def arrived_def)
  also have "\<dots> \<le> n" by (simp add: latest_def)
  finally have "length lat \<le> n" .
  then have len: "length lat \<le> 2 ^ 52" using assms(2) by simp
  show ?thesis
    unfolding S using percentile_mono [OF len] percentile_mem [OF _ len]
    by (simp add: percentile_def [of "[]"])
qed

section \<open>The state machine over time\<close>

text \<open>The states the machine goes through when it is fed a sequence of summaries, starting from one state.\<close>

fun machine_run :: "LinkState \<Rightarrow> PeerChannelHealth list \<Rightarrow> LinkState list" where
  "machine_run st [] = [st]"
| "machine_run st (h # hs) = st # machine_run (snd (machine_update h st)) hs"

lemma machine_update_snd [simp]: "snd (machine_update h st) = next_state st h"
  by (simp add: machine_update_def Let_def)

lemma machine_run_nth:
  "i < length hs \<Longrightarrow>
   machine_run st hs ! Suc i = next_state (machine_run st hs ! i) (hs ! i) \<and> length (machine_run st hs) = Suc (length hs)"
proof (induction st hs arbitrary: i rule: machine_run.induct)
  case (2 st h hs)
  have l: "length (machine_run s ks) = Suc (length ks)" for s ks by (induction s ks rule: machine_run.induct) simp_all
  show ?case
  proof (cases i)
    case 0
    then show ?thesis by (cases hs) (simp_all add: l)
  next
    case (Suc j)
    with 2(1) [of j] 2(2) show ?thesis by (simp add: l)
  qed
qed simp

lemma next_state_Partitioned:
  "next_state Partitioned h = s \<Longrightarrow> s = Partitioned \<or> s = Recovering \<and> dlt (dec 50 100) (hl_fresh_ratio h)"
  by (simp add: next_state_def split: if_splits)

definition summary_of :: "nat \<Rightarrow> LinkHealthSample list \<Rightarrow> PeerChannelHealth" where
  "summary_of n observed = summarize (observe_all observed (LinkHealthWindow_new n)) ''peer'' ''channel''"

text \<open>
  C36. A partitioned link is readmitted only through RECOVERING. Whenever the state machine leaves
  PARTITIONED, at any point of any sequence of summaries of observed windows of at most 2^35 samples, the
  new state is RECOVERING and strictly more than half of the samples in the window just judged were
  fresh.
\<close>
theorem partitioned_exits_through_recovering:
  assumes "0 < n" and "n \<le> 2 ^ 35"
    and "states = machine_run st (map (summary_of n) windows)" and "i < length windows"
    and "states ! i = Partitioned" and "states ! Suc i \<noteq> Partitioned"
  shows "states ! Suc i = Recovering \<and>
    length (latest n (windows ! i)) < 2 * outcomes Fresh (latest n (windows ! i))"
proof -
  let ?xs = "latest n (windows ! i)"
  have "states ! Suc i = next_state Partitioned (summary_of n (windows ! i))"
    using machine_run_nth [of i "map (summary_of n) windows" st] assms(3-5) by simp
  with assms(6) next_state_Partitioned [of "summary_of n (windows ! i)" "states ! Suc i"]
  have r: "states ! Suc i = Recovering" "dlt (dec 50 100) (hl_fresh_ratio (summary_of n (windows ! i)))"
    by auto
  have w: "lw_samples (observe_all (windows ! i) (LinkHealthWindow_new n)) = ?xs"
    using assms(1) by (simp add: observe_all_latest)
  show ?thesis
  proof (cases "?xs = []")
    case True
    with r(2) w have "dlt (dec 50 100) (Fin 0)"
      by (simp add: summary_of_def summarize_def PeerChannelHealth_default_def)
    moreover have "\<not> dlt (dec 50 100) (Fin 0)" using dec_unit [of 50 100] by auto
    ultimately show ?thesis by blast
  next
    case False
    have len: "0 < length ?xs" "length ?xs * 100 \<le> 2 ^ 45"
      using False assms(2) by (auto simp: latest_def)
    from r show ?thesis
      unfolding summary_of_def summarize_nonempty(1) [OF w False]
      by (simp add: ratio_thresholds(2) [OF outcomes_le len])
  qed
qed

definition seen :: "SampleStatus \<Rightarrow> LinkHealthSample" where
  "seen st = \<lparr>ls_status = st, ls_latency_ns = 1000000, ls_seq_gap = 0, ls_late_pocket = False,
     ls_oversized_drop = False\<rparr>"

lemma latest_all: "length xs \<le> n \<Longrightarrow> latest n xs = xs"
  by (simp add: latest_def)

lemma arrived_seen_percentile:
  assumes "arrived xs \<noteq> []" "set (arrived xs) \<subseteq> {1000000}" "length (arrived xs) \<le> 2 ^ 52" "p \<le> r" "0 < r"
  shows "percentile (arrived xs) (dec p r) = 1000000"
  using percentile_mem [OF assms(1,3,4,5)] assms(2) by auto

definition lossy_window :: "LinkHealthSample list" where
  "lossy_window = replicate 98 (seen Fresh) @ replicate 2 (seen Late)"

lemma lossy_counts:
  "length lossy_window = 100" "outcomes Fresh lossy_window = 98" "outcomes Late lossy_window = 2"
  "outcomes Missing lossy_window = 0" "arrived lossy_window = replicate 100 1000000"
proof -
  have a: "arrived lossy_window = replicate 98 1000000 @ replicate 2 1000000"
    by (simp add: lossy_window_def arrived_def seen_def)
  show "arrived lossy_window = replicate 100 1000000" unfolding a replicate_add [symmetric] by simp
qed (simp_all add: lossy_window_def outcomes_def seen_def)

lemma lossy_p99: "percentile (arrived lossy_window) (dec 99 100) = 1000000"
  by (rule arrived_seen_percentile) (simp_all add: lossy_counts(5))

lemma lossy_state: "hl_state (summary_of 100 lossy_window) = Good"
  unfolding summary_of_def
  by (subst summarize_state_exact) (simp_all add: latest_all lossy_counts(1-4) lossy_p99 state_by_counts_def)

text \<open>
  The stricter recovery thresholds are not needed to leave RECOVERING: after a window of 98 fresh and
  2 late samples, whose late ratio is not below the 0.5 percent and whose fresh ratio is not above the
  99.5 percent that the transition to GOOD tests, the machine goes from RECOVERING to GOOD all the same,
  because the summary itself already says GOOD.
\<close>
lemma recovery_thresholds_bypassed:
  "snd (machine_update (summary_of 100 lossy_window) Recovering) = Good \<and>
   \<not> dlt (dec 995 1000) (hl_fresh_ratio (summary_of 100 lossy_window)) \<and>
   \<not> dlt (hl_late_ratio (summary_of 100 lossy_window)) (dec 5 1000)"
proof -
  have w: "lw_samples (observe_all lossy_window (LinkHealthWindow_new 100)) = lossy_window" "lossy_window \<noteq> []"
    using lossy_counts(1) by (auto simp: observe_all_latest latest_all)
  have "\<not> dlt (dec 995 1000) (hl_fresh_ratio (summary_of 100 lossy_window))"
    "\<not> dlt (hl_late_ratio (summary_of 100 lossy_window)) (dec 5 1000)"
    unfolding summary_of_def summarize_nonempty(1,2) [OF w] lossy_counts
    by (simp_all add: ratio_thresholds)
  then show ?thesis by (simp add: next_state_def lossy_state)
qed

section \<open>Recommendations\<close>

text \<open>
  Recommendations match the judged state. No recommendation is made exactly when the link is GOOD or
  RECOVERING and the budget, if one is given, is accepted; a critical one is made exactly when the link
  is PARTITIONED or the budget was rejected; and each names the cycle, peer and channel judged.
\<close>
lemma recommendations_match_state:
  "(evaluate cycle h budget = [] \<longleftrightarrow>
      (hl_state h = Good \<or> hl_state h = Recovering) \<and> (case budget of None \<Rightarrow> True | Some b \<Rightarrow> rep_accepted b)) \<and>
   (CriticalLevel \<in> rec_level ` set (evaluate cycle h budget) \<longleftrightarrow>
      hl_state h = Partitioned \<or> (case budget of None \<Rightarrow> False | Some b \<Rightarrow> \<not> rep_accepted b)) \<and>
   (\<lambda>r. (rec_cycle_id r, rec_peer r, rec_channel r)) ` set (evaluate cycle h budget) \<subseteq>
      {(cycle, hl_peer_id h, hl_channel h)}"
proof (cases budget)
  case None
  then show ?thesis by (cases "hl_state h") (simp_all add: evaluate_def recommend_def)
next
  case (Some b)
  then show ?thesis
    by (cases "hl_state h"; cases "rep_accepted b") (simp_all add: evaluate_def recommend_def)
qed

section \<open>Witnesses\<close>

theorem link_state_exact_witness:
  "hl_state (summarize (observe_all lossy_window (LinkHealthWindow_new 100)) ''u1'' ''pose'') = Good"
  by (subst link_state_exact) (simp_all add: latest_all lossy_counts(1-4) lossy_p99 state_by_counts_def)

theorem latency_percentiles_witness:
  "hl_rx_latency_p50_ns (summarize (observe_all lossy_window (LinkHealthWindow_new 100)) ''u1'' ''pose'') = 1000000"
proof -
  have ne: "lossy_window \<noteq> []" using lossy_counts(1) by auto
  from latency_percentiles [of 100 lossy_window "''u1''" "''pose''"] ne
  show ?thesis by (simp add: latest_all lossy_counts(1,5))
qed

theorem partitioned_exits_through_recovering_witness:
  "machine_run Partitioned (map (summary_of 100) [lossy_window]) ! Suc 0 = Recovering"
proof -
  have w: "lw_samples (observe_all lossy_window (LinkHealthWindow_new 100)) = lossy_window" "lossy_window \<noteq> []"
    using lossy_counts(1) by (auto simp: observe_all_latest latest_all)
  have "dlt (dec 50 100) (hl_fresh_ratio (summary_of 100 lossy_window))"
    unfolding summary_of_def summarize_nonempty(1) [OF w] lossy_counts by (simp add: ratio_thresholds)
  then have "machine_run Partitioned (map (summary_of 100) [lossy_window]) ! Suc 0 \<noteq> Partitioned"
    by (simp add: next_state_def)
  from partitioned_exits_through_recovering [OF _ _ refl _ _ this] show ?thesis by simp
qed

end
