(* ===== verification/Clock_Monitor.thy ===== *)
theory Clock_Monitor
  imports Double Types "HOL-Library.Sublist"
begin

text \<open>
  The clock monitor, \<^verbatim>\<open>src/core/clock_monitor.cpp\<close>: it reads the output of \<^verbatim>\<open>chronyc tracking\<close> and
  \<^verbatim>\<open>chronyc sources\<close> and decides whether the local clock is good enough to start a session. Running the
  commands is the parameter \<open>runner\<close> of \<open>clock_sample\<close> (the \<^verbatim>\<open>CommandRunner\<close> of the class).

  The part of the C++ library that the parsing uses is modelled first: character classes of the C locale,
  \<^verbatim>\<open>std::getline\<close>, \<^verbatim>\<open>std::string::find\<close>, and extraction of a word or a number from a stream.
\<close>

section \<open>Strings and streams\<close>

definition isspace :: "char \<Rightarrow> bool" where
  "isspace c \<longleftrightarrow> (of_char c :: nat) \<in> {9, 10, 11, 12, 13, 32}"

definition isdigit :: "char \<Rightarrow> bool" where
  "isdigit c \<longleftrightarrow> 48 \<le> (of_char c :: nat) \<and> (of_char c :: nat) \<le> 57"

definition tolower :: "char \<Rightarrow> char" where
  "tolower c = (let n = of_char c :: nat in if 65 \<le> n \<and> n \<le> 90 then char_of (n + 32) else c)"

definition trim :: "string \<Rightarrow> string" where
  "trim text = rev (dropWhile isspace (rev (dropWhile isspace text)))"

definition lower :: "string \<Rightarrow> string" where
  "lower text = map tolower text"

definition startsWith :: "string \<Rightarrow> string \<Rightarrow> bool" where
  "startsWith text start \<longleftrightarrow> length start \<le> length text \<and> take (length start) text = start"

text \<open>The lines \<^verbatim>\<open>std::getline\<close> returns until it fails: a final newline does not start another line.\<close>

function getlines :: "string \<Rightarrow> string list" where
  "getlines text =
     (if text = [] then []
      else takeWhile (\<lambda>c. c \<noteq> CHR 0x0A) text # getlines (drop 1 (dropWhile (\<lambda>c. c \<noteq> CHR 0x0A) text)))"
  by pat_completeness auto

termination
proof (relation "measure length", simp)
  fix s :: string assume "s \<noteq> []"
  moreover have "length (dropWhile (\<lambda>c. c \<noteq> CHR 0x0A) s) \<le> length s" by (rule length_dropWhile_le)
  moreover have "0 < length s" using \<open>s \<noteq> []\<close> by simp
  ultimately show "(drop 1 (dropWhile (\<lambda>c. c \<noteq> CHR 0x0A) s), s) \<in> measure length"
    by (simp del: length_greater_0_conv)
qed

declare getlines.simps [simp del]

definition find_char :: "char \<Rightarrow> nat \<Rightarrow> string \<Rightarrow> nat option" where
  "find_char c pos s =
     (let rest = drop pos s
      in if c \<in> set rest then Some (pos + length (takeWhile (\<lambda>x. x \<noteq> c) rest)) else None)"

text \<open>\<^verbatim>\<open>haystack.find(needle) != npos\<close>\<close>

fun contains :: "string \<Rightarrow> string \<Rightarrow> bool" where
  "contains needle [] = (needle = [])"
| "contains needle (c # h) = (take (length needle) (c # h) = needle \<or> contains needle h)"

text \<open>
  \<^verbatim>\<open>is >> word\<close>: white space is skipped; at the end of the stream the extraction fails and leaves the
  variable as it was.
\<close>

definition extract_word :: "string \<Rightarrow> string \<Rightarrow> string" where
  "extract_word text old =
     (let rest = dropWhile isspace text in if rest = [] then old else takeWhile (\<lambda>c. \<not> isspace c) rest)"

text \<open>
  \<^verbatim>\<open>is >> number\<close>: an optional sign, digits with an optional decimal point, an optional exponent. It fails
  without a digit in the mantissa, without a digit in an exponent, and on overflow.
\<close>

definition digits :: "string \<Rightarrow> nat" where
  "digits ds = foldl (\<lambda>n c. 10 * n + (of_char c - 48)) 0 ds"

definition take_sign :: "string \<Rightarrow> bool \<times> string" where
  "take_sign s =
     (case s of [] \<Rightarrow> (False, [])
      | c # r \<Rightarrow> if c = CHR ''-'' then (True, r) else if c = CHR ''+'' then (False, r) else (False, s))"

definition extract_double :: "string \<Rightarrow> double option" where
  "extract_double text =
     (let (neg, s) = take_sign (dropWhile isspace text);
          whole = takeWhile isdigit s; s = dropWhile isdigit s;
          (frac, s) = (case s of c # r \<Rightarrow> if c = CHR ''.'' then (takeWhile isdigit r, dropWhile isdigit r) else ([], s)
                       | [] \<Rightarrow> ([], []));
          mantissa = (of_nat (digits (whole @ frac)) / 10 ^ length frac :: rat);
          value = (\<lambda>e :: int. case mk_double ((if neg then - 1 else 1) * mantissa * 10 powi e) of
                     Fin x \<Rightarrow> Some (Fin x) | _ \<Rightarrow> None)
      in if whole @ frac = [] then None
         else case s of
             c # r \<Rightarrow>
               if c = CHR ''e'' \<or> c = CHR ''E'' then
                 let (eneg, r) = take_sign r; ds = takeWhile isdigit r
                 in if ds = [] then None else value (if eneg then - int (digits ds) else int (digits ds))
               else value 0
           | [] \<Rightarrow> value 0)"

definition parseFirstDouble :: "string \<Rightarrow> double \<Rightarrow> double" where
  "parseFirstDouble text fallback = (case extract_double text of Some v \<Rightarrow> v | None \<Rightarrow> fallback)"

definition valueAfterColon :: "string \<Rightarrow> string" where
  "valueAfterColon line = (case find_char CHR '':'' 0 line of None \<Rightarrow> [] | Some pos \<Rightarrow> trim (drop (pos + 1) line))"

definition parseParenthesizedName :: "string \<Rightarrow> string" where
  "parseParenthesizedName value =
     (case find_char CHR ''('' 0 value of
        None \<Rightarrow> []
      | Some op \<Rightarrow>
          (case find_char CHR '')'' (op + 1) value of
             None \<Rightarrow> []
           | Some cl \<Rightarrow> if cl \<le> op + 1 then [] else trim (take (cl - op - 1) (drop (op + 1) value))))"

section \<open>Data\<close>

datatype ClockPhase = Preflight | InFlight

record ClockPolicy =
  cp_provider :: string
  cp_authority :: string
  cp_ground_time_source :: string
  cp_require_clock_ok_to_start :: bool
  cp_preflight_max_offset_ns :: i64
  cp_preflight_max_uncertainty_ns :: u64
  cp_in_flight_allow_step :: bool
  cp_external_sources_allowed_in_flight :: bool
  cp_phase_source :: string

record ChronyTracking =
  tr_ok :: bool
  tr_reference_id :: string
  tr_reference_name :: string
  tr_system_time_s :: double
  tr_root_delay_s :: double
  tr_root_dispersion_s :: double
  tr_leap_status :: string
  tr_error :: string

record ChronySources =
  src_ok :: bool
  src_selected_source :: string
  src_sources :: "string list"
  src_error :: string

record ClockMonitorSnapshot =
  cms_tracking :: ChronyTracking
  cms_sources :: ChronySources

record ClockMonitorResult =
  cmr_state :: ClockState
  cmr_start_allowed :: bool
  cmr_source_is_ground :: bool
  cmr_phase :: ClockPhase
  cmr_reason :: string

definition ChronyTracking_default :: ChronyTracking where
  "ChronyTracking_default =
     \<lparr>tr_ok = False, tr_reference_id = [], tr_reference_name = [], tr_system_time_s = Fin 0,
      tr_root_delay_s = Fin 0, tr_root_dispersion_s = Fin 0, tr_leap_status = [], tr_error = []\<rparr>"

definition ChronySources_default :: ChronySources where
  "ChronySources_default = \<lparr>src_ok = False, src_selected_source = [], src_sources = [], src_error = []\<rparr>"

definition ClockMonitorResult_default :: ClockMonitorResult where
  "ClockMonitorResult_default =
     \<lparr>cmr_state = ClockState_default, cmr_start_allowed = False, cmr_source_is_ground = False,
      cmr_phase = Preflight, cmr_reason = []\<rparr>"

section \<open>Parsing\<close>

definition tracking_line :: "ChronyTracking \<Rightarrow> string \<Rightarrow> ChronyTracking" where
  "tracking_line tracking raw =
     (let line = trim raw; value = valueAfterColon line
      in if startsWith line ''Reference ID'' then
           tracking\<lparr>tr_reference_id := extract_word value (tr_reference_id tracking),
             tr_reference_name := parseParenthesizedName value\<rparr>
         else if startsWith line ''System time'' then
           let magnitude = parseFirstDouble value (Fin 0)
           in tracking\<lparr>tr_system_time_s :=
                if contains ''slow'' (lower value) then dneg (dabs magnitude) else dabs magnitude\<rparr>
         else if startsWith line ''Root delay'' then
           tracking\<lparr>tr_root_delay_s := parseFirstDouble value (Fin 0)\<rparr>
         else if startsWith line ''Root dispersion'' then
           tracking\<lparr>tr_root_dispersion_s := parseFirstDouble value (Fin 0)\<rparr>
         else if startsWith line ''Leap status'' then tracking\<lparr>tr_leap_status := value\<rparr>
         else tracking)"

definition parseTracking :: "string \<Rightarrow> ChronyTracking" where
  "parseTracking text =
     (let tracking = foldl tracking_line ChronyTracking_default (getlines text);
          ok = (tr_leap_status tracking \<noteq> []);
          tracking = tracking\<lparr>tr_ok := ok\<rparr>
      in if \<not> ok then tracking\<lparr>tr_error := ''chronyc tracking output missing leap status''\<rparr> else tracking)"

definition sources_line :: "ChronySources \<Rightarrow> string \<Rightarrow> ChronySources" where
  "sources_line sources raw =
     (let line = trim raw
      in if length line < 3 then sources
         else
           let mode = line ! 0; state = line ! 1
           in if mode \<noteq> CHR ''^'' \<and> mode \<noteq> CHR ''='' \<and> mode \<noteq> CHR ''#'' then sources
              else
                let name = extract_word (drop 2 line) []
                in if name = [] then sources
                   else
                     let sources = sources\<lparr>src_sources := src_sources sources @ [name]\<rparr>
                     in if state = CHR ''*'' then sources\<lparr>src_selected_source := name\<rparr> else sources)"

definition parseSources :: "string \<Rightarrow> ChronySources" where
  "parseSources text =
     (let sources = foldl sources_line ChronySources_default (getlines text);
          ok = (src_selected_source sources \<noteq> []);
          sources = sources\<lparr>src_ok := ok\<rparr>
      in if \<not> ok then sources\<lparr>src_error := ''chronyc sources output has no selected source''\<rparr> else sources)"

section \<open>Evaluation\<close>

text \<open>
  Conversions of seconds outside the range of \<^verbatim>\<open>int64_t\<close> nanoseconds have no specified result (\<^verbatim>\<open>llround\<close>,
  \<^verbatim>\<open>llabs\<close>); the functions then return \<open>None\<close>.
\<close>

definition secondsToNs :: "double \<Rightarrow> i64 option" where
  "secondsToNs seconds = llround (dmul seconds (Fin 1000000000))"

definition uncertaintyNs :: "ChronyTracking \<Rightarrow> u64 option" where
  "uncertaintyNs tracking =
     (let root_distance_s =
            dadd (dabs (tr_root_dispersion_s tracking)) (dmul (dabs (tr_root_delay_s tracking)) (Fin (1 / 2)))
      in llround (dmul root_distance_s (Fin 1000000000)))"

definition sourceMatches :: "string \<Rightarrow> string \<Rightarrow> bool" where
  "sourceMatches candidate expected \<longleftrightarrow>
     expected = [] \<or>
     (let c = lower candidate; e = lower expected in c = e \<or> contains e c \<or> contains c e)"

definition llabs :: "i64 \<Rightarrow> i64 option" where
  "llabs x = (if sint x = - (2 ^ 63) then None else Some (if sint x < 0 then - x else x))"

fun join :: "string \<Rightarrow> string list \<Rightarrow> string" where
  "join sep [] = []"
| "join sep [x] = x"
| "join sep (x # y # xs) = x @ sep @ join sep (y # xs)"

definition evaluateSnapshot :: "ClockMonitorSnapshot \<Rightarrow> ClockPolicy \<Rightarrow> ClockPhase \<Rightarrow> ClockMonitorResult option" where
  "evaluateSnapshot snapshot policy phase =
     (let tracking = cms_tracking snapshot; sources = cms_sources snapshot
      in Option.bind (secondsToNs (tr_system_time_s tracking)) (\<lambda>offset_ns.
         Option.bind (uncertaintyNs tracking) (\<lambda>uncertainty_ns.
         Option.bind (llabs offset_ns) (\<lambda>magnitude.
           let source = (if src_selected_source sources = [] then tr_reference_name tracking
                         else src_selected_source sources);
               tracking_ok = tr_ok tracking;
               sources_ok = src_ok sources;
               leap_ok = (lower (tr_leap_status tracking) = ''normal'');
               offset_ok = i64_le magnitude (cp_preflight_max_offset_ns policy);
               uncertainty_ok = (uncertainty_ns \<le> cp_preflight_max_uncertainty_ns policy);
               source_is_ground =
                 (sourceMatches (src_selected_source sources) (cp_ground_time_source policy) \<or>
                  sourceMatches (tr_reference_name tracking) (cp_ground_time_source policy) \<or>
                  sourceMatches (tr_reference_id tracking) (cp_ground_time_source policy));
               reasons =
                 (if \<not> tracking_ok
                  then [if tr_error tracking = [] then ''chronyc tracking unavailable'' else tr_error tracking] else []) @
                 (if \<not> sources_ok
                  then [if src_error sources = [] then ''chronyc sources unavailable'' else src_error sources] else []) @
                 (if tracking_ok \<and> \<not> leap_ok then [''leap status is '' @ tr_leap_status tracking] else []) @
                 (if \<not> source_is_ground then [''selected source is not ground station''] else []) @
                 (if \<not> offset_ok then [''clock offset exceeds preflight gate''] else []) @
                 (if \<not> uncertainty_ok then [''clock uncertainty exceeds preflight gate''] else []);
               healthy =
                 (tracking_ok \<and> sources_ok \<and> leap_ok \<and> source_is_ground \<and> offset_ok \<and> uncertainty_ok);
               quality =
                 (if \<not> healthy \<and> tracking_ok \<and> sources_ok \<and> leap_ok \<and> source_is_ground \<and>
                     (offset_ok \<or> uncertainty_ok)
                  then ClockQuality_DEGRADED else if healthy then ClockQuality_OK else ClockQuality_BAD);
               reason = (if reasons = [] then ''clock synchronized to ground station'' else join ''; '' reasons);
               reason = (if phase = InFlight \<and> \<not> cp_in_flight_allow_step policy
                         then reason @ ''; in-flight step is disabled'' else reason)
           in Some \<lparr>cmr_state = \<lparr>clock_clock_ok = healthy, clock_offset_ns = offset_ns,
                       clock_uncertainty_ns = uncertainty_ns, clock_quality = quality, clock_source = source\<rparr>,
                    cmr_start_allowed = healthy \<or> \<not> cp_require_clock_ok_to_start policy,
                    cmr_source_is_ground = source_is_ground, cmr_phase = phase, cmr_reason = reason\<rparr>))))"

text \<open>\<^verbatim>\<open>ClockMonitor::sample\<close>. The runner returns the exit status and the output of a command.\<close>

definition clock_sample :: "(string \<Rightarrow> int \<times> string) \<Rightarrow> ClockPolicy \<Rightarrow> ClockPhase \<Rightarrow> ClockMonitorResult option" where
  "clock_sample runner policy phase =
     (let (track_rc, track_out) = runner ''chronyc tracking'';
          (source_rc, source_out) = runner ''chronyc sources -v'';
          tracking = (if track_rc = 0 then parseTracking track_out
                      else ChronyTracking_default\<lparr>tr_error := ''chronyc tracking failed: '' @ track_out\<rparr>);
          sources = (if source_rc = 0 then parseSources source_out
                     else ChronySources_default\<lparr>src_error := ''chronyc sources failed: '' @ source_out\<rparr>)
      in evaluateSnapshot \<lparr>cms_tracking = tracking, cms_sources = sources\<rparr> policy phase)"

definition phaseFromString :: "string \<Rightarrow> ClockPhase" where
  "phaseFromString text =
     (let value = lower (trim text)
      in if value = ''in_flight'' \<or> value = ''in-flight'' \<or> value = ''flight'' then InFlight else Preflight)"

definition phaseToString :: "ClockPhase \<Rightarrow> string" where
  "phaseToString phase = (if phase = InFlight then ''in_flight'' else ''preflight'')"

section \<open>Strings\<close>

lemma contains_iff_sublist: "contains needle h \<longleftrightarrow> sublist needle h"
proof (induction needle h rule: contains.induct)
  case (2 needle c h)
  have "take (length needle) (c # h) = needle \<longleftrightarrow> prefix needle (c # h)"
    by (metis append_eq_conv_conj prefix_def take_is_prefix)
  with 2 show ?case by (simp add: sublist_Cons_right)
qed simp

lemma getlines_append: "CHR 0x0A \<notin> set l \<Longrightarrow> getlines (l @ CHR 0x0A # r) = l # getlines r"
proof -
  assume "CHR 0x0A \<notin> set l"
  then have "takeWhile (\<lambda>c. c \<noteq> CHR 0x0A) (l @ CHR 0x0A # r) = l"
    "dropWhile (\<lambda>c. c \<noteq> CHR 0x0A) (l @ CHR 0x0A # r) = CHR 0x0A # r"
    by (induction l) auto
  then show ?thesis by (subst getlines.simps) simp
qed

lemma dropWhile_stop: "\<not> P x \<Longrightarrow> dropWhile P (ys @ x # zs) = dropWhile P ys @ x # zs"
  by (induction ys) simp_all

text \<open>Trimming a line that starts and goes on with visible characters only shortens what follows them.\<close>

lemma trim_visible:
  assumes "\<not> isspace c" and "\<not> isspace x"
  shows "\<exists>k. trim (c # s @ x # r) = c # s @ x # take k r"
proof -
  let ?d = "dropWhile isspace (rev r)"
  have "dropWhile isspace (rev (c # s @ x # r)) = ?d @ x # rev (c # s)"
    using dropWhile_stop [of isspace x "rev r" "rev (c # s)"] assms(2) by simp
  then have t: "trim (c # s @ x # r) = c # s @ x # rev ?d" using assms(1) by (simp add: trim_def)
  have "r = rev ?d @ rev (takeWhile isspace (rev r))" by (metis rev_append rev_rev_ident takeWhile_dropWhile_id)
  then have "take (length ?d) r = rev ?d" by (metis append_eq_conv_conj length_rev)
  with t show ?thesis by metis
qed

text \<open>
  Matching of time sources: without an expected source everything matches; otherwise, up to case, one
  name has to occur inside the other.
\<close>
lemma sourceMatches_iff:
  "sourceMatches candidate expected \<longleftrightarrow>
     expected = [] \<or> sublist (lower expected) (lower candidate) \<or> sublist (lower candidate) (lower expected)"
  by (auto simp: sourceMatches_def Let_def contains_iff_sublist)

section \<open>What a good clock rests on\<close>

lemma evaluateSnapshot_ok:
  assumes "evaluateSnapshot snap policy phase = Some r"
  shows "clock_clock_ok (cmr_state r) \<longleftrightarrow>
      tr_ok (cms_tracking snap) \<and> src_ok (cms_sources snap) \<and>
      lower (tr_leap_status (cms_tracking snap)) = ''normal'' \<and> cmr_source_is_ground r \<and>
      \<bar>sint (clock_offset_ns (cmr_state r))\<bar> \<le> sint (cp_preflight_max_offset_ns policy) \<and>
      clock_uncertainty_ns (cmr_state r) \<le> cp_preflight_max_uncertainty_ns policy"
    "clock_quality (cmr_state r) = ClockQuality_OK \<longleftrightarrow> clock_clock_ok (cmr_state r)"
    "cmr_start_allowed r \<longleftrightarrow> clock_clock_ok (cmr_state r) \<or> \<not> cp_require_clock_ok_to_start policy"
    "clock_source (cmr_state r) = (if src_selected_source (cms_sources snap) = []
       then tr_reference_name (cms_tracking snap) else src_selected_source (cms_sources snap))"
proof -
  obtain off unc m where o: "secondsToNs (tr_system_time_s (cms_tracking snap)) = Some off"
    "uncertaintyNs (cms_tracking snap) = Some unc" "llabs off = Some m"
    using assms by (auto simp: evaluateSnapshot_def Let_def Option.bind_eq_Some_conv)
  have "sint m = \<bar>sint off\<bar>"
    using o(3) i64_range [of off] sint_i64_sub [of 0 off] by (auto simp: llabs_def split: if_splits)
  then have l: "i64_le m x \<longleftrightarrow> \<bar>sint off\<bar> \<le> sint x" for x by simp
  note E = assms [unfolded evaluateSnapshot_def Let_def o Option.bind.bind_lunit option.inject, symmetric]
  show "clock_clock_ok (cmr_state r) \<longleftrightarrow>
      tr_ok (cms_tracking snap) \<and> src_ok (cms_sources snap) \<and>
      lower (tr_leap_status (cms_tracking snap)) = ''normal'' \<and> cmr_source_is_ground r \<and>
      \<bar>sint (clock_offset_ns (cmr_state r))\<bar> \<le> sint (cp_preflight_max_offset_ns policy) \<and>
      clock_uncertainty_ns (cmr_state r) \<le> cp_preflight_max_uncertainty_ns policy"
    unfolding E by (simp add: l)
  show "clock_quality (cmr_state r) = ClockQuality_OK \<longleftrightarrow> clock_clock_ok (cmr_state r)"
    unfolding E by (simp add: ClockQuality_OK_def ClockQuality_DEGRADED_def ClockQuality_BAD_def) blast
  show "cmr_start_allowed r \<longleftrightarrow> clock_clock_ok (cmr_state r) \<or> \<not> cp_require_clock_ok_to_start policy"
    unfolding E by simp
  show "clock_source (cmr_state r) = (if src_selected_source (cms_sources snap) = []
       then tr_reference_name (cms_tracking snap) else src_selected_source (cms_sources snap))"
    unfolding E by simp
qed

text \<open>The last line of its kind decides a field; here the leap status and the selected source.\<close>

lemma leap_status_from_line:
  assumes "tr_leap_status (foldl tracking_line t ls) \<noteq> tr_leap_status t"
  shows "\<exists>l \<in> set ls. startsWith (trim l) ''Leap status'' \<and>
    tr_leap_status (foldl tracking_line t ls) = valueAfterColon (trim l)"
  using assms
proof (induction ls rule: rev_induct)
  case (snoc l ls)
  let ?t = "foldl tracking_line t ls"
  show ?case
  proof (cases "tr_leap_status (tracking_line ?t l) = tr_leap_status ?t")
    case True
    then show ?thesis using snoc by auto
  next
    case False
    then have "startsWith (trim l) ''Leap status'' \<and>
        tr_leap_status (tracking_line ?t l) = valueAfterColon (trim l)"
      by (auto simp: tracking_line_def Let_def split: if_splits)
    then show ?thesis by simp
  qed
qed simp

definition starred :: "string \<Rightarrow> string \<Rightarrow> bool" where
  "starred l name \<longleftrightarrow>
     3 \<le> length (trim l) \<and> trim l ! 0 \<in> {CHR ''^'', CHR ''='', CHR ''#''} \<and> trim l ! 1 = CHR ''*'' \<and>
     name = extract_word (drop 2 (trim l)) []"

lemma selected_source_from_line:
  assumes "src_selected_source (foldl sources_line s ls) \<noteq> src_selected_source s"
  shows "\<exists>l \<in> set ls. starred l (src_selected_source (foldl sources_line s ls))"
  using assms
proof (induction ls rule: rev_induct)
  case (snoc l ls)
  let ?s = "foldl sources_line s ls"
  show ?case
  proof (cases "src_selected_source (sources_line ?s l) = src_selected_source ?s")
    case True
    then show ?thesis using snoc by auto
  next
    case False
    then have "starred l (src_selected_source (sources_line ?s l))"
      by (auto simp: sources_line_def starred_def Let_def split: if_splits)
    then show ?thesis by simp
  qed
qed simp

text \<open>
  C31. What a good clock rests on. If the monitor reports the clock as OK, then both chronyc commands
  succeeded, the tracking output has a line that gives the leap status as normal, the sources output
  marks a source as selected and that is the source reported, the offset and the uncertainty are within
  the policy's limits, the quality is OK and starting is allowed.
\<close>
theorem clock_ok_rests_on_evidence:
  assumes "clock_sample runner policy phase = Some r" and "clock_clock_ok (cmr_state r)"
  shows "fst (runner ''chronyc tracking'') = 0 \<and> fst (runner ''chronyc sources -v'') = 0 \<and>
    (\<exists>l \<in> set (getlines (snd (runner ''chronyc tracking''))).
       startsWith (trim l) ''Leap status'' \<and> lower (valueAfterColon (trim l)) = ''normal'') \<and>
    (\<exists>l \<in> set (getlines (snd (runner ''chronyc sources -v''))). starred l (clock_source (cmr_state r))) \<and>
    \<bar>sint (clock_offset_ns (cmr_state r))\<bar> \<le> sint (cp_preflight_max_offset_ns policy) \<and>
    clock_uncertainty_ns (cmr_state r) \<le> cp_preflight_max_uncertainty_ns policy \<and>
    clock_quality (cmr_state r) = ClockQuality_OK \<and> cmr_start_allowed r"
proof -
  obtain trc tout src sout where run: "runner ''chronyc tracking'' = (trc, tout)"
    "runner ''chronyc sources -v'' = (src, sout)"
    by (metis surj_pair)
  let ?t = "if trc = 0 then parseTracking tout
    else ChronyTracking_default\<lparr>tr_error := ''chronyc tracking failed: '' @ tout\<rparr>"
  let ?s = "if src = 0 then parseSources sout
    else ChronySources_default\<lparr>src_error := ''chronyc sources failed: '' @ sout\<rparr>"
  have "evaluateSnapshot \<lparr>cms_tracking = ?t, cms_sources = ?s\<rparr> policy phase = Some r"
    using assms(1) by (simp add: clock_sample_def run)
  note E = evaluateSnapshot_ok [OF this]
  have ok: "tr_ok ?t" "src_ok ?s" "lower (tr_leap_status ?t) = ''normal''"
    using E(1) assms(2) by simp_all
  have rc: "trc = 0" "src = 0"
    using ok(1,2) by (auto simp: ChronyTracking_default_def ChronySources_default_def split: if_splits)
  let ?T = "foldl tracking_line ChronyTracking_default (getlines tout)"
  let ?S = "foldl sources_line ChronySources_default (getlines sout)"
  have t: "tr_leap_status ?t = tr_leap_status ?T" using rc by (simp add: parseTracking_def Let_def)
  have "tr_leap_status ?T \<noteq> tr_leap_status ChronyTracking_default"
    using ok(3) t by (auto simp: ChronyTracking_default_def lower_def)
  from leap_status_from_line [OF this] ok(3) t
  have 1: "\<exists>l \<in> set (getlines tout). startsWith (trim l) ''Leap status'' \<and> lower (valueAfterColon (trim l)) = ''normal''"
    by metis
  have s: "src_selected_source ?s = src_selected_source ?S" "src_selected_source ?S \<noteq> []"
    using ok(2) rc by (auto simp: parseSources_def Let_def split: if_splits)
  then have "src_selected_source ?S \<noteq> src_selected_source ChronySources_default"
    by (simp add: ChronySources_default_def)
  from selected_source_from_line [OF this]
  have 2: "\<exists>l \<in> set (getlines sout). starred l (clock_source (cmr_state r))"
    using E(4) s by simp
  show ?thesis using E(1-3) assms(2) rc 1 2 by (simp add: run)
qed

section \<open>Reading the source table\<close>

text \<open>A line of the source table: mode, state, name, and the remaining columns.\<close>

type_synonym source_entry = "char \<times> char \<times> string \<times> string"

fun source_line :: "source_entry \<Rightarrow> string" where
  "source_line (mode, state, name, rest) = mode # state # CHR '' '' # name @ rest"

fun source_name :: "source_entry \<Rightarrow> string" where
  "source_name (mode, state, name, rest) = name"

fun source_valid :: "source_entry \<Rightarrow> bool" where
  "source_valid (mode, state, name, rest) \<longleftrightarrow>
     mode \<in> {CHR ''^'', CHR ''='', CHR ''#''} \<and> state \<noteq> CHR 0x0A \<and> CHR 0x0A \<notin> set rest \<and>
     name \<noteq> [] \<and> list_all (\<lambda>c. \<not> isspace c) name \<and> (rest = [] \<or> isspace (hd rest))"

fun source_selected :: "source_entry \<Rightarrow> bool" where
  "source_selected (mode, state, name, rest) \<longleftrightarrow> state = CHR ''*''"

definition render_sources :: "source_entry list \<Rightarrow> string" where
  "render_sources es = concat (map (\<lambda>e. source_line e @ [CHR 0x0A]) es)"

definition last_selected :: "source_entry list \<Rightarrow> string" where
  "last_selected es =
     (let sel = filter source_selected es in if sel = [] then [] else source_name (last sel))"

lemma extract_word_prefix:
  assumes "list_all (\<lambda>c. \<not> isspace c) name" and "name \<noteq> []" and "rest = [] \<or> isspace (hd rest)"
  shows "extract_word (CHR '' '' # name @ take k rest) [] = name"
proof -
  have "isspace CHR '' ''" by (simp add: isspace_def)
  moreover have "dropWhile isspace (name @ r) = name @ r" for r
    using assms(1,2) by (cases name) auto
  moreover have "takeWhile (\<lambda>c. \<not> isspace c) (name @ r) = name" if "r = [] \<or> isspace (hd r)" for r
    using assms(1) that by (induction name) (auto, cases r, auto)
  moreover have "take k rest = [] \<or> isspace (hd (take k rest))" using assms(3) by (cases k) (auto simp: hd_conv_nth)
  ultimately show ?thesis using assms(2) by (simp add: extract_word_def Let_def)
qed

lemma sources_line_entry:
  assumes "source_valid e"
  shows "sources_line s (source_line e) =
    s\<lparr>src_sources := src_sources s @ [source_name e],
      src_selected_source := if source_selected e then source_name e else src_selected_source s\<rparr>"
proof -
  obtain m st n r where e: "e = (m, st, n, r)" by (cases e)
  obtain n' x where n: "n = n' @ [x]" using assms e by (metis rev_exhaust source_valid.simps)
  have v: "\<not> isspace m" "\<not> isspace x" "list_all (\<lambda>c. \<not> isspace c) n" "n \<noteq> []" "r = [] \<or> isspace (hd r)"
    and m: "m = CHR ''^'' \<or> m = CHR ''='' \<or> m = CHR ''#''"
    using assms n by (auto simp: e isspace_def)
  obtain k where "trim (source_line e) = m # st # CHR '' '' # n @ take k r"
    using trim_visible [OF v(1,2), of "st # CHR '' '' # n'" r] by (auto simp: e n)
  with m extract_word_prefix [OF v(3-5), of k] v(4) show ?thesis
    by (auto simp: sources_line_def Let_def e)
qed

lemma getlines_render:
  "list_all source_valid es \<Longrightarrow> getlines (render_sources es) = map source_line es"
proof (induction es)
  case Nil
  show ?case by (simp add: render_sources_def getlines.simps)
next
  case (Cons e es)
  have "CHR 0x0A \<notin> set (source_line e)"
    using Cons.prems by (cases e) (auto simp: isspace_def list_all_iff)
  from getlines_append [OF this, of "render_sources es"] Cons show ?case by (simp add: render_sources_def)
qed

text \<open>
  C32. Reading back the source table. However many sources are printed, one per line with mode, state,
  name and further columns, the parser returns their names in order; the selected source is the last one
  marked with a star, and parsing succeeds exactly if there is one.
\<close>
theorem parseSources_reads_table:
  assumes "list_all source_valid es"
  shows "src_sources (parseSources (render_sources es)) = map source_name es \<and>
    src_selected_source (parseSources (render_sources es)) = last_selected es \<and>
    (src_ok (parseSources (render_sources es)) \<longleftrightarrow> (\<exists>e \<in> set es. source_selected e))"
proof -
  let ?s = "foldl sources_line ChronySources_default (map source_line es)"
  have "src_sources ?s = map source_name es \<and> src_selected_source ?s = last_selected es"
    using assms
    by (induction es rule: rev_induct)
      (simp_all add: ChronySources_default_def last_selected_def sources_line_entry Let_def)
  moreover have "last_selected es \<noteq> [] \<longleftrightarrow> (\<exists>e \<in> set es. source_selected e)"
  proof -
    have nonempty: "source_valid e \<Longrightarrow> source_name e \<noteq> []" for e by (cases e) simp
    have "source_name (last (filter source_selected es)) \<noteq> []" if "filter source_selected es \<noteq> []"
      using last_in_set [OF that] assms nonempty by (auto simp: list_all_iff)
    then show ?thesis by (auto simp: last_selected_def Let_def filter_empty_conv)
  qed
  ultimately show ?thesis by (simp add: parseSources_def getlines_render [OF assms] Let_def) blast
qed

theorem parseSources_reads_table_witness:
  "src_selected_source (parseSources (render_sources
     [(CHR ''^'', CHR ''*'', ''192.168.10.10'', '' 1 6 377''), (CHR ''^'', CHR ''-'', ''pool.ntp.org'', '' 2'')])) =
   ''192.168.10.10''"
  using parseSources_reads_table [of "[(CHR ''^'', CHR ''*'', ''192.168.10.10'', '' 1 6 377''),
    (CHR ''^'', CHR ''-'', ''pool.ntp.org'', '' 2'')]"]
  by (simp add: isspace_def last_selected_def)

definition demo_runner :: "string \<Rightarrow> int \<times> string" where
  "demo_runner cmd =
     (0, if cmd = ''chronyc tracking'' then ''Reference ID : C0A80A0A (ground)'' @ [CHR 0x0A] @ ''Leap status : Normal''
         else ''^* ground 1'')"

definition demo_policy :: ClockPolicy where
  "demo_policy = \<lparr>cp_provider = ''chrony'', cp_authority = ''ground_station'', cp_ground_time_source = ''ground'',
     cp_require_clock_ok_to_start = True, cp_preflight_max_offset_ns = 2000000,
     cp_preflight_max_uncertainty_ns = 2000000, cp_in_flight_allow_step = False,
     cp_external_sources_allowed_in_flight = False, cp_phase_source = ''external''\<rparr>"

lemma demo_parse:
  "parseTracking (snd (demo_runner ''chronyc tracking'')) =
     ChronyTracking_default\<lparr>tr_ok := True, tr_reference_id := ''C0A80A0A'', tr_reference_name := ''ground'',
       tr_leap_status := ''Normal''\<rparr>"
  "parseSources (snd (demo_runner ''chronyc sources -v'')) =
     \<lparr>src_ok = True, src_selected_source = ''ground'', src_sources = [''ground''], src_error = []\<rparr>"
  by code_simp+

lemma mk_double_0 [simp]: "mk_double 0 = Fin 0"
  using d_of_nat_exact [of 0] by (simp add: d_of_nat_def)

lemma round_half_away_0 [simp]: "round_half_away 0 = 0"
proof -
  have "\<lfloor>1 / 2 :: rat\<rfloor> = 0" by (simp add: floor_eq_iff)
  then show ?thesis by (simp add: round_half_away_def)
qed

lemma demo_sample:
  "\<exists>r. clock_sample demo_runner demo_policy Preflight = Some r \<and> clock_clock_ok (cmr_state r)"
proof -
  have "fst (demo_runner cmd) = 0" for cmd by (simp add: demo_runner_def)
  moreover have "sourceMatches ''ground'' ''ground''" by (simp add: sourceMatches_iff)
  moreover have "lower ''Normal'' = ''normal''" by code_simp
  ultimately show ?thesis
    by (simp add: clock_sample_def split_beta demo_parse evaluateSnapshot_def secondsToNs_def uncertaintyNs_def
        llabs_def ChronyTracking_default_def demo_policy_def Let_def)
qed

theorem clock_ok_rests_on_evidence_witness:
  "\<exists>r. clock_sample demo_runner demo_policy Preflight = Some r \<and>
     \<bar>sint (clock_offset_ns (cmr_state r))\<bar> \<le> 2000000 \<and> clock_quality (cmr_state r) = ClockQuality_OK"
proof -
  obtain r where r: "clock_sample demo_runner demo_policy Preflight = Some r" "clock_clock_ok (cmr_state r)"
    using demo_sample by blast
  have "sint (cp_preflight_max_offset_ns demo_policy) = 2000000" by (simp add: demo_policy_def)
  with clock_ok_rests_on_evidence [OF r] r(1) show ?thesis by simp
qed

text \<open>
  The test for the ground station is a test for substrings: an address passes that merely extends the
  configured one, and so does an empty name.
\<close>

lemma ground_source_by_substring:
  "sourceMatches ''192.168.10.100'' ''192.168.10.10''" "sourceMatches [] expected"
  by (simp_all add: sourceMatches_iff, code_simp) (simp_all add: lower_def)

text \<open>The rule under the heading of the source table is read as a source.\<close>

lemma heading_read_as_source: "src_sources (parseSources ''====='') = [''==='']"
  by code_simp

end
