(* ===== verification/Adapter_Config.thy ===== *)
theory Adapter_Config
  imports Transport_Keys Clock_Monitor Weaknet_Guards
begin

text \<open>
  The ROS adapter configuration, \<^verbatim>\<open>src/ros1/adapter_config.cpp\<close>: which topics may be exchanged, on which
  channel and with which schema. The raw configuration is a value of the XmlRpc library, which is not
  part of the repository: its operations are the record \<open>XmlRpc\<close>, an argument of the functions that
  read it.
\<close>

section \<open>The XmlRpc library\<close>

datatype XmlRpcType =
  TypeInvalid | TypeBoolean | TypeInt | TypeDouble | TypeString | TypeDateTime | TypeBase64 | TypeArray | TypeStruct

record 'v XmlRpc =
  xr_getType :: "'v \<Rightarrow> XmlRpcType"
  xr_hasMember :: "'v \<Rightarrow> string \<Rightarrow> bool"
  xr_member :: "'v \<Rightarrow> string \<Rightarrow> 'v"
  xr_size :: "'v \<Rightarrow> nat"
  xr_element :: "'v \<Rightarrow> nat \<Rightarrow> 'v"
  xr_string :: "'v \<Rightarrow> string"
  xr_bool :: "'v \<Rightarrow> bool"
  xr_int :: "'v \<Rightarrow> int"

section \<open>Data\<close>

definition kDefaultAdapterMaxPayloadBytes :: nat where
  "kDefaultAdapterMaxPayloadBytes = 64 * 1024"

record AdapterRule =
  ar_name :: string
  ar_topic :: string
  ar_channel :: string
  ar_schema_id :: string
  ar_payload_type :: string
  ar_enabled :: bool
  ar_max_payload_bytes :: nat
  ar_required :: bool
  ar_allow_large_payload :: bool

definition AdapterRule_default :: AdapterRule where
  "AdapterRule_default =
     \<lparr>ar_name = [], ar_topic = [], ar_channel = [], ar_schema_id = [], ar_payload_type = ''bytes'',
      ar_enabled = True, ar_max_payload_bytes = kDefaultAdapterMaxPayloadBytes, ar_required = False,
      ar_allow_large_payload = False\<rparr>"

record AdapterConfig =
  ac_deny_by_default :: bool
  ac_rules :: "AdapterRule list"

text \<open>\<^verbatim>\<open>AdapterConfigResult\<close> is \<open>Inl\<close> of the error or \<open>Inr\<close> of the configuration.\<close>

type_synonym AdapterConfigResult = "string + AdapterConfig"

definition enabledRuleCount :: "AdapterConfig \<Rightarrow> nat" where
  "enabledRuleCount config = length (filter ar_enabled (ac_rules config))"

definition defaultAdapterConfig :: AdapterConfig where
  "defaultAdapterConfig = \<lparr>ac_deny_by_default = True, ac_rules = []\<rparr>"

section \<open>Reading fields\<close>

definition hasMember :: "'v XmlRpc \<Rightarrow> 'v \<Rightarrow> string \<Rightarrow> bool" where
  "hasMember x v key \<longleftrightarrow> xr_getType x v = TypeStruct \<and> xr_hasMember x v key"

fun typeName :: "XmlRpcType \<Rightarrow> string" where
  "typeName TypeInvalid = ''invalid''"
| "typeName TypeBoolean = ''bool''"
| "typeName TypeInt = ''int''"
| "typeName TypeDouble = ''double''"
| "typeName TypeString = ''string''"
| "typeName TypeDateTime = ''datetime''"
| "typeName TypeBase64 = ''base64''"
| "typeName TypeArray = ''array''"
| "typeName TypeStruct = ''struct''"

text \<open>
  The readers write through a pointer and return whether they succeeded; here they return the error or
  the value, which is the old one if the field is absent.
\<close>

definition readStringField :: "'v XmlRpc \<Rightarrow> 'v \<Rightarrow> string \<Rightarrow> bool \<Rightarrow> string \<Rightarrow> string + string" where
  "readStringField x v key required old =
     (if \<not> hasMember x v key then if required then Inl (key @ '' is required'') else Inr old
      else let field = xr_member x v key
           in if xr_getType x field \<noteq> TypeString
              then Inl (key @ '' must be a string, got '' @ typeName (xr_getType x field))
              else Inr (xr_string x field))"

definition readBoolField :: "'v XmlRpc \<Rightarrow> 'v \<Rightarrow> string \<Rightarrow> bool \<Rightarrow> string + bool" where
  "readBoolField x v key old =
     (if \<not> hasMember x v key then Inr old
      else let field = xr_member x v key
           in if xr_getType x field \<noteq> TypeBoolean
              then Inl (key @ '' must be a bool, got '' @ typeName (xr_getType x field))
              else Inr (xr_bool x field))"

definition readSizeField :: "'v XmlRpc \<Rightarrow> 'v \<Rightarrow> string \<Rightarrow> nat \<Rightarrow> string + nat" where
  "readSizeField x v key old =
     (if \<not> hasMember x v key then Inr old
      else let field = xr_member x v key
           in if xr_getType x field \<noteq> TypeInt
              then Inl (key @ '' must be an int, got '' @ typeName (xr_getType x field))
              else if xr_int x field \<le> 0 then Inl (key @ '' must be positive'')
              else Inr (nat (xr_int x field)))"

section \<open>Validation\<close>

definition lowerCopy :: "string \<Rightarrow> string" where
  "lowerCopy value = map tolower value"

definition isReservedSystemTopic :: "string \<Rightarrow> bool" where
  "isReservedSystemTopic topic \<longleftrightarrow>
     topic = ''/tf'' \<or> topic = ''/tf_static'' \<or> topic = ''/rosout'' \<or> topic = ''/clock''"

definition isLargeDebugTopic :: "string \<Rightarrow> bool" where
  "isLargeDebugTopic topic \<longleftrightarrow>
     (let lowered = lowerCopy topic
      in contains ''image'' lowered \<or> contains ''pointcloud'' lowered \<or> contains ''debug'' lowered \<or>
         contains ''camera'' lowered \<or> contains ''raw'' lowered)"

definition isDefaultDeniedTopic :: "string \<Rightarrow> bool" where
  "isDefaultDeniedTopic topic \<longleftrightarrow> isReservedSystemTopic topic \<or> isLargeDebugTopic topic"

definition validateTaskField :: "string \<Rightarrow> string \<Rightarrow> string + unit" where
  "validateTaskField field_name value =
     (if value = [] then Inl (field_name @ '' is required'')
      else if \<not> isValidTaskKeyField value then Inl (field_name @ '' contains an illegal character'')
      else Inr ())"

definition ruleLabel :: "AdapterRule \<Rightarrow> nat \<Rightarrow> string" where
  "ruleLabel rule index = (if ar_name rule = [] then ''rule['' @ decimal index @ '']'' else ar_name rule)"

text \<open>The checks of one rule, in the order of the loop; the label is prefixed to the error.\<close>

definition ruleChecks :: "string set \<Rightarrow> (string \<times> string) set \<Rightarrow> AdapterRule \<Rightarrow> string + unit" where
  "ruleChecks names mappings rule =
     and_then (validateTaskField ''name'' (ar_name rule))
    (and_then (validateTaskField ''channel'' (ar_channel rule))
    (and_then (validateTaskField ''schema_id'' (ar_schema_id rule))
    (and_then (check (ar_topic rule \<noteq> [] \<and> hd (ar_topic rule) = CHR ''/'') ''topic must start with /'')
    (and_then (check (ar_payload_type rule \<noteq> []) ''payload_type is required'')
    (and_then (check (ar_max_payload_bytes rule \<noteq> 0) ''max_payload_bytes must be positive'')
    (and_then (check (ar_max_payload_bytes rule \<le> kDefaultMaxPayloadBytes)
       ''max_payload_bytes exceeds envelope maximum'')
    (and_then (check (ar_allow_large_payload rule \<or> ar_max_payload_bytes rule \<le> kDefaultAdapterMaxPayloadBytes)
       ''allow_large_payload is required above adapter default size'')
    (and_then (check (ar_allow_large_payload rule \<or> \<not> isDefaultDeniedTopic (ar_topic rule))
       ''topic is default-denied; set allow_large_payload=true for explicit override'')
    (and_then (check (ar_name rule \<notin> names) ''duplicate rule name'')
      (check (\<not> ar_enabled rule \<or> (ar_channel rule, ar_schema_id rule) \<notin> mappings)
         ''duplicate enabled channel/schema mapping''))))))))))"

fun validateRules :: "string set \<Rightarrow> (string \<times> string) set \<Rightarrow> nat \<Rightarrow> AdapterRule list \<Rightarrow> string + unit" where
  "validateRules names mappings i [] = Inr ()"
| "validateRules names mappings i (rule # rules) =
     (case ruleChecks names mappings rule of
        Inl e \<Rightarrow> Inl (ruleLabel rule i @ '': '' @ e)
      | Inr _ \<Rightarrow>
          validateRules (insert (ar_name rule) names)
            (if ar_enabled rule then insert (ar_channel rule, ar_schema_id rule) mappings else mappings)
            (i + 1) rules)"

definition validateAdapterConfig :: "AdapterConfig \<Rightarrow> AdapterConfigResult" where
  "validateAdapterConfig config =
     (case validateRules {} {} 0 (ac_rules config) of Inl e \<Rightarrow> Inl e | Inr _ \<Rightarrow> Inr config)"

section \<open>Parsing\<close>

definition bind_sum :: "'e + 'a \<Rightarrow> ('a \<Rightarrow> 'e + 'b) \<Rightarrow> 'e + 'b" where
  "bind_sum r f = (case r of Inl e \<Rightarrow> Inl e | Inr a \<Rightarrow> f a)"

definition parseRule :: "'v XmlRpc \<Rightarrow> 'v \<Rightarrow> string + AdapterRule" where
  "parseRule x v =
     bind_sum (readStringField x v ''name'' True []) (\<lambda>name.
     bind_sum (readStringField x v ''topic'' True []) (\<lambda>topic.
     bind_sum (readStringField x v ''channel'' True []) (\<lambda>channel.
     bind_sum (readStringField x v ''schema_id'' True []) (\<lambda>schema_id.
     bind_sum (readStringField x v ''payload_type'' True ''bytes'') (\<lambda>payload_type.
     bind_sum (readBoolField x v ''enabled'' True) (\<lambda>enabled.
     bind_sum (readBoolField x v ''required'' False) (\<lambda>required.
     bind_sum (readBoolField x v ''allow_large_payload'' False) (\<lambda>allow_large_payload.
     bind_sum (readSizeField x v ''max_payload_bytes'' kDefaultAdapterMaxPayloadBytes) (\<lambda>max_payload_bytes.
       Inr \<lparr>ar_name = name, ar_topic = topic, ar_channel = channel, ar_schema_id = schema_id,
            ar_payload_type = payload_type, ar_enabled = enabled, ar_max_payload_bytes = max_payload_bytes,
            ar_required = required, ar_allow_large_payload = allow_large_payload\<rparr>)))))))))"

fun parseRules :: "'v XmlRpc \<Rightarrow> 'v \<Rightarrow> nat \<Rightarrow> nat \<Rightarrow> string + AdapterRule list" where
  "parseRules x v i 0 = Inr []"
| "parseRules x v i (Suc n) =
     (let raw_rule = xr_element x v i
      in if xr_getType x raw_rule \<noteq> TypeStruct
         then Inl (''rules['' @ decimal i @ ''] must be a struct, got '' @ typeName (xr_getType x raw_rule))
         else case parseRule x raw_rule of
             Inl e \<Rightarrow> Inl (''rules['' @ decimal i @ '']: '' @ e)
           | Inr rule \<Rightarrow> bind_sum (parseRules x v (i + 1) n) (\<lambda>rules. Inr (rule # rules)))"

definition parseAdapterConfigXmlRpc :: "'v XmlRpc \<Rightarrow> 'v \<Rightarrow> AdapterConfigResult" where
  "parseAdapterConfigXmlRpc x v0 =
     (let v = (if hasMember x v0 ''ros1_adapters'' then xr_member x v0 ''ros1_adapters'' else v0)
      in if xr_getType x v \<noteq> TypeStruct
         then Inl (''ros1_adapters must be a struct, got '' @ typeName (xr_getType x v))
         else bind_sum (readBoolField x v ''deny_by_default'' True) (\<lambda>deny.
           if \<not> hasMember x v ''rules''
           then validateAdapterConfig \<lparr>ac_deny_by_default = deny, ac_rules = []\<rparr>
           else let rules = xr_member x v ''rules''
                in if xr_getType x rules \<noteq> TypeArray
                   then Inl (''rules must be an array, got '' @ typeName (xr_getType x rules))
                   else bind_sum (parseRules x rules 0 (xr_size x rules)) (\<lambda>rs.
                     validateAdapterConfig \<lparr>ac_deny_by_default = deny, ac_rules = rs\<rparr>)))"

definition summarizeAdapterConfig :: "AdapterConfig \<Rightarrow> string" where
  "summarizeAdapterConfig config =
     ''adapters='' @ decimal (enabledRuleCount config) @ ''/'' @ decimal (length (ac_rules config)) @
     '' deny_by_default='' @ (if ac_deny_by_default config then ''true'' else ''false'')"

section \<open>What an accepted configuration guarantees\<close>

definition rule_acceptable :: "AdapterRule \<Rightarrow> bool" where
  "rule_acceptable r \<longleftrightarrow>
     isValidTaskKeyField (ar_name r) \<and> isValidTaskKeyField (ar_channel r) \<and> isValidTaskKeyField (ar_schema_id r) \<and>
     ar_topic r \<noteq> [] \<and> hd (ar_topic r) = CHR ''/'' \<and> ar_payload_type r \<noteq> [] \<and>
     0 < ar_max_payload_bytes r \<and> ar_max_payload_bytes r \<le> 1048576 \<and>
     (ar_allow_large_payload r \<or> ar_max_payload_bytes r \<le> 65536 \<and> \<not> isDefaultDeniedTopic (ar_topic r))"

abbreviation ar_mapping :: "AdapterRule \<Rightarrow> string \<times> string" where
  "ar_mapping r \<equiv> (ar_channel r, ar_schema_id r)"

lemma validateTaskField_Inr: "validateTaskField n v = Inr u \<longleftrightarrow> isValidTaskKeyField v"
  by (auto simp: validateTaskField_def isValidTaskKeyField_iff)

lemma ruleChecks_Inr:
  "ruleChecks names mappings r = Inr u \<longleftrightarrow>
     rule_acceptable r \<and> ar_name r \<notin> names \<and> (ar_enabled r \<longrightarrow> ar_mapping r \<notin> mappings)"
  by (auto simp: ruleChecks_def and_then_Inr validateTaskField_Inr rule_acceptable_def
      kDefaultMaxPayloadBytes_def kDefaultAdapterMaxPayloadBytes_def)

lemma validateRules_Inr:
  "validateRules names mappings i rs = Inr u \<longleftrightarrow>
     (\<forall>r \<in> set rs. rule_acceptable r) \<and> distinct (map ar_name rs) \<and> set (map ar_name rs) \<inter> names = {} \<and>
     distinct (map ar_mapping (filter ar_enabled rs)) \<and> set (map ar_mapping (filter ar_enabled rs)) \<inter> mappings = {}"
proof (induction names mappings i rs rule: validateRules.induct)
  case (2 names mappings i rule rules)
  show ?case
  proof (cases "ruleChecks names mappings rule")
    case (Inl e)
    then have "\<not> (rule_acceptable rule \<and> ar_name rule \<notin> names \<and>
        (ar_enabled rule \<longrightarrow> ar_mapping rule \<notin> mappings))"
      using ruleChecks_Inr [of names mappings rule "()"] by simp
    with Inl show ?thesis by auto
  next
    case (Inr w)
    then show ?thesis using 2 [OF Inr] ruleChecks_Inr [of names mappings rule w] by auto
  qed
qed simp

lemma validateAdapterConfig_Inr:
  "validateAdapterConfig config = Inr c \<longleftrightarrow>
     c = config \<and> (\<forall>r \<in> set (ac_rules config). rule_acceptable r) \<and> distinct (map ar_name (ac_rules config)) \<and>
     distinct (map ar_mapping (filter ar_enabled (ac_rules config)))"
  using validateRules_Inr [of "{}" "{}" 0 "ac_rules config"]
  by (auto simp: validateAdapterConfig_def split: sum.splits)

lemma bind_sum_Inr: "bind_sum r f = Inr b \<longleftrightarrow> (\<exists>a. r = Inr a \<and> f a = Inr b)"
  by (simp add: bind_sum_def split: sum.splits)

lemma parse_validates:
  "parseAdapterConfigXmlRpc x v = Inr c \<Longrightarrow> validateAdapterConfig c = Inr c"
  by (auto simp: parseAdapterConfigXmlRpc_def Let_def bind_sum_Inr validateAdapterConfig_Inr split: if_splits)

definition route_key :: "string \<Rightarrow> string \<Rightarrow> AdapterRule \<Rightarrow> TransportKeyResult" where
  "route_key session task r =
     buildTaskSampleKey \<lparr>key_session_id = session, key_task_id = task, key_channel = ar_channel r,
       key_schema_id = ar_schema_id r\<rparr>"

lemma route_key_valid:
  assumes "isValidTaskKeyField session" "isValidTaskKeyField task" "rule_acceptable r"
  shows "\<exists>k. route_key session task r = Inr k \<and> validateTaskSampleKey k = Inr ()"
proof -
  have "\<exists>k. route_key session task r = Inr k"
    using assms by (simp add: route_key_def build_Inr valid_fields_def rule_acceptable_def)
  then show ?thesis using built_key_validates unfolding route_key_def by blast
qed

text \<open>
  C33. Accepted adapter configurations are safe to route. Whatever the raw value and whatever the XmlRpc
  library returns, if parsing accepts it then every rule has valid key fields, an absolute topic, a
  payload bound of at most 1 MiB (64 KiB without the explicit override) and no default-denied topic
  without that override; rule names are distinct; and with a valid session and task every enabled rule
  has a valid transport key, different from that of every other enabled rule.
\<close>
theorem accepted_routes_are_separate:
  assumes "parseAdapterConfigXmlRpc x v = Inr config"
    and "isValidTaskKeyField session" and "isValidTaskKeyField task"
  shows "(\<forall>r \<in> set (ac_rules config). rule_acceptable r) \<and> distinct (map ar_name (ac_rules config)) \<and>
    (\<forall>r \<in> set (ac_rules config). \<exists>k. route_key session task r = Inr k \<and> validateTaskSampleKey k = Inr ()) \<and>
    distinct (map (route_key session task) (filter ar_enabled (ac_rules config)))"
proof -
  let ?en = "filter ar_enabled (ac_rules config)"
  have V: "\<forall>r \<in> set (ac_rules config). rule_acceptable r" "distinct (map ar_name (ac_rules config))"
    "distinct (map ar_mapping ?en)"
    using parse_validates [OF assms(1)] by (simp_all add: validateAdapterConfig_Inr)
  have K: "\<exists>k. route_key session task r = Inr k \<and> validateTaskSampleKey k = Inr ()"
    if "r \<in> set (ac_rules config)" for r
    using route_key_valid [OF assms(2,3)] V(1) that by blast
  have "inj_on (route_key session task) (set ?en)"
  proof (rule inj_onI)
    fix r r' assume r: "r \<in> set ?en" "r' \<in> set ?en" "route_key session task r = route_key session task r'"
    then obtain k where "route_key session task r = Inr k" "route_key session task r' = Inr k"
      using K by (metis filter_is_subset subset_iff)
    from build_injective [OF this [unfolded route_key_def]] have "ar_mapping r = ar_mapping r'" by simp
    moreover have "inj_on ar_mapping (set ?en)" using V(3) distinct_map by blast
    ultimately show "r = r'" using r(1,2) by (metis (no_types, lifting) inj_on_def)
  qed
  then show ?thesis using V K by (simp add: distinct_map)
qed

section \<open>Witness\<close>

text \<open>A small implementation of the XmlRpc operations, and a configuration with two rules.\<close>

datatype demo_value = DStr string | DArr "demo_value list" | DStruct "(string \<times> demo_value) list"

definition demo_xmlrpc :: "demo_value XmlRpc" where
  "demo_xmlrpc =
     \<lparr>xr_getType = \<lambda>v. case v of DStr _ \<Rightarrow> TypeString | DArr _ \<Rightarrow> TypeArray | DStruct _ \<Rightarrow> TypeStruct,
      xr_hasMember = \<lambda>v k. case v of DStruct m \<Rightarrow> map_of m k \<noteq> None | _ \<Rightarrow> False,
      xr_member = \<lambda>v k. case v of DStruct m \<Rightarrow> (case map_of m k of Some w \<Rightarrow> w | None \<Rightarrow> DStr []) | _ \<Rightarrow> DStr [],
      xr_size = \<lambda>v. case v of DArr l \<Rightarrow> length l | DStruct m \<Rightarrow> length m | DStr s \<Rightarrow> length s,
      xr_element = \<lambda>v i. case v of DArr l \<Rightarrow> l ! i | _ \<Rightarrow> DStr [],
      xr_string = \<lambda>v. case v of DStr s \<Rightarrow> s | _ \<Rightarrow> [], xr_bool = \<lambda>_. True, xr_int = \<lambda>_. 1\<rparr>"

definition demo_rule :: "string \<Rightarrow> demo_value" where
  "demo_rule name =
     DStruct [(''name'', DStr name), (''topic'', DStr ''/pose''), (''channel'', DStr name),
       (''schema_id'', DStr ''v1''), (''payload_type'', DStr ''bytes'')]"

definition demo_adapters :: demo_value where
  "demo_adapters = DStruct [(''rules'', DArr [demo_rule ''pose'', demo_rule ''state''])]"

lemma demo_rule_parsed:
  "parseRule demo_xmlrpc (demo_rule n) =
     Inr (AdapterRule_default\<lparr>ar_name := n, ar_topic := ''/pose'', ar_channel := n, ar_schema_id := ''v1''\<rparr>)"
  by (simp add: parseRule_def bind_sum_def readStringField_def readBoolField_def readSizeField_def hasMember_def
      demo_xmlrpc_def demo_rule_def AdapterRule_default_def)

lemma demo_rule_acceptable:
  "isValidTaskKeyField n \<Longrightarrow>
   rule_acceptable (AdapterRule_default\<lparr>ar_name := n, ar_topic := ''/pose'', ar_channel := n, ar_schema_id := ''v1''\<rparr>)"
proof -
  have "isValidTaskKeyField ''v1''" "\<not> isDefaultDeniedTopic ''/pose''" by code_simp+
  then show "isValidTaskKeyField n \<Longrightarrow> ?thesis"
    by (simp add: rule_acceptable_def AdapterRule_default_def kDefaultAdapterMaxPayloadBytes_def)
qed

lemma demo_parse_ok:
  "\<exists>c. parseAdapterConfigXmlRpc demo_xmlrpc demo_adapters = Inr c \<and> length (filter ar_enabled (ac_rules c)) = 2"
proof -
  let ?r = "\<lambda>n. AdapterRule_default\<lparr>ar_name := n, ar_topic := ''/pose'', ar_channel := n, ar_schema_id := ''v1''\<rparr>"
  have t: "xr_getType demo_xmlrpc (demo_rule n) = TypeStruct" for n by (simp add: demo_xmlrpc_def demo_rule_def)
  have "parseRules demo_xmlrpc (DArr [demo_rule ''pose'', demo_rule ''state'']) 0 (Suc (Suc 0)) =
      Inr [?r ''pose'', ?r ''state'']"
  proof -
    have "xr_element demo_xmlrpc (DArr l) i = l ! i" for l i by (simp add: demo_xmlrpc_def)
    then show ?thesis by (simp add: demo_rule_parsed t bind_sum_def)
  qed
  moreover have "isValidTaskKeyField ''pose''" "isValidTaskKeyField ''state''" by code_simp+
  then have "validateAdapterConfig \<lparr>ac_deny_by_default = True, ac_rules = [?r ''pose'', ?r ''state'']\<rparr> =
      Inr \<lparr>ac_deny_by_default = True, ac_rules = [?r ''pose'', ?r ''state'']\<rparr>"
    using demo_rule_acceptable by (simp add: validateAdapterConfig_Inr AdapterRule_default_def)
  ultimately have "parseAdapterConfigXmlRpc demo_xmlrpc demo_adapters =
      Inr \<lparr>ac_deny_by_default = True, ac_rules = [?r ''pose'', ?r ''state'']\<rparr>"
    by (simp add: parseAdapterConfigXmlRpc_def hasMember_def readBoolField_def bind_sum_def demo_xmlrpc_def
        demo_adapters_def)
  then show ?thesis by (simp add: AdapterRule_default_def)
qed

theorem accepted_routes_are_separate_witness:
  "\<exists>c. parseAdapterConfigXmlRpc demo_xmlrpc demo_adapters = Inr c \<and> length (filter ar_enabled (ac_rules c)) = 2 \<and>
     distinct (map (route_key ''s'' ''t'') (filter ar_enabled (ac_rules c)))"
proof -
  have "isValidTaskKeyField ''s''" "isValidTaskKeyField ''t''" by code_simp+
  with demo_parse_ok accepted_routes_are_separate show ?thesis by metis
qed

end
