(* ===== verification/Runtime_Messages.thy ===== *)
theory Runtime_Messages
  imports Snapshot_Builder Session Cycle_Scheduler Link_Health Clock_Monitor Adapter_Config
begin

text \<open>
  The messages of the runtime node and the conversions into them, \<^verbatim>\<open>src/ros1/runtime_node.cpp\<close> and the
  message definitions under \<^verbatim>\<open>msg/\<close> and \<^verbatim>\<open>srv/\<close>. What ROS does with times is the parameter \<open>RosLib\<close>:
  \<^verbatim>\<open>ros::Time::fromNSec\<close>, the constructor \<^verbatim>\<open>ros::Duration(double)\<close> and \<^verbatim>\<open>ros::Duration::toSec\<close>. The
  fields of \<^verbatim>\<open>RuntimeHealth\<close> that the node never writes are left out.
\<close>

section \<open>Times\<close>

record RosLib =
  rl_fromNSec :: "u64 \<Rightarrow> RosTime"
  rl_duration :: "double \<Rightarrow> RosDuration"
  rl_toSec :: "RosDuration \<Rightarrow> double"

fun toNs :: "RosTime \<Rightarrow> i64" where
  "toNs (RosTime sec nsec) = ucast sec * 1000000000 + ucast nsec"

fun toNs_duration :: "RosDuration \<Rightarrow> i64" where
  "toNs_duration (RosDuration sec nsec) = scast sec * 1000000000 + scast nsec"

definition fromNs :: "RosLib \<Rightarrow> i64 \<Rightarrow> RosDuration" where
  "fromNs lib ns = rl_duration lib (ddiv (d_of_int (sint ns)) (Fin 1000000000))"

definition timeFromNs :: "RosLib \<Rightarrow> i64 \<Rightarrow> RosTime" where
  "timeFromNs lib ns = (if i64_le ns 0 then RosTime 0 0 else rl_fromNSec lib ns)"

fun stateName :: "SessionState \<Rightarrow> string" where
  "stateName IDLE = ''IDLE''"
| "stateName CONFIGURED = ''CONFIGURED''"
| "stateName ARMED = ''ARMED''"
| "stateName RUNNING = ''RUNNING''"
| "stateName STOPPED = ''STOPPED''"
| "stateName ERROR = ''ERROR''"

definition linkKey :: "string \<Rightarrow> string \<Rightarrow> string" where
  "linkKey peer channel = peer @ ''|'' @ channel"

fun jsonEscape :: "string \<Rightarrow> string" where
  "jsonEscape [] = []"
| "jsonEscape (c # cs) = (if c = CHR 0x22 \<or> c = CHR 0x5C then [CHR 0x5C, c] else [c]) @ jsonEscape cs"

text \<open>
  \<^verbatim>\<open>os << double\<close> with the default precision: six significant digits without trailing zeros, in fixed
  notation for exponents from -4 to 5 and in scientific notation otherwise.
\<close>

definition log10_floor :: "rat \<Rightarrow> int" where
  "log10_floor q =
     (let (n, d) = quotient_of q; e = int (floorlog 10 (nat n)) - int (floorlog 10 (nat d))
      in if 10 powi e \<le> q then e else e - 1)"

definition six_digits :: "rat \<Rightarrow> nat \<times> int" where
  "six_digits x =
     (let e = log10_floor x; m = nat (round_half_even (x * 10 powi (5 - e)))
      in if m = 1000000 then (100000, e + 1) else (m, e))"

definition strip_zeros :: "string \<Rightarrow> string" where
  "strip_zeros s = rev (dropWhile (\<lambda>c. c = CHR ''0'') (rev s))"

definition with_fraction :: "string \<Rightarrow> string \<Rightarrow> string" where
  "with_fraction whole fraction = (let f = strip_zeros fraction in if f = [] then whole else whole @ ''.'' @ f)"

definition positive_to_ostream :: "rat \<Rightarrow> string" where
  "positive_to_ostream x =
     (let (m, e) = six_digits x; ds = decimal m
      in if - 4 \<le> e \<and> e < 6 then
           if 0 \<le> e then with_fraction (take (nat e + 1) ds) (drop (nat e + 1) ds)
           else with_fraction ''0'' (replicate (nat (- e - 1)) CHR ''0'' @ ds)
         else with_fraction (take 1 ds) (drop 1 ds) @ ''e'' @ (if e < 0 then ''-'' else ''+'') @
           (if nat \<bar>e\<bar> < 10 then ''0'' else []) @ decimal (nat \<bar>e\<bar>))"

fun ostream_double :: "double \<Rightarrow> string" where
  "ostream_double NaN = ''nan''"
| "ostream_double (Infinity s) = (if s then ''-inf'' else ''inf'')"
| "ostream_double (Fin x) =
     (if x = 0 then ''0'' else if x < 0 then ''-'' @ positive_to_ostream (- x) else positive_to_ostream x)"

definition evidenceJson :: "(string \<times> double) list \<Rightarrow> string" where
  "evidenceJson evidence =
     ''{'' @ join '','' (map (\<lambda>(k, v). [CHR 0x22] @ jsonEscape k @ [CHR 0x22] @ '':'' @ ostream_double v) evidence) @ ''}''"

fun linkStateCode :: "LinkState \<Rightarrow> u8" where
  "linkStateCode Good = 0"
| "linkStateCode Degraded = 1"
| "linkStateCode Congested = 2"
| "linkStateCode Partitioned = 3"
| "linkStateCode Recovering = 4"

fun sampleStatusCode :: "SampleStatus \<Rightarrow> u8" where
  "sampleStatusCode Fresh = 0"
| "sampleStatusCode Missing = 1"
| "sampleStatusCode Late = 2"
| "sampleStatusCode WrongCycle = 3"
| "sampleStatusCode Duplicate = 4"
| "sampleStatusCode BadSchema = 5"
| "sampleStatusCode BadPayload = 6"
| "sampleStatusCode SenderClockBad = 7"
| "sampleStatusCode SenderReportedFail = 8"
| "sampleStatusCode TransportError = 9"

fun levelCode :: "RecommendationLevel \<Rightarrow> u8" where
  "levelCode InfoLevel = 0"
| "levelCode WarnLevel = 1"
| "levelCode CriticalLevel = 2"

section \<open>Messages\<close>

record SyncedCycle =
  cy_stamp :: RosTime
  cy_team_id :: string
  cy_session_id :: string
  cy_task_id :: string
  cy_self_id :: string
  cy_cycle_id :: u64
  cy_expected_time :: RosTime
  cy_actual_time :: RosTime
  cy_period :: RosDuration
  cy_jitter :: RosDuration
  cy_clock_ok :: bool
  cy_clock_quality :: u8
  cy_session_running :: bool
  cy_runtime_degraded :: bool

record PeerSampleStatus =
  pst_peer_id :: string
  pst_channel :: string
  pst_status :: u8
  pst_expected_target_cycle :: u64
  pst_received_target_cycle :: u64
  pst_seq :: u64
  pst_schema_id :: string
  pst_local_receive_time :: RosTime
  pst_receive_latency :: RosDuration
  pst_fresh_for_this_cycle :: bool
  pst_late_for_this_cycle :: bool
  pst_duplicate :: bool
  pst_wrong_cycle :: bool
  pst_bad_schema :: bool
  pst_bad_crc :: bool
  pst_sender_clock_bad :: bool
  pst_drop_reason :: string

record SnapshotMsg =
  sn_stamp :: RosTime
  sn_team_id :: string
  sn_session_id :: string
  sn_task_id :: string
  sn_self_id :: string
  sn_cycle_id :: u64
  sn_cycle_start_time :: RosTime
  sn_period :: RosDuration
  sn_samples :: "PeerSampleStatus list"
  sn_stats :: SnapshotStats
  sn_all_required_fresh :: bool
  sn_all_required_usable :: bool
  sn_local_clock_ok :: bool
  sn_runtime_degraded :: bool

record SampleStatsMsg =
  ss_stamp :: RosTime
  ss_team_id :: string
  ss_session_id :: string
  ss_task_id :: string
  ss_self_id :: string
  ss_cycle_id :: u64
  ss_received_count :: u32
  ss_stats :: SnapshotStats
  ss_duplicate_count :: u32
  ss_bad_schema_count :: u32
  ss_bad_payload_count :: u32
  ss_sender_clock_bad_count :: u32

record PeerLinkHealthMsg =
  lh_stamp :: RosTime
  lh_local_node_id :: string
  lh_health :: PeerChannelHealth
  lh_state :: u8

record WeakNetStateMsg =
  ws_stamp :: RosTime
  ws_node_id :: string
  ws_previous_state :: u8
  ws_current_state :: u8
  ws_reason :: string
  ws_evidence_json :: string
  ws_cycle_id :: u64

record RecommendationMsg =
  rm_stamp :: RosTime
  rm_node_id :: string
  rm_cycle_id :: u64
  rm_level :: u8
  rm_type :: string
  rm_channel :: string
  rm_peer_id :: string
  rm_confidence :: double
  rm_reason :: string
  rm_evidence_json :: string

record RuntimeHealthMsg =
  rh_stamp :: RosTime
  rh_team_id :: string
  rh_session_id :: string
  rh_self_id :: string
  rh_alive :: bool
  rh_session_running :: bool
  rh_zenoh_connected :: bool
  rh_clock_ok :: bool
  rh_clock_offset_ns :: i64
  rh_clock_uncertainty_ns :: u64
  rh_clock_quality :: u8
  rh_current_cycle :: u64
  rh_cycle_jitter_p95 :: RosDuration
  rh_cycle_jitter_p99 :: RosDuration
  rh_state :: string
  rh_reason :: string

record BudgetReportMsg =
  bm_stamp :: RosTime
  bm_session_id :: string
  bm_accepted :: bool
  bm_total_realtime_bps :: double
  bm_max_realtime_bps :: double
  bm_utilization_ratio :: double
  bm_report_json :: string

datatype NodeMsg =
    CycleMsg SyncedCycle
  | CycleSnapshotMsg SnapshotMsg
  | StatsMsg SampleStatsMsg
  | LinkHealthMsg PeerLinkHealthMsg
  | WeakNetMsg WeakNetStateMsg
  | RecommendMsg RecommendationMsg
  | HealthMsg RuntimeHealthMsg
  | BudgetMsg BudgetReportMsg

end
