(* ===== verification/Runtime_Node.thy ===== *)
theory Runtime_Node
  imports Runtime_Messages
begin

text \<open>
  The runtime node, \<^verbatim>\<open>src/ros1/runtime_node.cpp\<close>: it composes clock monitor, session manager, cycle
  scheduler, sample buffer, snapshot builder and the weak-network policies. The class is the record
  \<open>RuntimeNode\<close>, its services and its timer are functions on it, and what it publishes is appended to
  \<open>rn_log\<close>. From outside come the time, what the parameter server holds for \<^verbatim>\<open>clock_phase\<close> and the output
  of chronyc (\<open>ClockInput\<close>). A callback returns \<open>None\<close> only where a conversion in the code has no
  specified result.
\<close>

section \<open>Conversions\<close>

text \<open>\<^verbatim>\<open>static_cast<int64_t>(double)\<close> and \<^verbatim>\<open>static_cast<uint64_t>(double)\<close>: truncation, defined in range only.\<close>

definition truncate_rat :: "rat \<Rightarrow> int" where
  "truncate_rat x = (if 0 \<le> x then \<lfloor>x\<rfloor> else - \<lfloor>- x\<rfloor>)"

fun d_to_i64 :: "double \<Rightarrow> i64 option" where
  "d_to_i64 (Fin x) =
     (let n = truncate_rat x in if - (2 ^ 63) \<le> n \<and> n < 2 ^ 63 then Some (word_of_int n) else None)"
| "d_to_i64 _ = None"

fun d_to_u64 :: "double \<Rightarrow> u64 option" where
  "d_to_u64 (Fin x) =
     (let n = truncate_rat x in if 0 \<le> n \<and> n < 2 ^ 64 then Some (word_of_int n) else None)"
| "d_to_u64 _ = None"

text \<open>\<^verbatim>\<open>std::to_string(double)\<close>: six decimal places.\<close>

definition pad6 :: "nat \<Rightarrow> string" where
  "pad6 n = (let s = decimal n in replicate (6 - length s) CHR ''0'' @ s)"

fun to_string_double :: "double \<Rightarrow> string" where
  "to_string_double NaN = ''nan''"
| "to_string_double (Infinity s) = (if s then ''-inf'' else ''inf'')"
| "to_string_double (Fin x) =
     (let n = nat (round_half_even (\<bar>x\<bar> * 1000000))
      in (if x < 0 then ''-'' else []) @ decimal (n div 1000000) @ ''.'' @ pad6 (n mod 1000000))"

section \<open>State\<close>

record NodeParams =
  np_frequency_hz :: double
  np_auto_start :: bool
  np_start_delay_s :: double
  np_poll_rate_hz :: double
  np_expected_sample_channel :: string
  np_weaknet_enabled :: bool
  np_budget_max_realtime_bps :: double
  np_budget_safety_factor :: double
  np_payload_bytes_p95 :: int
  np_mock_clock_ok :: bool
  np_mock_clock_quality :: int
  np_mock_clock_offset_ns :: int
  np_mock_clock_uncertainty_ns :: int
  np_mock_clock_source :: string

record RuntimeNode =
  rn_params :: NodeParams
  rn_config :: SessionConfig
  rn_adapter_config :: AdapterConfig
  rn_adapter_summary :: string
  rn_session :: SessionManager
  rn_scheduler :: CycleScheduler
  rn_buffer :: SampleBuffer
  rn_profile :: ChannelProfile
  rn_budget :: BudgetReport
  rn_policy :: ClockPolicy
  rn_clock :: ClockMonitorResult
  rn_windows :: "(string, LinkHealthWindow) omap"
  rn_states :: "(string, LinkState) omap"
  rn_weaknet_state :: LinkState
  rn_weaknet_reason :: string
  rn_weaknet_summary :: string
  rn_expected :: "ExpectedSample list"
  rn_current_cycle :: u64
  rn_last_jitter_ns :: i64
  rn_phase_param :: string
  rn_phase :: ClockPhase
  rn_log :: "NodeMsg list"

definition node_publish :: "NodeMsg \<Rightarrow> RuntimeNode \<Rightarrow> RuntimeNode" where
  "node_publish m n = n\<lparr>rn_log := rn_log n @ [m]\<rparr>"

section \<open>Clock\<close>

record ClockInput =
  ci_phase :: "string option"
  ci_runner :: "string \<Rightarrow> int \<times> string"

definition sampleClock :: "ClockInput \<Rightarrow> RuntimeNode \<Rightarrow> (ClockMonitorResult \<times> RuntimeNode) option" where
  "sampleClock ci n =
     (let p = rn_params n;
          phase_param = param (ci_phase ci) (rn_phase_param n);
          n = n\<lparr>rn_phase_param := phase_param, rn_phase := phaseFromString phase_param\<rparr>
      in if cp_provider (rn_policy n) = ''mock'' then
           let ok = np_mock_clock_ok p
           in Some (\<lparr>cmr_state = \<lparr>clock_clock_ok = ok, clock_offset_ns = word_of_int (np_mock_clock_offset_ns p),
                       clock_uncertainty_ns = word_of_int (max 0 (np_mock_clock_uncertainty_ns p)),
                       clock_quality = word_of_int (np_mock_clock_quality p), clock_source = np_mock_clock_source p\<rparr>,
                     cmr_start_allowed = ok \<or> \<not> cp_require_clock_ok_to_start (rn_policy n),
                     cmr_source_is_ground = True, cmr_phase = rn_phase n,
                     cmr_reason = (if ok then ''mock clock synchronized to ground station''
                                   else ''mock clock is not synchronized'')\<rparr>, n)
         else map_option (\<lambda>r. (r, n)) (clock_sample (ci_runner ci) (rn_policy n) (rn_phase n)))"

text \<open>\<^verbatim>\<open>last_clock_result_ = sampleClock()\<close>\<close>

definition refreshClock :: "ClockInput \<Rightarrow> RuntimeNode \<Rightarrow> RuntimeNode option" where
  "refreshClock ci n = map_option (\<lambda>(r, n). n\<lparr>rn_clock := r\<rparr>) (sampleClock ci n)"

definition runtimeReason :: "RuntimeNode \<Rightarrow> string" where
  "runtimeReason n =
     (let clock_summary = ''clock_source='' @ clock_source (cmr_state (rn_clock n)) @ '' clock_phase='' @
            phaseToString (rn_phase n) @ '' clock_reason='' @ cmr_reason (rn_clock n);
          rest = rn_adapter_summary n @ ''; '' @ rn_weaknet_summary n @ ''; weaknet_state='' @
            LinkState_toString (rn_weaknet_state n) @ '' reason='' @ rn_weaknet_reason n @ ''; '' @ clock_summary
      in if sm_reason (rn_session n) = [] then rest else sm_reason (rn_session n) @ ''; '' @ rest)"

section \<open>Starting and stopping\<close>

definition configureExpectedSamples :: "RuntimeNode \<Rightarrow> RuntimeNode" where
  "configureExpectedSamples n =
     (let cutoff = (if i64_less 0 (sc_period_ns (rn_config n)) then sc_period_ns (rn_config n) else 50000000);
          channel = np_expected_sample_channel (rn_params n);
          timing = ChannelTiming_default\<lparr>tim_payload_type := ''bytes'', tim_schema_id := channel @ ''.v1'',
            tim_receive_cutoff_ns := cutoff, tim_ttl_ns := cutoff\<rparr>
      in n\<lparr>rn_expected := map (\<lambda>participant. \<lparr>exp_peer_id = participant, exp_channel = channel,
             exp_required = True, exp_timing = timing\<rparr>) (sc_required_participants (rn_config n))\<rparr>)"

definition scheduler_config_of :: "SessionConfig \<Rightarrow> CycleSchedulerConfig" where
  "scheduler_config_of c =
     \<lparr>cs_session_id = sc_session_id c, cs_task_id = sc_task_id c, cs_epoch_ns = sc_epoch_ns c,
      cs_period_ns = sc_period_ns c, cs_start_cycle = sc_start_cycle c, cs_max_cycle = sc_max_cycle c\<rparr>"

definition startSession :: "i64 \<Rightarrow> i64 \<Rightarrow> ClockState \<Rightarrow> RuntimeNode \<Rightarrow> bool \<times> RuntimeNode" where
  "startSession epoch_ns period_ns clock n =
     (if \<not> isValidPeriodNs period_ns then
        (False, n\<lparr>rn_session := markError ''period_ns outside supported 0.5-50 Hz range'' (rn_session n)\<rparr>)
      else if \<not> clock_clock_ok clock \<or> clock_quality clock = ClockQuality_BAD then
        (False, n\<lparr>rn_session := markError (''clock gate rejected: '' @ cmr_reason (rn_clock n)) (rn_session n)\<rparr>)
      else
        let n = n\<lparr>rn_config := (rn_config n)\<lparr>sc_epoch_ns := epoch_ns, sc_period_ns := period_ns\<rparr>\<rparr>;
            (configured, session) = session_configure (rn_config n) (rn_session n);
            n = n\<lparr>rn_session := session\<rparr>
        in if \<not> configured then (False, n)
           else
             let n = configureExpectedSamples n;
                 (armed, session) = session_arm epoch_ns clock (rn_session n);
                 n = n\<lparr>rn_session := session\<rparr>
             in if \<not> armed then (False, n)
                else
                  let (ok, scheduler) = scheduler_configure
                        ((scheduler_config_of (rn_config n))\<lparr>cs_epoch_ns := epoch_ns, cs_period_ns := period_ns\<rparr>)
                        (rn_scheduler n);
                      n = n\<lparr>rn_scheduler := scheduler\<rparr>
                  in if \<not> ok then
                       (False, n\<lparr>rn_session := markError ''failed to configure cycle scheduler'' (rn_session n)\<rparr>)
                     else (True, n\<lparr>rn_scheduler := scheduler_start (rn_scheduler n)\<rparr>))"

record StartRequest =
  sr_session_id :: string
  sr_task_id :: string
  sr_epoch_time :: RosTime
  sr_period :: RosDuration

definition startCallback :: "RosLib \<Rightarrow> ClockInput \<Rightarrow> StartRequest \<Rightarrow> RuntimeNode
    \<Rightarrow> ((bool \<times> string) \<times> RuntimeNode) option" where
  "startCallback lib ci request n =
     (let next_config = rn_config n;
          next_config = (if sr_session_id request \<noteq> [] then next_config\<lparr>sc_session_id := sr_session_id request\<rparr>
                         else next_config);
          next_config = (if sr_task_id request \<noteq> [] then next_config\<lparr>sc_task_id := sr_task_id request\<rparr>
                         else next_config);
          requested_period_ns = (if dlt (Fin 0) (rl_toSec lib (sr_period request))
                                 then toNs_duration (sr_period request) else sc_period_ns next_config)
      in if \<not> isValidPeriodNs requested_period_ns
         then Some ((False, ''period_ns outside supported 0.5-50 Hz range''), n)
         else
           let next_config = next_config\<lparr>sc_period_ns := requested_period_ns, sc_epoch_ns := toNs (sr_epoch_time request)\<rparr>;
               n = n\<lparr>rn_config := next_config\<rparr>
           in map_option (\<lambda>n.
                let (accepted, n) =
                  startSession (sc_epoch_ns (rn_config n)) (sc_period_ns (rn_config n)) (cmr_state (rn_clock n)) n
                in ((accepted, if accepted then ''accepted'' else sm_reason (rn_session n)), n))
              (refreshClock ci n))"

section \<open>Publishing\<close>

definition publishHealth :: "RosLib \<Rightarrow> RosTime \<Rightarrow> ClockInput option \<Rightarrow> RuntimeNode \<Rightarrow> RuntimeNode option" where
  "publishHealth lib now refresh n =
     (let running = session_running (rn_session n);
          refreshed = (case refresh of Some ci \<Rightarrow> refreshClock ci n | None \<Rightarrow> Some n)
      in map_option (\<lambda>n.
           node_publish (HealthMsg \<lparr>rh_stamp = now, rh_team_id = sc_team_id (rn_config n),
             rh_session_id = sc_session_id (rn_config n), rh_self_id = sc_self_id (rn_config n), rh_alive = True,
             rh_session_running = running, rh_zenoh_connected = False,
             rh_clock_ok = clock_clock_ok (cmr_state (rn_clock n)),
             rh_clock_offset_ns = clock_offset_ns (cmr_state (rn_clock n)),
             rh_clock_uncertainty_ns = clock_uncertainty_ns (cmr_state (rn_clock n)),
             rh_clock_quality = clock_quality (cmr_state (rn_clock n)),
             rh_current_cycle = rn_current_cycle n,
             rh_cycle_jitter_p95 = fromNs lib (rn_last_jitter_ns n),
             rh_cycle_jitter_p99 = fromNs lib (rn_last_jitter_ns n),
             rh_state = stateName (sm_state (rn_session n)), rh_reason = runtimeReason n\<rparr>) n) refreshed)"

definition publishBudget :: "RosTime \<Rightarrow> RuntimeNode \<Rightarrow> RuntimeNode" where
  "publishBudget now n =
     (let b = rn_budget n; q = [CHR 0x22]
      in node_publish (BudgetMsg \<lparr>bm_stamp = now, bm_session_id = sc_session_id (rn_config n),
           bm_accepted = rep_accepted b, bm_total_realtime_bps = rep_total_realtime_bps b,
           bm_max_realtime_bps = rep_max_realtime_bps b, bm_utilization_ratio = rep_utilization_ratio b,
           bm_report_json = ''{'' @ q @ ''reason'' @ q @ '':'' @ q @ jsonEscape (rep_reason b) @ q @ ''}''\<rparr>) n)"

definition publishCycle :: "RosLib \<Rightarrow> CycleEvent \<Rightarrow> RosTime \<Rightarrow> RuntimeNode \<Rightarrow> RuntimeNode" where
  "publishCycle lib event stamp n =
     node_publish (CycleMsg \<lparr>cy_stamp = stamp, cy_team_id = sc_team_id (rn_config n),
       cy_session_id = sc_session_id (rn_config n), cy_task_id = sc_task_id (rn_config n),
       cy_self_id = sc_self_id (rn_config n), cy_cycle_id = ev_cycle_id event,
       cy_expected_time = rl_fromNSec lib (ev_expected_time_ns event),
       cy_actual_time = rl_fromNSec lib (ev_actual_time_ns event),
       cy_period = fromNs lib (ev_period_ns event), cy_jitter = fromNs lib (ev_jitter_ns event),
       cy_clock_ok = ev_clock_ok event, cy_clock_quality = clock_quality (cmr_state (rn_clock n)),
       cy_session_running = session_running (rn_session n),
       cy_runtime_degraded = (\<not> clock_clock_ok (cmr_state (rn_clock n)))\<rparr>) n"

definition toPeerSampleStatusMsg :: "RosLib \<Rightarrow> PeerSampleView \<Rightarrow> PeerSampleStatus" where
  "toPeerSampleStatusMsg lib s =
     \<lparr>pst_peer_id = view_peer_id s, pst_channel = view_channel s, pst_status = sampleStatusCode (view_status s),
      pst_expected_target_cycle = view_expected_target_cycle s,
      pst_received_target_cycle = view_received_target_cycle s,
      pst_seq = (case view_sample s of Some e \<Rightarrow> env_seq e | None \<Rightarrow> 0),
      pst_schema_id = (case view_sample s of Some e \<Rightarrow> env_schema_id e | None \<Rightarrow> []),
      pst_local_receive_time = timeFromNs lib (view_t_local_receive_ns s),
      pst_receive_latency = fromNs lib (view_receive_latency_ns s),
      pst_fresh_for_this_cycle = view_fresh_for_this_cycle s, pst_late_for_this_cycle = view_late_for_this_cycle s,
      pst_duplicate = view_duplicate s, pst_wrong_cycle = view_wrong_cycle s, pst_bad_schema = view_bad_schema s,
      pst_bad_crc = view_bad_crc s, pst_sender_clock_bad = view_sender_clock_bad s,
      pst_drop_reason = view_drop_reason s\<rparr>"

definition toSnapshotMsg :: "RosLib \<Rightarrow> RosTime \<Rightarrow> RuntimeNode \<Rightarrow> CycleSnapshot \<Rightarrow> SnapshotMsg" where
  "toSnapshotMsg lib stamp n s =
     \<lparr>sn_stamp = stamp, sn_team_id = sc_team_id (rn_config n), sn_session_id = snap_session_id s,
      sn_task_id = snap_task_id s, sn_self_id = snap_self_id s, sn_cycle_id = snap_cycle_id s,
      sn_cycle_start_time = timeFromNs lib (snap_t_cycle_start_ns s), sn_period = fromNs lib (snap_period_ns s),
      sn_samples = map (toPeerSampleStatusMsg lib) (snap_samples s), sn_stats = snap_stats s,
      sn_all_required_fresh = snap_all_required_fresh s, sn_all_required_usable = snap_all_required_usable s,
      sn_local_clock_ok = clock_clock_ok (snap_local_clock s),
      sn_runtime_degraded = (\<not> rt_running (snap_local_runtime s) \<or> \<not> clock_clock_ok (snap_local_clock s))\<rparr>"

definition count_views :: "(PeerSampleView \<Rightarrow> bool) \<Rightarrow> CycleSnapshot \<Rightarrow> u32" where
  "count_views P s = of_nat (length (filter P (snap_samples s)))"

definition toSampleStatsMsg :: "RosTime \<Rightarrow> RuntimeNode \<Rightarrow> CycleSnapshot \<Rightarrow> SampleStatsMsg" where
  "toSampleStatsMsg stamp n s =
     \<lparr>ss_stamp = stamp, ss_team_id = sc_team_id (rn_config n), ss_session_id = snap_session_id s,
      ss_task_id = snap_task_id s, ss_self_id = snap_self_id s, ss_cycle_id = snap_cycle_id s,
      ss_received_count = stat_fresh_count (snap_stats s) + stat_late_count (snap_stats s), ss_stats = snap_stats s,
      ss_duplicate_count = count_views view_duplicate s, ss_bad_schema_count = count_views view_bad_schema s,
      ss_bad_payload_count = count_views view_bad_crc s,
      ss_sender_clock_bad_count = count_views view_sender_clock_bad s\<rparr>"

definition toPeerLinkHealthMsg :: "RosTime \<Rightarrow> RuntimeNode \<Rightarrow> PeerChannelHealth \<Rightarrow> PeerLinkHealthMsg" where
  "toPeerLinkHealthMsg stamp n h =
     \<lparr>lh_stamp = stamp, lh_local_node_id = sc_self_id (rn_config n), lh_health = h,
      lh_state = linkStateCode (hl_state h)\<rparr>"

definition toWeakNetStateMsg :: "RosTime \<Rightarrow> RuntimeNode \<Rightarrow> StateTransition \<Rightarrow> u64 \<Rightarrow> WeakNetStateMsg" where
  "toWeakNetStateMsg stamp n t cycle_id =
     \<lparr>ws_stamp = stamp, ws_node_id = sc_self_id (rn_config n), ws_previous_state = linkStateCode (tr_previous t),
      ws_current_state = linkStateCode (tr_current t), ws_reason = tr_reason t,
      ws_evidence_json = evidenceJson (tr_evidence t), ws_cycle_id = cycle_id\<rparr>"

definition toRecommendationMsg :: "RosTime \<Rightarrow> RuntimeNode \<Rightarrow> RuntimeRecommendation \<Rightarrow> RecommendationMsg" where
  "toRecommendationMsg stamp n r =
     \<lparr>rm_stamp = stamp, rm_node_id = sc_self_id (rn_config n), rm_cycle_id = rec_cycle_id r,
      rm_level = levelCode (rec_level r), rm_type = RecommendationType_toString (rec_type r),
      rm_channel = rec_channel r, rm_peer_id = rec_peer r, rm_confidence = rec_confidence r,
      rm_reason = rec_reason r, rm_evidence_json = evidenceJson (rec_evidence r)\<rparr>"

text \<open>One iteration of the loop of \<^verbatim>\<open>publishWeaknet\<close>; the worst state and its reason are threaded through.\<close>

definition weaknet_view :: "u64 \<Rightarrow> RosTime \<Rightarrow> RuntimeNode \<times> LinkState \<times> string \<Rightarrow> PeerSampleView
    \<Rightarrow> RuntimeNode \<times> LinkState \<times> string" where
  "weaknet_view cycle_id stamp acc s =
     (let (n, worst_state, worst_reason) = acc;
          key = linkKey (view_peer_id s) (view_channel s);
          (window, windows) = omap_ref (LinkHealthWindow_new 100) key (rn_windows n);
          window = observe \<lparr>ls_status = view_status s, ls_latency_ns = view_receive_latency_ns s, ls_seq_gap = 0,
            ls_late_pocket = view_late_for_this_cycle s, ls_oversized_drop = False\<rparr> window;
          health = summarize window (view_peer_id s) (view_channel s);
          (current, states) = omap_ref Good key (rn_states n);
          (transition, state) = machine_update health current;
          n = n\<lparr>rn_windows := omap_assign key window windows, rn_states := omap_assign key state states\<rparr>;
          health = health\<lparr>hl_state := state\<rparr>;
          (worst_state, worst_reason) =
            (if linkStateCode worst_state < linkStateCode state then (state, hl_primary_reason health)
             else (worst_state, worst_reason));
          n = node_publish (LinkHealthMsg (toPeerLinkHealthMsg stamp n health)) n;
          n = (if tr_changed transition then node_publish (WeakNetMsg (toWeakNetStateMsg stamp n transition cycle_id)) n
               else n);
          n = foldl (\<lambda>n r. node_publish (RecommendMsg (toRecommendationMsg stamp n r)) n) n
                (evaluate cycle_id health (Some (rn_budget n)))
      in (n, worst_state, worst_reason))"

definition publishWeaknet :: "CycleSnapshot \<Rightarrow> RosTime \<Rightarrow> RuntimeNode \<Rightarrow> RuntimeNode" where
  "publishWeaknet snapshot stamp n =
     (if \<not> np_weaknet_enabled (rn_params n) then n
      else
        let (n, worst_state, worst_reason) =
              foldl (weaknet_view (snap_cycle_id snapshot) stamp) (n, Good, ''healthy'') (snap_samples snapshot)
        in n\<lparr>rn_weaknet_state := worst_state, rn_weaknet_reason := worst_reason\<rparr>)"

definition snapshot_request :: "CycleEvent \<Rightarrow> RosTime \<Rightarrow> ClockState \<Rightarrow> RuntimeNode \<Rightarrow> SnapshotBuildRequest" where
  "snapshot_request event stamp clock n =
     \<lparr>req_session_id = sc_session_id (rn_config n), req_task_id = sc_task_id (rn_config n),
      req_self_id = sc_self_id (rn_config n), req_cycle_id = ev_cycle_id event,
      req_cycle_start_ns = ev_expected_time_ns event, req_period_ns = ev_period_ns event,
      req_build_time_ns = toNs stamp, req_local_clock = clock,
      req_local_runtime = \<lparr>rt_running = session_running (rn_session n), rt_zenoh_connected = False,
        rt_current_cycle = ev_cycle_id event, rt_jitter_ns = ev_jitter_ns event,
        rt_state = stateName (sm_state (rn_session n)), rt_reason = sm_reason (rn_session n)\<rparr>,
      req_expected_samples = rn_expected n\<rparr>"

definition publishSnapshot :: "RosLib \<Rightarrow> CycleEvent \<Rightarrow> RosTime \<Rightarrow> ClockState \<Rightarrow> RuntimeNode \<Rightarrow> RuntimeNode" where
  "publishSnapshot lib event stamp clock n =
     (let snapshot = build (snapshot_request event stamp clock n) (rn_buffer n);
          n = node_publish (CycleSnapshotMsg (toSnapshotMsg lib stamp n snapshot)) n;
          n = node_publish (StatsMsg (toSampleStatsMsg stamp n snapshot)) n
      in publishWeaknet snapshot stamp n)"

section \<open>Callbacks\<close>

definition stopCallback :: "RosLib \<Rightarrow> RosTime \<Rightarrow> ClockInput \<Rightarrow> string \<Rightarrow> RuntimeNode
    \<Rightarrow> ((bool \<times> string) \<times> RuntimeNode) option" where
  "stopCallback lib now ci reason n =
     (let n = n\<lparr>rn_scheduler := scheduler_stop (rn_scheduler n)\<rparr>;
          n = n\<lparr>rn_session := session_stop (if reason = [] then ''stopped by service'' else reason) (rn_session n)\<rparr>
      in map_option (\<lambda>n. ((True, ''stopped''), n)) (publishHealth lib now (Some ci) n))"

record StatusResponse =
  st_running :: bool
  st_state :: string
  st_current_cycle :: u64
  st_clock_ok :: bool
  st_clock_offset_ns :: i64
  st_clock_uncertainty_ns :: u64
  st_clock_quality :: u8
  st_clock_source :: string
  st_clock_phase :: string
  st_zenoh_connected :: bool
  st_reason :: string

definition statusCallback :: "ClockInput \<Rightarrow> RuntimeNode \<Rightarrow> (StatusResponse \<times> RuntimeNode) option" where
  "statusCallback ci n =
     map_option (\<lambda>n.
       (\<lparr>st_running = session_running (rn_session n), st_state = stateName (sm_state (rn_session n)),
         st_current_cycle = rn_current_cycle n, st_clock_ok = clock_clock_ok (cmr_state (rn_clock n)),
         st_clock_offset_ns = clock_offset_ns (cmr_state (rn_clock n)),
         st_clock_uncertainty_ns = clock_uncertainty_ns (cmr_state (rn_clock n)),
         st_clock_quality = clock_quality (cmr_state (rn_clock n)),
         st_clock_source = clock_source (cmr_state (rn_clock n)), st_clock_phase = phaseToString (rn_phase n),
         st_zenoh_connected = False, st_reason = runtimeReason n\<rparr>, n))
       (refreshClock ci n)"

text \<open>\<open>later\<close> is the time \<^verbatim>\<open>publishHealth\<close> reads.\<close>

definition timerCallback :: "RosLib \<Rightarrow> RosTime \<Rightarrow> RosTime \<Rightarrow> ClockInput \<Rightarrow> RuntimeNode \<Rightarrow> RuntimeNode option" where
  "timerCallback lib now later ci n =
     Option.bind (refreshClock ci n) (\<lambda>n.
       let clock = cmr_state (rn_clock n);
           n = n\<lparr>rn_session := snd (startIfDue (toNs now) clock (rn_session n))\<rparr>;
           (event, _, scheduler) = tick (toNs now) (clock_clock_ok clock) (rn_scheduler n);
           n = n\<lparr>rn_scheduler := scheduler\<rparr>
       in case event of
            None \<Rightarrow> Some n
          | Some e \<Rightarrow>
              let n = n\<lparr>rn_current_cycle := ev_cycle_id e, rn_last_jitter_ns := ev_jitter_ns e\<rparr>;
                  n = publishCycle lib e now n;
                  n = publishSnapshot lib e now clock n
              in publishHealth lib later None n)"

section \<open>Initialisation\<close>

text \<open>The private parameters; \<open>None\<close> is one that is not set.\<close>

record NodeParamServer =
  ps_team_id :: "string option"
  ps_session_id :: "string option"
  ps_task_id :: "string option"
  ps_self_id :: "string option"
  ps_frequency_hz :: "double option"
  ps_auto_start :: "bool option"
  ps_start_delay_s :: "double option"
  ps_poll_rate_hz :: "double option"
  ps_expected_sample_channel :: "string option"
  ps_weaknet_enabled :: "bool option"
  ps_budget_max_realtime_bps :: "double option"
  ps_budget_safety_factor :: "double option"
  ps_payload_bytes_p95 :: "int option"
  ps_required_participants :: "string list option"
  ps_ros1_adapters_config :: "string option"
  ps_clock_provider :: "string option"
  ps_clock_authority :: "string option"
  ps_ground_time_source :: "string option"
  ps_require_clock_ok_to_start :: "bool option"
  ps_in_flight_allow_step :: "bool option"
  ps_external_sources_allowed_in_flight :: "bool option"
  ps_clock_phase_source :: "string option"
  ps_clock_phase :: "string option"
  ps_max_clock_offset_ms :: "double option"
  ps_preflight_max_offset_ms :: "double option"
  ps_preflight_max_uncertainty_ms :: "double option"
  ps_mock_clock_ok :: "bool option"
  ps_mock_clock_quality :: "int option"
  ps_mock_clock_offset_ns :: "int option"
  ps_mock_clock_uncertainty_ns :: "int option"
  ps_mock_clock_source :: "string option"

definition loadClockPolicy :: "NodeParamServer \<Rightarrow> ClockPolicy option" where
  "loadClockPolicy ps =
     (let max_offset_ms = param (ps_max_clock_offset_ms ps) (Fin 2);
          max_offset_ms = param (ps_preflight_max_offset_ms ps) max_offset_ms;
          max_uncertainty_ms = param (ps_preflight_max_uncertainty_ms ps) (Fin 2)
      in Option.bind (d_to_i64 (dmul (dmax (Fin 0) max_offset_ms) (Fin 1000000))) (\<lambda>offset_ns.
         Option.bind (d_to_u64 (dmul (dmax (Fin 0) max_uncertainty_ms) (Fin 1000000))) (\<lambda>uncertainty_ns.
           Some \<lparr>cp_provider = param (ps_clock_provider ps) ''chrony'',
             cp_authority = param (ps_clock_authority ps) ''ground_station'',
             cp_ground_time_source = param (ps_ground_time_source ps) [],
             cp_require_clock_ok_to_start = param (ps_require_clock_ok_to_start ps) True,
             cp_preflight_max_offset_ns = offset_ns, cp_preflight_max_uncertainty_ns = uncertainty_ns,
             cp_in_flight_allow_step = param (ps_in_flight_allow_step ps) False,
             cp_external_sources_allowed_in_flight = param (ps_external_sources_allowed_in_flight ps) False,
             cp_phase_source = param (ps_clock_phase_source ps) ''external''\<rparr>)))"

definition loadParams :: "NodeParamServer \<Rightarrow> NodeParams" where
  "loadParams ps =
     \<lparr>np_frequency_hz = param (ps_frequency_hz ps) (Fin 20), np_auto_start = param (ps_auto_start ps) True,
      np_start_delay_s = param (ps_start_delay_s ps) (dec 1 10), np_poll_rate_hz = param (ps_poll_rate_hz ps) (Fin 200),
      np_expected_sample_channel = param (ps_expected_sample_channel ps) ''runtime_state'',
      np_weaknet_enabled = param (ps_weaknet_enabled ps) True,
      np_budget_max_realtime_bps = param (ps_budget_max_realtime_bps ps) (Fin 2000000),
      np_budget_safety_factor = param (ps_budget_safety_factor ps) (dec 135 100),
      np_payload_bytes_p95 = param (ps_payload_bytes_p95 ps) 600,
      np_mock_clock_ok = param (ps_mock_clock_ok ps) True, np_mock_clock_quality = param (ps_mock_clock_quality ps) 0,
      np_mock_clock_offset_ns = param (ps_mock_clock_offset_ns ps) 0,
      np_mock_clock_uncertainty_ns = param (ps_mock_clock_uncertainty_ns ps) 0,
      np_mock_clock_source = param (ps_mock_clock_source ps) ''mock_ground_station''\<rparr>"

text \<open>\<^verbatim>\<open>loadAdapterConfig\<close>: the adapter configuration and its summary, or \<open>None\<close> for the failure.\<close>

definition loadAdapterConfig :: "'v XmlRpc \<Rightarrow> 'v option \<Rightarrow> string \<Rightarrow> (AdapterConfig \<times> string) option" where
  "loadAdapterConfig x raw config_path =
     (case raw of
        Some v \<Rightarrow>
          (case parseAdapterConfigXmlRpc x v of
             Inl _ \<Rightarrow> None
           | Inr config \<Rightarrow> Some (config, summarizeAdapterConfig config))
      | None \<Rightarrow>
          if config_path \<noteq> [] then None
          else Some (defaultAdapterConfig, summarizeAdapterConfig defaultAdapterConfig @ '' source=built_in_default''))"

definition computeBudgetReport :: "NodeParams \<Rightarrow> SessionConfig \<Rightarrow> BudgetReport" where
  "computeBudgetReport p c =
     (let participants = of_nat (max 1 (length (sc_required_participants c))) :: u32
      in computeTrafficBudget
           [\<lparr>bud_channel = np_expected_sample_channel p, bud_publishers = participants,
             bud_effective_fanout = (if participants > 0 then participants - 1 else 0),
             bud_frequency_hz = np_frequency_hz p,
             bud_payload_bytes_p95 = word_of_int (max 0 (np_payload_bytes_p95 p)),
             bud_envelope_overhead_bytes = 128, bud_transport_overhead_bytes = 64\<rparr>]
           (np_budget_max_realtime_bps p) (np_budget_safety_factor p))"

definition configureWeaknet :: "RuntimeNode \<Rightarrow> bool \<times> RuntimeNode" where
  "configureWeaknet n =
     (let profile = defaultProfileFor RealtimeSample;
          n = n\<lparr>rn_profile := profile\<rparr>
      in case validateChannelProfile profile of
           Inl _ \<Rightarrow> (False, n)
         | Inr _ \<Rightarrow>
             let budget = computeBudgetReport (rn_params n) (rn_config n)
             in (True, n\<lparr>rn_budget := budget,
                  rn_weaknet_summary := ''profile='' @ prof_name profile @ '' qos='' @
                    Reliability_toString (qos_reliability (prof_qos profile)) @ ''/'' @
                    CongestionControl_toString (qos_congestion (prof_qos profile)) @ '' budget_ratio='' @
                    to_string_double (rep_utilization_ratio budget)\<rparr>))"

definition node_new :: "NodeParams \<Rightarrow> ClockPolicy \<Rightarrow> string \<Rightarrow> RuntimeNode" where
  "node_new p policy phase_param =
     \<lparr>rn_params = p, rn_config = SessionConfig_default, rn_adapter_config = defaultAdapterConfig,
      rn_adapter_summary = [], rn_session = SessionManager_new, rn_scheduler = CycleScheduler_new,
      rn_buffer = SampleBuffer_new 8, rn_profile = ChannelProfile_default,
      rn_budget = \<lparr>rep_accepted = True, rep_total_realtime_bps = Fin 0, rep_max_realtime_bps = Fin 0,
        rep_utilization_ratio = Fin 0, rep_reason = []\<rparr>,
      rn_policy = policy, rn_clock = ClockMonitorResult_default, rn_windows = [], rn_states = [],
      rn_weaknet_state = Good, rn_weaknet_reason = ''healthy'', rn_weaknet_summary = ''weaknet=unconfigured'',
      rn_expected = [], rn_current_cycle = 0, rn_last_jitter_ns = 0, rn_phase_param = phase_param,
      rn_phase = phaseFromString phase_param, rn_log = []\<rparr>"

text \<open>What \<^verbatim>\<open>init\<close> reads from outside: times, clocks and the adapter parameter.\<close>

record 'v InitInput =
  ii_now :: RosTime
  ii_budget_now :: RosTime
  ii_health_now :: RosTime
  ii_clock :: ClockInput
  ii_health_clock :: ClockInput
  ii_xmlrpc :: "'v XmlRpc"
  ii_ros1_adapters :: "'v option"

definition config_of_params :: "NodeParamServer \<Rightarrow> i64 \<Rightarrow> i64 \<Rightarrow> SessionConfig" where
  "config_of_params ps epoch_ns period_ns =
     (let self_id = param (ps_self_id ps) ''uav01''
      in SessionConfig_default\<lparr>sc_team_id := param (ps_team_id ps) ''alpha'',
           sc_session_id := param (ps_session_id ps) ''demo_session_001'',
           sc_task_id := param (ps_task_id ps) ''distributed_task'', sc_self_id := self_id,
           sc_required_participants := (case ps_required_participants ps of
             Some ps \<Rightarrow> if ps \<noteq> [] then ps else [self_id] | None \<Rightarrow> [self_id]),
           sc_epoch_ns := epoch_ns, sc_period_ns := period_ns\<rparr>)"

text \<open>The tail of \<^verbatim>\<open>init\<close>: automatic start, budget report and first health message.\<close>

definition init_start :: "RosLib \<Rightarrow> 'v InitInput \<Rightarrow> RuntimeNode \<Rightarrow> RuntimeNode option" where
  "init_start lib inp n =
     Option.bind
       (if np_auto_start (rn_params n)
        then map_option (\<lambda>n. snd (startSession (sc_epoch_ns (rn_config n)) (sc_period_ns (rn_config n))
               (cmr_state (rn_clock n)) n)) (refreshClock (ii_clock inp) n)
        else Some n)
       (\<lambda>n. publishHealth lib (ii_health_now inp) (Some (ii_health_clock inp)) (publishBudget (ii_budget_now inp) n))"

text \<open>\<open>Some None\<close> is a failed initialisation, after which the process exits.\<close>

definition node_init :: "RosLib \<Rightarrow> NodeParamServer \<Rightarrow> 'v InitInput \<Rightarrow> RuntimeNode option option" where
  "node_init lib ps inp =
     (let p = loadParams ps
      in Option.bind (loadClockPolicy ps) (\<lambda>policy.
         case loadAdapterConfig (ii_xmlrpc inp) (ii_ros1_adapters inp) (param (ps_ros1_adapters_config ps) []) of
           None \<Rightarrow> Some None
         | Some (adapters, summary) \<Rightarrow>
             (case periodNsFromFrequencyHz (np_frequency_hz p) of
                None \<Rightarrow> Some None
              | Some period_ns \<Rightarrow>
                  Option.bind (d_to_i64 (dmul (np_start_delay_s p) (Fin 1000000000))) (\<lambda>delay_ns.
                    let n = (node_new p policy (param (ps_clock_phase ps) ''preflight''))
                          \<lparr>rn_adapter_config := adapters, rn_adapter_summary := summary,
                           rn_config := config_of_params ps (toNs (ii_now inp) + delay_ns) period_ns\<rparr>;
                        (weaknet_ok, n) = configureWeaknet n
                    in if \<not> weaknet_ok then Some None
                       else
                         let n = configureExpectedSamples n;
                             (configured, session) = session_configure (rn_config n) (rn_session n);
                             n = n\<lparr>rn_session := session\<rparr>
                         in if \<not> configured then Some None else map_option Some (init_start lib inp n)))))"

section \<open>The node as a transition system\<close>

text \<open>ROS serves one callback at a time, in any order.\<close>

inductive node_step :: "RosLib \<Rightarrow> RuntimeNode \<Rightarrow> RuntimeNode \<Rightarrow> bool" for lib where
  step_start_service: "startCallback lib ci request n = Some (response, n') \<Longrightarrow> node_step lib n n'"
| step_stop_service: "stopCallback lib now ci reason n = Some (response, n') \<Longrightarrow> node_step lib n n'"
| step_status_service: "statusCallback ci n = Some (status, n') \<Longrightarrow> node_step lib n n'"
| step_timer: "timerCallback lib now later ci n = Some n' \<Longrightarrow> node_step lib n n'"

inductive_cases node_stepE: "node_step lib n n'"

end
