(* ===== verification/Runtime_Properties.thy ===== *)
theory Runtime_Properties
  imports Runtime_Node
begin

text \<open>
  How the components work together in the runtime node: the session, the scheduler and the expected
  samples agree whenever a session is armed or running; an accepted start leads to published cycles; and
  what a rejected start leaves behind.
\<close>

section \<open>Publishing leaves the session alone\<close>

definition same_control :: "RuntimeNode \<Rightarrow> RuntimeNode \<Rightarrow> bool" where
  "same_control n n' \<longleftrightarrow>
     rn_session n' = rn_session n \<and> rn_scheduler n' = rn_scheduler n \<and> rn_config n' = rn_config n \<and>
     rn_expected n' = rn_expected n \<and> rn_params n' = rn_params n \<and> rn_buffer n' = rn_buffer n \<and>
     rn_policy n' = rn_policy n"

lemma same_control_refl [simp]: "same_control n n"
  by (simp add: same_control_def)

lemma same_control_trans: "same_control a b \<Longrightarrow> same_control b c \<Longrightarrow> same_control a c"
  by (simp add: same_control_def)

lemma same_control_publish [simp]: "same_control a (node_publish m n) = same_control a n"
  by (simp add: same_control_def node_publish_def)

lemma publish_clock [simp]: "rn_clock (node_publish m n) = rn_clock n"
  by (simp add: node_publish_def)

lemma publish_log [simp]: "rn_log (node_publish m n) = rn_log n @ [m]"
  by (simp add: node_publish_def)

lemma refreshClock_frame:
  assumes "refreshClock ci n = Some n'"
  shows "same_control n n' \<and> rn_log n' = rn_log n \<and> (\<exists>n0. sampleClock ci n = Some (rn_clock n', n0))"
  using assms
  by (auto simp: refreshClock_def sampleClock_def same_control_def Let_def split: if_splits)

lemma publishHealth_frame:
  assumes "publishHealth lib now refresh n = Some n'"
  shows "same_control n n' \<and> (\<exists>h. rn_log n' = rn_log n @ [HealthMsg h])"
proof (cases refresh)
  case None
  then show ?thesis using assms by (auto simp: publishHealth_def)
next
  case (Some ci)
  then obtain n1 h where n1: "refreshClock ci n = Some n1" "n' = node_publish (HealthMsg h) n1"
    using assms by (auto simp: publishHealth_def Let_def)
  from refreshClock_frame [OF n1(1)] n1(2) show ?thesis by simp
qed

definition extends :: "RuntimeNode \<Rightarrow> RuntimeNode \<Rightarrow> bool" where
  "extends n n' \<longleftrightarrow> same_control n n' \<and> (\<exists>ms. rn_log n' = rn_log n @ ms)"

lemma extends_refl [simp]: "extends n n"
  by (simp add: extends_def)

lemma extends_trans: "extends a b \<Longrightarrow> extends b c \<Longrightarrow> extends a c"
  unfolding extends_def using same_control_trans by fastforce

lemma extends_publish: "extends a n \<Longrightarrow> extends a (node_publish m n)"
  by (auto simp: extends_def)

lemma recommendations_extend:
  "extends n (foldl (\<lambda>n r. node_publish (RecommendMsg (toRecommendationMsg stamp n r)) n) n rs)"
proof (induction rs arbitrary: n)
  case (Cons r rs)
  show ?case
    using extends_trans [OF extends_publish [OF extends_refl] Cons [of "node_publish (RecommendMsg (toRecommendationMsg stamp n r)) n"]]
    by simp
qed simp

lemma weaknet_view_extends: "extends (fst acc) (fst (weaknet_view cycle stamp acc s))"
proof -
  let ?rec = "foldl (\<lambda>n r. node_publish (RecommendMsg (toRecommendationMsg stamp n r)) n)"
  have rec: "extends a (?rec n rs)" if "extends a n" for a n rs
    using extends_trans [OF that recommendations_extend] .
  have upd: "extends n (n\<lparr>rn_windows := w, rn_states := t\<rparr>)" for n w t
    by (simp add: extends_def same_control_def)
  show ?thesis
    by (auto simp: weaknet_view_def Let_def split_beta intro!: rec extends_publish upd)
qed

lemma weaknet_fold_extends: "extends (fst acc) (fst (foldl (weaknet_view cycle stamp) acc vs))"
proof (induction vs arbitrary: acc)
  case (Cons v vs)
  show ?case using extends_trans [OF weaknet_view_extends Cons] by simp
qed simp

lemma publishWeaknet_extends: "extends n (publishWeaknet snap stamp n)"
proof -
  have upd: "extends a n \<Longrightarrow> extends a (n\<lparr>rn_weaknet_state := w, rn_weaknet_reason := r\<rparr>)" for a n w r
    by (simp add: extends_def same_control_def)
  show ?thesis
    using weaknet_fold_extends [of "(n, Good, ''healthy'')" "snap_cycle_id snap" stamp "snap_samples snap"]
    by (auto simp: publishWeaknet_def Let_def split_beta intro: upd)
qed

lemma publishSnapshot_extends: "extends n (publishSnapshot lib e stamp clock n)"
proof -
  let ?s = "build (snapshot_request e stamp clock n) (rn_buffer n)"
  let ?n1 = "node_publish (CycleSnapshotMsg (toSnapshotMsg lib stamp n ?s)) n"
  let ?n2 = "node_publish (StatsMsg (toSampleStatsMsg stamp ?n1 ?s)) ?n1"
  have "extends n ?n2" by (intro extends_publish extends_refl)
  then have "extends n (publishWeaknet ?s stamp ?n2)" by (rule extends_trans [OF _ publishWeaknet_extends])
  then show ?thesis by (simp add: publishSnapshot_def Let_def)
qed

section \<open>Starting a session\<close>

lemma isValidConfig_fields:
  "isValidConfig c = Inr () \<Longrightarrow> sc_session_id c \<noteq> [] \<and> sc_task_id c \<noteq> [] \<and>
     \<not> (sc_max_cycle c > 0 \<and> sc_max_cycle c < sc_start_cycle c)"
  by (auto simp: isValidConfig_def split: if_splits)

definition start_allowed :: "i64 \<Rightarrow> i64 \<Rightarrow> ClockState \<Rightarrow> SessionConfig \<Rightarrow> bool" where
  "start_allowed epoch period clock c \<longleftrightarrow>
     isValidPeriodNs period \<and> \<not> clock_unusable clock \<and>
     isValidConfig (c\<lparr>sc_epoch_ns := epoch, sc_period_ns := period\<rparr>) = Inr ()"

text \<open>The node right after a session was started with configuration \<open>c\<close>.\<close>

definition started :: "SessionConfig \<Rightarrow> RuntimeNode \<Rightarrow> RuntimeNode" where
  "started c n =
     (configureExpectedSamples (n\<lparr>rn_config := c\<rparr>))
       \<lparr>rn_session := \<lparr>sm_config = c, sm_state = ARMED, sm_reason = []\<rparr>,
        rn_scheduler := (rn_scheduler n)\<lparr>sch_config := scheduler_config_of c, sch_running := True,
          sch_has_emitted := False, sch_last_emitted_cycle := 0\<rparr>\<rparr>"

lemma valid_period_pos: "isValidPeriodNs p \<Longrightarrow> i64_less 0 p"
  by (simp add: isValidPeriodNs_def kMinPeriodNs_def)

lemma startSession_accepts:
  assumes "start_allowed epoch period clock (rn_config n)"
  shows "startSession epoch period clock n =
    (True, started ((rn_config n)\<lparr>sc_epoch_ns := epoch, sc_period_ns := period\<rparr>) n)"
proof -
  let ?c = "(rn_config n)\<lparr>sc_epoch_ns := epoch, sc_period_ns := period\<rparr>"
  have p: "isValidPeriodNs period" and k: "\<not> clock_unusable clock" and v: "isValidConfig ?c = Inr ()"
    using assms by (simp_all add: start_allowed_def)
  have "scheduler_configure (scheduler_config_of ?c) (rn_scheduler n) =
      (True, (rn_scheduler n)\<lparr>sch_config := scheduler_config_of ?c, sch_running := False, sch_has_emitted := False,
        sch_last_emitted_cycle := 0\<rparr>)"
    using isValidConfig_fields [OF v] p by (auto simp: scheduler_configure_def scheduler_config_of_def)
  then show ?thesis
    using p k v valid_period_pos [OF p]
    by (simp add: startSession_def started_def session_configure_def session_arm_def clock_unusable_def
        configureExpectedSamples_def scheduler_start_def scheduler_config_of_def Let_def)
qed

lemma startSession_rejects:
  assumes "\<not> start_allowed epoch period clock (rn_config n)" and "startSession epoch period clock n = (ok, n')"
  shows "\<not> ok \<and> sm_state (rn_session n') = ERROR \<and> rn_scheduler n' = rn_scheduler n \<and>
    rn_expected n' = rn_expected n \<and> rn_buffer n' = rn_buffer n \<and> rn_params n' = rn_params n \<and>
    sc_session_id (rn_config n') = sc_session_id (rn_config n)"
  using assms
  by (auto simp: startSession_def start_allowed_def clock_unusable_def session_configure_def markError_def Let_def
      split: if_splits sum.splits)

section \<open>Session, scheduler and expected samples agree\<close>

definition expected_for :: "RuntimeNode \<Rightarrow> ExpectedSample list" where
  "expected_for n = rn_expected (configureExpectedSamples n)"

definition node_inv :: "RuntimeNode \<Rightarrow> bool" where
  "node_inv n \<longleftrightarrow>
     (sm_state (rn_session n) = ARMED \<or> sm_state (rn_session n) = RUNNING \<longrightarrow>
        sm_config (rn_session n) = rn_config n \<and> isValidConfig (rn_config n) = Inr () \<and>
        isValidPeriodNs (sc_period_ns (rn_config n)) \<and>
        sch_config (rn_scheduler n) = scheduler_config_of (rn_config n) \<and> rn_expected n = expected_for n)"

lemma expected_for_cong: "rn_config n' = rn_config n \<Longrightarrow> rn_params n' = rn_params n \<Longrightarrow> expected_for n' = expected_for n"
  by (simp add: expected_for_def configureExpectedSamples_def Let_def)

lemma node_inv_same: "same_control n n' \<Longrightarrow> node_inv n \<Longrightarrow> node_inv n'"
  using expected_for_cong unfolding node_inv_def same_control_def by metis

lemma node_inv_extends: "extends n n' \<Longrightarrow> node_inv n \<Longrightarrow> node_inv n'"
  using node_inv_same unfolding extends_def by blast

lemma node_inv_started:
  assumes "start_allowed epoch period clock (rn_config n)"
  shows "node_inv (started ((rn_config n)\<lparr>sc_epoch_ns := epoch, sc_period_ns := period\<rparr>) n)"
  using assms
  by (simp add: node_inv_def started_def start_allowed_def expected_for_def configureExpectedSamples_def Let_def)

lemma node_inv_startSession: "node_inv (snd (startSession epoch period clock n))"
proof (cases "start_allowed epoch period clock (rn_config n)")
  case True
  then show ?thesis using startSession_accepts [OF True] node_inv_started [OF True] by simp
next
  case False
  then have "sm_state (rn_session (snd (startSession epoch period clock n))) = ERROR"
    using startSession_rejects by (metis prod.collapse)
  then show ?thesis by (simp add: node_inv_def)
qed

lemma tick_config: "tick now ok s = (ev, cs, s') \<Longrightarrow> sch_config s' = sch_config s"
  by (auto simp: tick_def Let_def split: if_splits option.splits)

lemma node_inv_timer:
  assumes "node_inv n" and "timerCallback lib now later ci n = Some n'"
  shows "node_inv n'"
proof -
  obtain n1 where n1: "refreshClock ci n = Some n1" using assms(2) by (auto simp: timerCallback_def Option.bind_eq_Some_conv)
  obtain ev cs sch where t: "tick (toNs now) (clock_clock_ok (cmr_state (rn_clock n1))) (rn_scheduler n1) = (ev, cs, sch)"
    by (metis prod_cases3)
  let ?n2 = "n1\<lparr>rn_session := snd (startIfDue (toNs now) (cmr_state (rn_clock n1)) (rn_session n1)), rn_scheduler := sch\<rparr>"
  have "node_inv n1" using refreshClock_frame [OF n1] node_inv_same assms(1) by blast
  then have i: "node_inv ?n2"
    using tick_config [OF t] expected_for_cong [of ?n2 n1]
    by (auto simp: node_inv_def startIfDue_def markError_def)
  show ?thesis
  proof (cases ev)
    case None
    then show ?thesis using assms(2) n1 t i by (simp add: timerCallback_def Let_def)
  next
    case (Some e)
    let ?n3 = "publishSnapshot lib e now (cmr_state (rn_clock n1)) (publishCycle lib e now
      (?n2\<lparr>rn_current_cycle := ev_cycle_id e, rn_last_jitter_ns := ev_jitter_ns e\<rparr>))"
    have h: "publishHealth lib later None ?n3 = Some n'"
      using assms(2) n1 t Some by (simp add: timerCallback_def Let_def)
    have "extends ?n2 (?n2\<lparr>rn_current_cycle := ev_cycle_id e, rn_last_jitter_ns := ev_jitter_ns e\<rparr>)"
      by (simp add: extends_def same_control_def)
    then have "extends ?n2 ?n3"
      unfolding publishCycle_def by (intro extends_trans [OF extends_publish publishSnapshot_extends])
    then show ?thesis using node_inv_extends [OF _ i] publishHealth_frame [OF h] node_inv_same by blast
  qed
qed

lemma node_inv_start_service:
  assumes "node_inv n" and "startCallback lib ci request n = Some (response, n')"
  shows "node_inv n'"
proof -
  consider "n' = n" | e p k m where "n' = snd (startSession e p k m)"
    using assms(2) by (auto simp: startCallback_def Let_def split_beta split: if_splits)
  then show ?thesis using assms(1) node_inv_startSession by cases auto
qed

lemma node_inv_not_active:
  "sm_state (rn_session n) \<noteq> ARMED \<Longrightarrow> sm_state (rn_session n) \<noteq> RUNNING \<Longrightarrow> node_inv n"
  by (simp add: node_inv_def)

lemma node_inv_stop_service:
  assumes "stopCallback lib now ci reason n = Some (response, n')"
  shows "node_inv n'"
proof -
  obtain m where "publishHealth lib now (Some ci) m = Some n'" "sm_state (rn_session m) = STOPPED"
    using assms by (auto simp: stopCallback_def session_stop_def)
  with publishHealth_frame show ?thesis by (fastforce simp: same_control_def intro: node_inv_not_active)
qed

lemma node_inv_step: "node_inv n \<Longrightarrow> node_step lib n n' \<Longrightarrow> node_inv n'"
proof (erule node_stepE)
  fix ci status assume "node_inv n" "statusCallback ci n = Some (status, n')"
  then show "node_inv n'" using refreshClock_frame node_inv_same by (fastforce simp: statusCallback_def)
qed (auto intro: node_inv_start_service node_inv_stop_service node_inv_timer)

lemma session_configure_True: "fst (session_configure c m) \<Longrightarrow> sm_state (snd (session_configure c m)) = CONFIGURED"
  by (auto simp: session_configure_def split: sum.splits)

lemma node_init_start:
  assumes "node_init lib ps inp = Some (Some n)"
  shows "\<exists>m. init_start lib inp m = Some n \<and> sm_state (rn_session m) = CONFIGURED"
proof -
  let ?adapters = "loadAdapterConfig (ii_xmlrpc inp) (ii_ros1_adapters inp) (param (ps_ros1_adapters_config ps) [])"
  let ?p = "loadParams ps"
  obtain policy where 1: "loadClockPolicy ps = Some policy"
    using assms by (cases "loadClockPolicy ps") (simp_all add: node_init_def)
  obtain ad su where 2: "?adapters = Some (ad, su)"
    using assms 1 by (cases ?adapters) (auto simp: node_init_def)
  obtain period where 3: "periodNsFromFrequencyHz (np_frequency_hz ?p) = Some period"
    using assms 1 2 by (cases "periodNsFromFrequencyHz (np_frequency_hz ?p)") (auto simp: node_init_def Let_def)
  obtain delay where 4: "d_to_i64 (dmul (np_start_delay_s ?p) (Fin 1000000000)) = Some delay"
    using assms 1 2 3
    by (cases "d_to_i64 (dmul (np_start_delay_s ?p) (Fin 1000000000))") (auto simp: node_init_def Let_def)
  let ?n = "snd (configureWeaknet ((node_new ?p policy (param (ps_clock_phase ps) ''preflight''))
    \<lparr>rn_adapter_config := ad, rn_adapter_summary := su,
     rn_config := config_of_params ps (toNs (ii_now inp) + delay) period\<rparr>))"
  let ?m = "configureExpectedSamples ?n"
  let ?s = "session_configure (rn_config ?m) (rn_session ?m)"
  have "fst ?s \<and> init_start lib inp (?m\<lparr>rn_session := snd ?s\<rparr>) = Some n"
    using assms by (simp add: node_init_def 1 2 3 4 Let_def split_beta split: if_splits)
  then show ?thesis
    using session_configure_True by (intro exI [of _ "?m\<lparr>rn_session := snd ?s\<rparr>"]) simp
qed

lemma node_inv_init:
  assumes "node_init lib ps inp = Some (Some n)"
  shows "node_inv n"
proof -
  obtain m where m: "init_start lib inp m = Some n" and s: "sm_state (rn_session m) = CONFIGURED"
    using node_init_start [OF assms] by blast
  then obtain k where k: "publishHealth lib (ii_health_now inp) (Some (ii_health_clock inp))
      (publishBudget (ii_budget_now inp) k) = Some n" and "node_inv k"
    using node_inv_startSession node_inv_not_active [of m]
    by (auto simp: init_start_def Option.bind_eq_Some_conv split: if_splits)
  then show ?thesis
    using publishHealth_frame [OF k] node_inv_same [of k n] by (simp add: publishBudget_def same_control_def node_publish_def Let_def)
qed

interpretation rn: preserved "\<lambda>n. node_init lib ps inp = Some (Some n)" "node_step lib" node_inv for lib ps inp
  by unfold_locales (auto intro: node_inv_init node_inv_step)

text \<open>
  C6. The components agree on the session. In every state the runtime node can reach after a successful
  initialisation, by any sequence of service calls and timer events, if the session is armed or running
  then it runs with the node's current configuration, which is valid and has a period between 20 ms and
  2 s; the cycle scheduler is configured with exactly that session, task, epoch, period and cycle range;
  and exactly one sample is expected of each required participant, with the period as its cutoff.
\<close>
theorem active_session_is_consistent:
  assumes "node_init lib ps inp = Some (Some n0)" and "(node_step lib)\<^sup>*\<^sup>* n0 n"
    and "sm_state (rn_session n) = ARMED \<or> sm_state (rn_session n) = RUNNING"
  shows "sm_config (rn_session n) = rn_config n \<and> isValidConfig (rn_config n) = Inr () \<and>
    20000000 \<le> sint (sc_period_ns (rn_config n)) \<and> sint (sc_period_ns (rn_config n)) \<le> 2000000000 \<and>
    sch_config (rn_scheduler n) = scheduler_config_of (rn_config n) \<and>
    map exp_peer_id (rn_expected n) = sc_required_participants (rn_config n) \<and>
    (\<forall>x \<in> set (rn_expected n). exp_required x \<and> tim_receive_cutoff_ns (exp_timing x) = sc_period_ns (rn_config n))"
proof -
  have i: "node_inv n" by (rule rn.holds [OF assms(1,2)])
  then have p: "isValidPeriodNs (sc_period_ns (rn_config n))" and e: "rn_expected n = expected_for n"
    using assms(3) by (simp_all add: node_inv_def)
  have "map exp_peer_id (expected_for n) = sc_required_participants (rn_config n)"
    "\<forall>x \<in> set (expected_for n). exp_required x \<and> tim_receive_cutoff_ns (exp_timing x) = sc_period_ns (rn_config n)"
    using valid_period_pos [OF p]
    by (auto simp: expected_for_def configureExpectedSamples_def Let_def comp_def)
  then show ?thesis
    using i p e assms(3) by (simp add: node_inv_def isValidPeriodNs_def kMinPeriodNs_def kMaxPeriodNs_def)
qed

section \<open>From a start request to a published cycle\<close>

text \<open>The configuration a start request asks for.\<close>

definition requested :: "RosLib \<Rightarrow> StartRequest \<Rightarrow> RuntimeNode \<Rightarrow> SessionConfig" where
  "requested lib request n =
     (rn_config n)\<lparr>sc_session_id := (if sr_session_id request = [] then sc_session_id (rn_config n) else sr_session_id request),
       sc_task_id := (if sr_task_id request = [] then sc_task_id (rn_config n) else sr_task_id request),
       sc_period_ns := (if dlt (Fin 0) (rl_toSec lib (sr_period request)) then toNs_duration (sr_period request)
                        else sc_period_ns (rn_config n)),
       sc_epoch_ns := toNs (sr_epoch_time request)\<rparr>"

lemma startCallback_requested:
  "startCallback lib ci request n =
     (if \<not> isValidPeriodNs (sc_period_ns (requested lib request n))
      then Some ((False, ''period_ns outside supported 0.5-50 Hz range''), n)
      else map_option (\<lambda>m.
             let (accepted, m) = startSession (sc_epoch_ns (rn_config m)) (sc_period_ns (rn_config m)) (cmr_state (rn_clock m)) m
             in ((accepted, if accepted then ''accepted'' else sm_reason (rn_session m)), m))
           (refreshClock ci (n\<lparr>rn_config := requested lib request n\<rparr>)))"
proof -
  let ?c = "rn_config n"
  let ?c' = "if sr_session_id request \<noteq> [] then ?c\<lparr>sc_session_id := sr_session_id request\<rparr> else ?c"
  let ?c'' = "if sr_task_id request \<noteq> [] then ?c'\<lparr>sc_task_id := sr_task_id request\<rparr> else ?c'"
  let ?p = "if dlt (Fin 0) (rl_toSec lib (sr_period request)) then toNs_duration (sr_period request)
    else sc_period_ns ?c''"
  have p: "sc_period_ns (requested lib request n) = ?p" by (simp add: requested_def)
  have r: "?c''\<lparr>sc_period_ns := ?p, sc_epoch_ns := toNs (sr_epoch_time request)\<rparr> = requested lib request n"
    by (simp add: requested_def)
  show ?thesis unfolding startCallback_def Let_def r p by (rule refl)
qed

lemma startCallback_accepted:
  assumes "startCallback lib ci request n = Some ((True, why), n1)"
  shows "\<exists>m. rn_config m = requested lib request n \<and> n1 = started (requested lib request n) m \<and>
    isValidPeriodNs (sc_period_ns (requested lib request n))"
proof -
  let ?c = "requested lib request n"
  have v: "isValidPeriodNs (sc_period_ns ?c)"
    using assms by (auto simp: startCallback_requested split: if_splits)
  then obtain m where m: "refreshClock ci (n\<lparr>rn_config := ?c\<rparr>) = Some m"
    "startSession (sc_epoch_ns (rn_config m)) (sc_period_ns (rn_config m)) (cmr_state (rn_clock m)) m = (True, n1)"
    using assms by (auto simp: startCallback_requested Let_def split_beta prod_eq_iff)
  have c: "rn_config m = ?c" using refreshClock_frame [OF m(1)] by (simp add: same_control_def)
  have "start_allowed (sc_epoch_ns ?c) (sc_period_ns ?c) (cmr_state (rn_clock m)) (rn_config m)"
    using startSession_rejects [OF _ m(2)] c by auto
  from startSession_accepts [OF this] m(2) c have "n1 = started ?c m" by simp
  with c v show ?thesis by blast
qed

lemma startCallback_rejected:
  assumes "startCallback lib ci request n = Some ((False, why), n1)"
    and "isValidPeriodNs (sc_period_ns (requested lib request n))"
  shows "sm_state (rn_session n1) = ERROR \<and> rn_scheduler n1 = rn_scheduler n \<and>
    sc_session_id (rn_config n1) = sc_session_id (requested lib request n)"
proof -
  let ?c = "requested lib request n"
  obtain m where m: "refreshClock ci (n\<lparr>rn_config := ?c\<rparr>) = Some m"
    "startSession (sc_epoch_ns (rn_config m)) (sc_period_ns (rn_config m)) (cmr_state (rn_clock m)) m = (False, n1)"
    using assms by (auto simp: startCallback_requested Let_def split_beta prod_eq_iff)
  have c: "rn_config m = ?c" "rn_scheduler m = rn_scheduler n"
    using refreshClock_frame [OF m(1)] by (simp_all add: same_control_def)
  have "\<not> start_allowed (sc_epoch_ns (rn_config m)) (sc_period_ns (rn_config m)) (cmr_state (rn_clock m)) (rn_config m)"
    using startSession_accepts m(2) by fastforce
  from startSession_rejects [OF this m(2)] c show ?thesis by simp
qed

lemma timer_emits:
  assumes "refreshClock ci n = Some nc"
    and "tick (toNs now) (clock_clock_ok (cmr_state (rn_clock nc))) (rn_scheduler n) = (Some e, cs, sch)"
  shows "\<exists>n2 cy ms. timerCallback lib now later ci n = Some n2 \<and> rn_log n2 = rn_log n @ CycleMsg cy # ms \<and>
    rn_session n2 = snd (startIfDue (toNs now) (cmr_state (rn_clock nc)) (rn_session n)) \<and>
    cy_session_id cy = sc_session_id (rn_config n) \<and> cy_cycle_id cy = ev_cycle_id e \<and>
    cy_session_running cy = session_running (rn_session n2)"
proof -
  have f: "rn_session nc = rn_session n" "rn_scheduler nc = rn_scheduler n" "rn_config nc = rn_config n"
    "rn_log nc = rn_log n"
    using refreshClock_frame [OF assms(1)] by (simp_all add: same_control_def)
  let ?s = "snd (startIfDue (toNs now) (cmr_state (rn_clock nc)) (rn_session n))"
  let ?n1 = "nc\<lparr>rn_session := ?s, rn_scheduler := sch, rn_current_cycle := ev_cycle_id e, rn_last_jitter_ns := ev_jitter_ns e\<rparr>"
  let ?n2 = "publishCycle lib e now ?n1"
  let ?n3 = "publishSnapshot lib e now (cmr_state (rn_clock nc)) ?n2"
  obtain n4 where h: "publishHealth lib later None ?n3 = Some n4" by (simp add: publishHealth_def)
  have t: "timerCallback lib now later ci n = Some n4"
    using assms h by (simp add: timerCallback_def Let_def f)
  obtain cy where cy: "rn_log ?n2 = rn_log n @ [CycleMsg cy]" "cy_session_id cy = sc_session_id (rn_config n)"
    "cy_cycle_id cy = ev_cycle_id e" "cy_session_running cy = session_running ?s"
    by (simp add: publishCycle_def f)
  have s2: "rn_session ?n2 = ?s" by (simp add: publishCycle_def node_publish_def)
  obtain ms where ms: "rn_log ?n3 = rn_log ?n2 @ ms" and s3: "rn_session ?n3 = ?s"
    using publishSnapshot_extends [of ?n2 lib e now "cmr_state (rn_clock nc)"] s2
    by (auto simp: extends_def same_control_def)
  have "rn_session n4 = ?s" "\<exists>hm. rn_log n4 = rn_log ?n3 @ [HealthMsg hm]"
    using publishHealth_frame [OF h] s3 by (simp_all add: same_control_def)
  then show ?thesis using t cy ms by fastforce
qed

lemma first_tick:
  assumes "in_range (sch_config s) now" and "sch_running s" and "\<not> sch_has_emitted s" and "cs_max_cycle (sch_config s) = 0"
  shows "\<exists>e cs s'. tick now ok s = (Some e, cs, s') \<and> ev_cycle_id e = computeCycleId (sch_config s) now"
proof -
  have "0 < sint (cs_period_ns (sch_config s))" using assms(1) by (simp add: in_range_def)
  then have "cs_period_ns (sch_config s) \<noteq> 0" by auto
  then have "\<exists>t. expectedTimeNs (sch_config s) (computeCycleId (sch_config s) now) = Some t"
    by (simp add: expectedTimeNs_def Let_def)
  then show ?thesis using assms by (auto simp: tick_def in_range_def Let_def)
qed

text \<open>
  C8. An accepted start leads to cycles. If a start request is accepted without a cycle limit, then the
  next timer event at a time in range of the schedule, with a usable clock, succeeds, makes the session
  run, and publishes a cycle message for the requested session with the number of the cycle the time
  lies in.
\<close>
theorem accepted_start_publishes_cycle:
  assumes "startCallback lib ci request n = Some ((True, why), n1)"
    and "refreshClock ci' n1 = Some nc" and "\<not> clock_unusable (cmr_state (rn_clock nc))"
    and "in_range (scheduler_config_of (rn_config n1)) (toNs now)" and "sc_max_cycle (rn_config n1) = 0"
  shows "\<exists>n2 cy ms. timerCallback lib now later ci' n1 = Some n2 \<and> session_running (rn_session n2) \<and>
    rn_log n2 = rn_log n1 @ CycleMsg cy # ms \<and> cy_session_running cy \<and>
    cy_session_id cy = (if sr_session_id request = [] then sc_session_id (rn_config n) else sr_session_id request) \<and>
    uint (cy_cycle_id cy) = cycle_at (scheduler_config_of (rn_config n1)) (toNs now)"
proof -
  obtain m where m: "n1 = started (requested lib request n) m" using startCallback_accepted [OF assms(1)] by blast
  let ?c = "requested lib request n"
  have f: "rn_config n1 = ?c" "rn_session n1 = \<lparr>sm_config = ?c, sm_state = ARMED, sm_reason = []\<rparr>"
    "sch_config (rn_scheduler n1) = scheduler_config_of ?c" "sch_running (rn_scheduler n1)"
    "\<not> sch_has_emitted (rn_scheduler n1)"
    by (simp_all add: m started_def configureExpectedSamples_def Let_def)
  have mc: "cs_max_cycle (scheduler_config_of ?c) = 0" using assms(5) f(1) by (simp add: scheduler_config_of_def)
  obtain e cs s' where t: "tick (toNs now) (clock_clock_ok (cmr_state (rn_clock nc))) (rn_scheduler n1) = (Some e, cs, s')"
    "ev_cycle_id e = computeCycleId (scheduler_config_of ?c) (toNs now)"
    using first_tick [of "rn_scheduler n1" "toNs now" "clock_clock_ok (cmr_state (rn_clock nc))"] assms(4) f mc
    by metis
  have "i64_le (sc_epoch_ns ?c) (toNs now)" using assms(4) f(1) by (simp add: in_range_def scheduler_config_of_def)
  then have "session_running (snd (startIfDue (toNs now) (cmr_state (rn_clock nc)) (rn_session n1)))"
    using assms(3) by (simp add: f(2) startIfDue_def session_running_def)
  moreover have "uint (ev_cycle_id e) = cycle_at (scheduler_config_of ?c) (toNs now)"
    using uint_computeCycleId assms(4) t(2) f(1) by metis
  ultimately show ?thesis
    using timer_emits [OF assms(2) t(1), of lib later] f(1) by (fastforce simp: requested_def)
qed

text \<open>
  C40. What a rejected start leaves behind. After any rejected start request the scheduler goes on as
  before, and the next cycle it emits is published with its number. If the request was rejected for its
  period, nothing has changed and the cycle keeps the node's session id. If the requested period was valid,
  the session is in the ERROR state and the cycle is published with \<^verbatim>\<open>session_running\<close> false, and under the
  session id of the rejected request when that had one, although the schedule belongs to the old session.
\<close>
theorem rejected_start_relabels_cycles:
  assumes "startCallback lib ci request n = Some ((False, why), n1)" and "refreshClock ci' n1 = Some nc"
    and "tick (toNs now) (clock_clock_ok (cmr_state (rn_clock nc))) (rn_scheduler n) = (Some e, cs, sch)"
  shows "\<exists>n2 cy ms. timerCallback lib now later ci' n1 = Some n2 \<and> rn_log n2 = rn_log n1 @ CycleMsg cy # ms \<and>
    cy_cycle_id cy = ev_cycle_id e \<and> ev_session_id e = cs_session_id (sch_config (rn_scheduler n)) \<and>
    (if isValidPeriodNs (sc_period_ns (requested lib request n))
     then sm_state (rn_session n1) = ERROR \<and> \<not> cy_session_running cy \<and>
       cy_session_id cy = (if sr_session_id request = [] then sc_session_id (rn_config n) else sr_session_id request)
     else n1 = n \<and> cy_session_id cy = sc_session_id (rn_config n))"
proof -
  let ?v = "isValidPeriodNs (sc_period_ns (requested lib request n))"
  have valid: "?v \<Longrightarrow> sm_state (rn_session n1) = ERROR \<and> rn_scheduler n1 = rn_scheduler n \<and> sc_session_id (rn_config n1) =
      (if sr_session_id request = [] then sc_session_id (rn_config n) else sr_session_id request)"
    using startCallback_rejected [OF assms(1)] by (simp add: requested_def)
  have invalid: "\<not> ?v \<Longrightarrow> n1 = n" using assms(1) by (simp add: startCallback_requested)
  have "rn_scheduler n1 = rn_scheduler n" using valid invalid by (cases ?v) simp_all
  from timer_emits [OF assms(2), of now e cs sch lib later] assms(3) this
  obtain n2 cy ms where t: "timerCallback lib now later ci' n1 = Some n2" "rn_log n2 = rn_log n1 @ CycleMsg cy # ms"
    "rn_session n2 = snd (startIfDue (toNs now) (cmr_state (rn_clock nc)) (rn_session n1))"
    "cy_session_id cy = sc_session_id (rn_config n1)" "cy_cycle_id cy = ev_cycle_id e"
    "cy_session_running cy = session_running (rn_session n2)" by auto
  have "ev_session_id e = cs_session_id (sch_config (rn_scheduler n))"
    using assms(3) by (auto simp: tick_def Let_def split: if_splits option.splits)
  moreover have "?v \<Longrightarrow> \<not> cy_session_running cy"
    using valid by (simp add: t startIfDue_def session_running_def)
  ultimately show ?thesis using t(1,2,4,5) valid invalid by (cases ?v) auto
qed

section \<open>Witnesses\<close>

definition demo_lib :: RosLib where
  "demo_lib = \<lparr>rl_fromNSec = \<lambda>_. RosTime 0 0, rl_duration = \<lambda>_. RosDuration 0 0, rl_toSec = \<lambda>_. Fin 0\<rparr>"

definition demo_server :: NodeParamServer where
  "demo_server =
     \<lparr>ps_team_id = None, ps_session_id = Some ''a'', ps_task_id = None, ps_self_id = None,
      ps_frequency_hz = Some (Fin 20), ps_auto_start = Some True, ps_start_delay_s = Some (Fin 0), ps_poll_rate_hz = None,
      ps_expected_sample_channel = None, ps_weaknet_enabled = Some False, ps_budget_max_realtime_bps = None,
      ps_budget_safety_factor = None, ps_payload_bytes_p95 = None, ps_required_participants = None,
      ps_ros1_adapters_config = None, ps_clock_provider = None, ps_clock_authority = None,
      ps_ground_time_source = None, ps_require_clock_ok_to_start = None, ps_in_flight_allow_step = None,
      ps_external_sources_allowed_in_flight = None, ps_clock_phase_source = None, ps_clock_phase = None,
      ps_max_clock_offset_ms = Some (Fin 0), ps_preflight_max_offset_ms = None,
      ps_preflight_max_uncertainty_ms = Some (Fin 0), ps_mock_clock_ok = None, ps_mock_clock_quality = None,
      ps_mock_clock_offset_ns = None, ps_mock_clock_uncertainty_ns = None, ps_mock_clock_source = None\<rparr>"

definition good_clock :: ClockInput where
  "good_clock = \<lparr>ci_phase = None, ci_runner = demo_runner\<rparr>"

definition bad_clock :: ClockInput where
  "bad_clock = \<lparr>ci_phase = None, ci_runner = \<lambda>_. (1, [])\<rparr>"

definition demo_init :: "demo_value InitInput" where
  "demo_init = \<lparr>ii_now = RosTime 10 0, ii_budget_now = RosTime 10 0, ii_health_now = RosTime 10 0,
     ii_clock = good_clock, ii_health_clock = good_clock, ii_xmlrpc = demo_xmlrpc, ii_ros1_adapters = None\<rparr>"

text \<open>With no limits but zero, the clock input is judged good or bad whatever the phase.\<close>

definition demo_node_policy :: ClockPolicy where
  "demo_node_policy = demo_policy\<lparr>cp_ground_time_source := [], cp_preflight_max_offset_ns := 0,
     cp_preflight_max_uncertainty_ns := 0\<rparr>"

lemma demo_policy_loaded: "loadClockPolicy demo_server = Some demo_node_policy"
  by (simp add: loadClockPolicy_def demo_server_def param_def dmax_def truncate_rat_def demo_node_policy_def
      demo_policy_def Let_def)

lemma good_sample:
  "\<exists>r. clock_sample demo_runner demo_node_policy phase = Some r \<and> \<not> clock_unusable (cmr_state r)"
proof -
  have "fst (demo_runner cmd) = 0" for cmd by (simp add: demo_runner_def)
  moreover have "lower ''Normal'' = ''normal''" by code_simp
  ultimately show ?thesis
    by (simp add: clock_sample_def split_beta demo_parse evaluateSnapshot_def secondsToNs_def uncertaintyNs_def
        llabs_def ChronyTracking_default_def demo_node_policy_def demo_policy_def Let_def clock_unusable_def
        sourceMatches_def ClockQuality_OK_def ClockQuality_BAD_def)
qed

lemma bad_sample:
  "\<exists>r. clock_sample (\<lambda>_. (1, [])) demo_node_policy phase = Some r \<and> clock_unusable (cmr_state r)"
  by (simp add: clock_sample_def evaluateSnapshot_def secondsToNs_def uncertaintyNs_def llabs_def
      ChronyTracking_default_def demo_node_policy_def demo_policy_def Let_def clock_unusable_def)

lemma refresh_demo:
  assumes "rn_policy n = demo_node_policy"
  shows "\<exists>nc. refreshClock good_clock n = Some nc \<and> \<not> clock_unusable (cmr_state (rn_clock nc))"
    "\<exists>nc. refreshClock bad_clock n = Some nc \<and> clock_unusable (cmr_state (rn_clock nc))"
proof -
  have m: "cp_provider demo_node_policy \<noteq> ''mock''" by (simp add: demo_node_policy_def demo_policy_def)
  have g: "ci_runner good_clock = demo_runner" "ci_runner bad_clock = (\<lambda>_. (1, []))"
    by (simp_all add: good_clock_def bad_clock_def)
  show "\<exists>nc. refreshClock good_clock n = Some nc \<and> \<not> clock_unusable (cmr_state (rn_clock nc))"
    using good_sample [of "phaseFromString (param (ci_phase good_clock) (rn_phase_param n))"] m
    by (auto simp: refreshClock_def sampleClock_def assms Let_def g)
  show "\<exists>nc. refreshClock bad_clock n = Some nc \<and> clock_unusable (cmr_state (rn_clock nc))"
    using bad_sample [of "phaseFromString (param (ci_phase bad_clock) (rn_phase_param n))"] m
    by (auto simp: refreshClock_def sampleClock_def assms Let_def g)
qed

definition demo_config :: SessionConfig where
  "demo_config = config_of_params demo_server 10000000000 50000000"

lemma demo_period: "periodNsFromFrequencyHz (Fin 20) = Some 50000000"
proof -
  have "mk_double 50000000 = Fin 50000000" using d_of_nat_exact [of 50000000] by (simp add: d_of_nat_def)
  moreover have "\<lfloor>50000000 + 1 / 2 :: rat\<rfloor> = 50000000" by (simp add: floor_eq_iff)
  then have "round_half_away 50000000 = 50000000" by (simp add: round_half_away_def)
  ultimately show ?thesis
    by (simp add: periodNsFromFrequencyHz_def isValidFrequencyHz_def kMinFrequencyHz_def kMaxFrequencyHz_def)
qed

lemma demo_start_allowed:
  "\<not> clock_unusable k \<Longrightarrow> start_allowed 10000000000 50000000 k demo_config"
  by (simp add: start_allowed_def isValidPeriodNs_def kMinPeriodNs_def kMaxPeriodNs_def isValidConfig_def
      demo_config_def config_of_params_def SessionConfig_default_def demo_server_def param_def Let_def)

text \<open>After initialisation the demo node is armed for the session \<open>a\<close>.\<close>

definition armed_for_demo :: "RuntimeNode \<Rightarrow> bool" where
  "armed_for_demo n \<longleftrightarrow>
     rn_policy n = demo_node_policy \<and> rn_config n = demo_config \<and> sm_state (rn_session n) = ARMED \<and>
     sch_config (rn_scheduler n) = scheduler_config_of demo_config \<and> sch_running (rn_scheduler n) \<and>
     \<not> sch_has_emitted (rn_scheduler n)"

lemma init_start_demo:
  assumes "rn_policy m = demo_node_policy" and "rn_config m = demo_config" and "np_auto_start (rn_params m)"
  shows "\<exists>n. init_start lib demo_init m = Some n \<and> armed_for_demo n"
proof -
  obtain nc where nc: "refreshClock good_clock m = Some nc" "\<not> clock_unusable (cmr_state (rn_clock nc))"
    using refresh_demo(1) [OF assms(1)] by blast
  have f: "rn_policy nc = demo_node_policy" "rn_config nc = demo_config"
    using refreshClock_frame [OF nc(1)] assms by (simp_all add: same_control_def)
  have c: "sc_epoch_ns demo_config = 10000000000" "sc_period_ns demo_config = 50000000"
    by (simp_all add: demo_config_def config_of_params_def Let_def)
  have e: "demo_config\<lparr>sc_epoch_ns := 10000000000, sc_period_ns := 50000000\<rparr> = demo_config"
    using c by simp
  let ?s = "started demo_config nc"
  have st: "startSession 10000000000 50000000 (cmr_state (rn_clock nc)) nc = (True, ?s)"
    using startSession_accepts [of _ _ _ nc] demo_start_allowed [OF nc(2)] f(2) e by simp
  have sp: "armed_for_demo (publishBudget t ?s)" for t
    using f(1) by (simp add: armed_for_demo_def publishBudget_def node_publish_def started_def
        configureExpectedSamples_def Let_def)
  then obtain nh where nh: "refreshClock good_clock (publishBudget (RosTime 10 0) ?s) = Some nh"
    using refresh_demo(1) unfolding armed_for_demo_def by blast
  obtain n where n: "publishHealth lib (RosTime 10 0) (Some good_clock) (publishBudget (RosTime 10 0) ?s) = Some n"
    by (simp add: publishHealth_def nh)
  have "armed_for_demo n"
    using publishHealth_frame [OF n] sp [of "RosTime 10 0"] by (simp add: armed_for_demo_def same_control_def)
  moreover have "init_start lib demo_init m = Some n"
    using nc n assms(3) st f c by (simp add: init_start_def demo_init_def)
  ultimately show ?thesis by blast
qed

lemma node_init_demo: "\<exists>n. node_init demo_lib demo_server demo_init = Some (Some n) \<and> armed_for_demo n"
proof -
  have ad: "loadAdapterConfig (ii_xmlrpc demo_init) (ii_ros1_adapters demo_init)
      (param (ps_ros1_adapters_config demo_server) []) =
      Some (defaultAdapterConfig, summarizeAdapterConfig defaultAdapterConfig @ '' source=built_in_default'')"
    by (simp add: loadAdapterConfig_def demo_init_def demo_server_def param_def)
  have fr: "np_frequency_hz (loadParams demo_server) = Fin 20" "np_start_delay_s (loadParams demo_server) = Fin 0"
    "np_auto_start (loadParams demo_server)"
    by (simp_all add: loadParams_def demo_server_def param_def)
  have d: "d_to_i64 (dmul (Fin 0) (Fin 1000000000)) = Some 0" by (simp add: truncate_rat_def)
  have t: "toNs (ii_now demo_init) = 10000000000" by (simp add: demo_init_def)
  have v: "isValidConfig demo_config = Inr ()"
    using demo_start_allowed [of clock_assumed_ok]
    by (simp add: start_allowed_def clock_unusable_def clock_assumed_ok_def ClockQuality_OK_def ClockQuality_BAD_def
        demo_config_def config_of_params_def Let_def)
  let ?n0 = "(node_new (loadParams demo_server) demo_node_policy (param (ps_clock_phase demo_server) ''preflight''))
    \<lparr>rn_adapter_config := defaultAdapterConfig,
     rn_adapter_summary := summarizeAdapterConfig defaultAdapterConfig @ '' source=built_in_default'',
     rn_config := demo_config\<rparr>"
  let ?m = "configureExpectedSamples (snd (configureWeaknet ?n0))"
  have w: "fst (configureWeaknet ?n0)" "rn_policy (snd (configureWeaknet ?n0)) = demo_node_policy"
    "rn_config (snd (configureWeaknet ?n0)) = demo_config" "rn_params (snd (configureWeaknet ?n0)) = loadParams demo_server"
    using channel_profiles_valid [of RealtimeSample] by (simp_all add: configureWeaknet_def Let_def node_new_def)
  have m: "rn_policy ?m = demo_node_policy" "rn_config ?m = demo_config" "rn_params ?m = loadParams demo_server"
    using w by (simp_all add: configureExpectedSamples_def Let_def)
  have s: "fst (session_configure demo_config k)" for k by (simp add: session_configure_def v)
  let ?m' = "?m\<lparr>rn_session := snd (session_configure demo_config (rn_session ?m))\<rparr>"
  obtain n where "init_start demo_lib demo_init ?m' = Some n" "armed_for_demo n"
    using init_start_demo [of ?m' demo_lib] m fr(3) by auto
  moreover have "node_init demo_lib demo_server demo_init = map_option Some (init_start demo_lib demo_init ?m')"
    unfolding node_init_def Let_def demo_policy_loaded fr(1,2) demo_period ad d
    using w m s by (simp add: split_beta t demo_config_def [symmetric])
  ultimately show ?thesis by simp
qed

theorem active_session_is_consistent_witness:
  "\<exists>n. node_init demo_lib demo_server demo_init = Some (Some n) \<and> sm_config (rn_session n) = rn_config n \<and>
     map exp_peer_id (rn_expected n) = [''uav01'']"
proof -
  obtain n where n: "node_init demo_lib demo_server demo_init = Some (Some n)" "armed_for_demo n"
    using node_init_demo by blast
  have "sc_required_participants (rn_config n) = [''uav01'']"
    using n(2) by (simp add: armed_for_demo_def demo_config_def config_of_params_def demo_server_def param_def Let_def)
  with active_session_is_consistent [OF n(1) rtranclp.rtrancl_refl] n show ?thesis
    by (auto simp: armed_for_demo_def)
qed

definition demo_start_request :: StartRequest where
  "demo_start_request = \<lparr>sr_session_id = ''b'', sr_task_id = [], sr_epoch_time = RosTime 10 0, sr_period = RosDuration 0 0\<rparr>"

lemma demo_requested:
  "armed_for_demo n \<Longrightarrow> requested demo_lib demo_start_request n = demo_config\<lparr>sc_session_id := ''b''\<rparr>"
  by (simp add: requested_def demo_start_request_def demo_lib_def armed_for_demo_def demo_config_def config_of_params_def Let_def)

lemma demo_times: "sc_epoch_ns demo_config = 10000000000" "sc_period_ns demo_config = 50000000"
    "sc_start_cycle demo_config = 0" "sc_max_cycle demo_config = 0" "toNs (RosTime 10 0) = 10000000000"
  by (simp_all add: demo_config_def config_of_params_def SessionConfig_default_def Let_def)

lemma demo_valid_period: "isValidPeriodNs 50000000"
  by (simp add: isValidPeriodNs_def kMinPeriodNs_def kMaxPeriodNs_def)

lemma demo_b_in_range: "in_range (scheduler_config_of (demo_config\<lparr>sc_session_id := x\<rparr>)) (toNs (RosTime 10 0))"
  by (simp add: in_range_def scheduler_config_of_def demo_times cycle_at_def del: toNs.simps)

lemma demo_b_allowed:
  assumes "\<not> clock_unusable k"
  shows "start_allowed 10000000000 50000000 k (demo_config\<lparr>sc_session_id := ''b''\<rparr>)"
  using demo_start_allowed [OF assms]
  by (auto simp: start_allowed_def isValidConfig_def split: if_splits)

lemma demo_start_accepted:
  assumes "armed_for_demo n"
  shows "\<exists>n1. startCallback demo_lib good_clock demo_start_request n = Some ((True, ''accepted''), n1) \<and>
    rn_config n1 = demo_config\<lparr>sc_session_id := ''b''\<rparr> \<and> rn_policy n1 = demo_node_policy"
proof -
  let ?c = "demo_config\<lparr>sc_session_id := ''b''\<rparr>"
  obtain m where m: "refreshClock good_clock (n\<lparr>rn_config := ?c\<rparr>) = Some m" "\<not> clock_unusable (cmr_state (rn_clock m))"
    using refresh_demo(1) [of "n\<lparr>rn_config := ?c\<rparr>"] assms by (auto simp: armed_for_demo_def)
  have f: "rn_config m = ?c" "rn_policy m = demo_node_policy"
    using refreshClock_frame [OF m(1)] assms by (simp_all add: same_control_def armed_for_demo_def)
  have e: "?c\<lparr>sc_epoch_ns := 10000000000, sc_period_ns := 50000000\<rparr> = ?c" by (simp add: demo_times flip: demo_times)
  have "startSession 10000000000 50000000 (cmr_state (rn_clock m)) m = (True, started ?c m)"
    using startSession_accepts [of 10000000000 50000000 _ m] demo_b_allowed [OF m(2)] f(1) e by simp
  then show ?thesis
    using m(1) f
    by (simp add: startCallback_requested demo_requested [OF assms] demo_times demo_valid_period started_def
        configureExpectedSamples_def Let_def)
qed

theorem accepted_start_publishes_cycle_witness:
  "\<exists>n n1 n2 cy ms. startCallback demo_lib good_clock demo_start_request n = Some ((True, ''accepted''), n1) \<and>
     timerCallback demo_lib (RosTime 10 0) (RosTime 10 0) good_clock n1 = Some n2 \<and>
     rn_log n2 = rn_log n1 @ CycleMsg cy # ms \<and> cy_session_id cy = ''b'' \<and> uint (cy_cycle_id cy) = 0"
proof -
  obtain n where n: "armed_for_demo n" using node_init_demo by blast
  let ?c = "demo_config\<lparr>sc_session_id := ''b''\<rparr>"
  obtain n1 where n1: "startCallback demo_lib good_clock demo_start_request n = Some ((True, ''accepted''), n1)"
    "rn_config n1 = ?c" "rn_policy n1 = demo_node_policy" using demo_start_accepted [OF n] by blast
  obtain nc where nc: "refreshClock good_clock n1 = Some nc" "\<not> clock_unusable (cmr_state (rn_clock nc))"
    using refresh_demo(1) [OF n1(3)] by blast
  have r: "in_range (scheduler_config_of (rn_config n1)) (toNs (RosTime 10 0))" "sc_max_cycle (rn_config n1) = 0"
    using demo_b_in_range n1(2) demo_times(4) by simp_all
  have "cycle_at (scheduler_config_of ?c) (toNs (RosTime 10 0)) = 0"
    by (simp add: cycle_at_def scheduler_config_of_def demo_times del: toNs.simps)
  moreover have "sr_session_id demo_start_request = ''b''" by (simp add: demo_start_request_def)
  ultimately obtain n2 cy ms where "timerCallback demo_lib (RosTime 10 0) (RosTime 10 0) good_clock n1 = Some n2"
    "rn_log n2 = rn_log n1 @ CycleMsg cy # ms" "cy_session_id cy = ''b''" "uint (cy_cycle_id cy) = 0"
    using accepted_start_publishes_cycle [OF n1(1) nc r, of "RosTime 10 0"] n1(2) by auto
  with n1(1) show ?thesis by blast
qed

theorem rejected_start_relabels_cycles_witness:
  "\<exists>n n1 n2 why cy ms. sc_session_id (sm_config (rn_session n)) = ''a'' \<and>
     startCallback demo_lib bad_clock demo_start_request n = Some ((False, why), n1) \<and>
     timerCallback demo_lib (RosTime 10 0) (RosTime 10 0) good_clock n1 = Some n2 \<and>
     rn_log n2 = rn_log n1 @ CycleMsg cy # ms \<and> cy_session_id cy = ''b'' \<and> \<not> cy_session_running cy"
proof -
  obtain n where i: "node_init demo_lib demo_server demo_init = Some (Some n)" and n: "armed_for_demo n"
    using node_init_demo by blast
  let ?c = "demo_config\<lparr>sc_session_id := ''b''\<rparr>"
  have a: "sc_session_id (sm_config (rn_session n)) = ''a''"
    using node_inv_init [OF i] n
    by (simp add: node_inv_def armed_for_demo_def demo_config_def config_of_params_def demo_server_def param_def Let_def)
  obtain m where m: "refreshClock bad_clock (n\<lparr>rn_config := ?c\<rparr>) = Some m" "clock_unusable (cmr_state (rn_clock m))"
    using refresh_demo(2) [of "n\<lparr>rn_config := ?c\<rparr>"] n by (auto simp: armed_for_demo_def)
  have f: "rn_config m = ?c" "rn_policy m = demo_node_policy"
    using refreshClock_frame [OF m(1)] n by (simp_all add: same_control_def armed_for_demo_def)
  obtain why n1 where n1: "startCallback demo_lib bad_clock demo_start_request n = Some ((False, why), n1)"
    "rn_policy n1 = demo_node_policy"
    using m f by (auto simp: startCallback_requested demo_requested [OF n] demo_times demo_valid_period startSession_def
        clock_unusable_def Let_def)
  obtain nc where nc: "refreshClock good_clock n1 = Some nc" using refresh_demo(1) [OF n1(2)] by blast
  obtain e cs s' where t: "tick (toNs (RosTime 10 0)) (clock_clock_ok (cmr_state (rn_clock nc))) (rn_scheduler n) = (Some e, cs, s')"
    using first_tick [of "rn_scheduler n" "toNs (RosTime 10 0)"] demo_b_in_range [of "sc_session_id demo_config"] n demo_times(4)
    by (fastforce simp: armed_for_demo_def scheduler_config_of_def)
  have p: "isValidPeriodNs (sc_period_ns (requested demo_lib demo_start_request n))" "sr_session_id demo_start_request = ''b''"
    by (simp_all add: demo_requested [OF n] demo_times demo_valid_period) (simp add: demo_start_request_def)
  from rejected_start_relabels_cycles [OF n1(1) nc t, of "RosTime 10 0"] p n1(1) a show ?thesis by auto
qed

end
