(* ===== verification/Link_Aggregation.thy ===== *)
theory Link_Aggregation
  imports Runtime_Properties
begin

text \<open>
  How the runtime node turns the views of a snapshot into one weak-network state, \<^verbatim>\<open>publishWeaknet\<close> of
  \<^verbatim>\<open>src/ros1/runtime_node.cpp\<close>: every view advances the window and the state machine of its link, and the
  node reports the worst state. Link states are ordered as the code compares them, by their codes.
\<close>

section \<open>The order of link states\<close>

instantiation LinkState :: linorder
begin

definition less_eq_LinkState :: "LinkState \<Rightarrow> LinkState \<Rightarrow> bool" where
  "less_eq_LinkState a b \<longleftrightarrow> linkStateCode a \<le> linkStateCode b"

definition less_LinkState :: "LinkState \<Rightarrow> LinkState \<Rightarrow> bool" where
  "less_LinkState a b \<longleftrightarrow> linkStateCode a < linkStateCode b"

instance
proof
  fix a b :: LinkState
  show "a \<le> b \<Longrightarrow> b \<le> a \<Longrightarrow> a = b" by (cases a; cases b) (simp_all add: less_eq_LinkState_def word_le_nat_alt)
qed (auto simp: less_eq_LinkState_def less_LinkState_def)

end

lemma Good_least [simp]: "Good \<le> s"
  by (cases s) (simp_all add: less_eq_LinkState_def)

text \<open>RECOVERING is above PARTITIONED in this order.\<close>

lemma Recovering_greatest [simp]: "s \<le> Recovering"
  by (cases s) (simp_all add: less_eq_LinkState_def)

section \<open>One link\<close>

definition link_of :: "PeerSampleView \<Rightarrow> string" where
  "link_of v = linkKey (view_peer_id v) (view_channel v)"

definition link_window :: "RuntimeNode \<Rightarrow> PeerSampleView \<Rightarrow> LinkHealthWindow" where
  "link_window n v =
     observe \<lparr>ls_status = view_status v, ls_latency_ns = view_receive_latency_ns v, ls_seq_gap = 0,
         ls_late_pocket = view_late_for_this_cycle v, ls_oversized_drop = False\<rparr>
       (case omap_find (rn_windows n) (link_of v) of Some w \<Rightarrow> w | None \<Rightarrow> LinkHealthWindow_new 100)"

definition link_next :: "RuntimeNode \<Rightarrow> PeerSampleView \<Rightarrow> LinkState" where
  "link_next n v =
     next_state (case omap_find (rn_states n) (link_of v) of Some s \<Rightarrow> s | None \<Rightarrow> Good)
       (summarize (link_window n v) (view_peer_id v) (view_channel v))"

lemma publish_links [simp]: "rn_states (node_publish m n) = rn_states n" "rn_windows (node_publish m n) = rn_windows n"
  by (simp_all add: node_publish_def)

lemma recommendations_links [simp]:
  "rn_states (foldl (\<lambda>n r. node_publish (RecommendMsg (toRecommendationMsg stamp n r)) n) n rs) = rn_states n"
  "rn_windows (foldl (\<lambda>n r. node_publish (RecommendMsg (toRecommendationMsg stamp n r)) n) n rs) = rn_windows n"
  by (induction rs arbitrary: n) simp_all

lemma weaknet_view_links:
  assumes "weaknet_view cycle stamp (n, worst, why) v = (n', worst', why')"
  shows "omap_find (rn_states n') = (omap_find (rn_states n))(link_of v \<mapsto> link_next n v)"
    "omap_find (rn_windows n') = (omap_find (rn_windows n))(link_of v \<mapsto> link_window n v)"
    "worst' = max worst (link_next n v)"
proof -
  note d = weaknet_view_def Let_def split_beta link_of_def [symmetric]
  have s: "next_state (fst (omap_ref Good (link_of v) (rn_states n)))
      (summarize (link_window n v) (view_peer_id v) (view_channel v)) = link_next n v"
    by (simp add: link_next_def omap_ref_fst)
  have w: "observe \<lparr>ls_status = view_status v, ls_latency_ns = view_receive_latency_ns v, ls_seq_gap = 0,
         ls_late_pocket = view_late_for_this_cycle v, ls_oversized_drop = False\<rparr>
       (fst (omap_ref (LinkHealthWindow_new 100) (link_of v) (rn_windows n))) = link_window n v"
    by (simp add: link_window_def omap_ref_fst)
  show "omap_find (rn_states n') = (omap_find (rn_states n))(link_of v \<mapsto> link_next n v)"
    "omap_find (rn_windows n') = (omap_find (rn_windows n))(link_of v \<mapsto> link_window n v)"
    "worst' = max worst (link_next n v)"
    using assms by (auto simp: d w s omap_ref_snd less_LinkState_def [symmetric] max_def split: if_splits)
qed

section \<open>All links\<close>

lemma link_next_cong:
  "omap_find (rn_states n') (link_of v) = omap_find (rn_states n) (link_of v) \<Longrightarrow>
   omap_find (rn_windows n') (link_of v) = omap_find (rn_windows n) (link_of v) \<Longrightarrow>
   link_next n' v = link_next n v \<and> link_window n' v = link_window n v"
  by (simp add: link_next_def link_window_def)

lemma weaknet_fold_links:
  assumes "foldl (weaknet_view cycle stamp) (n, worst, why) vs = (n', worst', why')" "distinct (map link_of vs)"
  shows "worst' = Max (insert worst (link_next n ` set vs)) \<and>
    (\<forall>v \<in> set vs. omap_find (rn_states n') (link_of v) = Some (link_next n v) \<and>
      omap_find (rn_windows n') (link_of v) = Some (link_window n v)) \<and>
    (\<forall>k. k \<notin> link_of ` set vs \<longrightarrow> omap_find (rn_states n') k = omap_find (rn_states n) k \<and>
      omap_find (rn_windows n') k = omap_find (rn_windows n) k)"
  using assms
proof (induction vs arbitrary: n worst why)
  case (Cons v vs)
  obtain n1 worst1 why1 where v: "weaknet_view cycle stamp (n, worst, why) v = (n1, worst1, why1)" by (metis prod_cases3)
  note step = weaknet_view_links [OF v]
  have "link_next n1 u = link_next n u \<and> link_window n1 u = link_window n u" if "u \<in> set vs" for u
  proof -
    have "link_of u \<noteq> link_of v" using that Cons.prems(2) by (metis imageI distinct.simps(2) list.simps(9) set_map)
    then show ?thesis by (intro link_next_cong) (simp_all add: step)
  qed
  moreover have "foldl (weaknet_view cycle stamp) (n1, worst1, why1) vs = (n', worst', why')" "distinct (map link_of vs)"
    using Cons.prems v by simp_all
  note IH = Cons.IH [OF this]
  moreover have "Max (insert (max worst (link_next n v)) A) = Max (insert worst (insert (link_next n v) A))"
    if "finite A" for A using that by (cases "A = {}") (simp_all add: max.assoc)
  ultimately show ?case using Cons.prems(2) by (auto simp: step image_iff cong: image_cong)
qed simp

text \<open>
  C9. The node reports its worst link. When the views of a snapshot belong to different links, publishing
  the weak-network state feeds each view into the window of its link, advances the state machine of that
  link once from the summary of the new window, leaves all other links alone, and reports the largest of
  the resulting states, GOOD if there is none, in the order PARTITIONED below RECOVERING.
\<close>
theorem weaknet_state_is_worst_link:
  fixes stamp :: RosTime
  assumes "np_weaknet_enabled (rn_params n)" and "distinct (map link_of (snap_samples snapshot))"
  defines "n' \<equiv> publishWeaknet snapshot stamp n"
  shows "rn_weaknet_state n' = Max (insert Good (link_next n ` set (snap_samples snapshot))) \<and>
    (\<forall>v \<in> set (snap_samples snapshot). omap_find (rn_states n') (link_of v) = Some (link_next n v) \<and>
      omap_find (rn_windows n') (link_of v) = Some (link_window n v)) \<and>
    (\<forall>k. k \<notin> link_of ` set (snap_samples snapshot) \<longrightarrow>
      omap_find (rn_states n') k = omap_find (rn_states n) k \<and>
      omap_find (rn_windows n') k = omap_find (rn_windows n) k)"
proof -
  obtain n1 worst why where f: "foldl (weaknet_view (snap_cycle_id snapshot) stamp) (n, Good, ''healthy'')
      (snap_samples snapshot) = (n1, worst, why)" by (metis prod_cases3)
  then have "n' = n1\<lparr>rn_weaknet_state := worst, rn_weaknet_reason := why\<rparr>"
    using assms(1) by (simp add: n'_def publishWeaknet_def)
  then show ?thesis using weaknet_fold_links [OF f assms(2)] by simp
qed

text \<open>Two partitioned links, one of which starts to recover: the node reports RECOVERING.\<close>

definition lost_view :: PeerSampleView where
  "lost_view = PeerSampleView_default\<lparr>view_peer_id := ''a'', view_channel := ''c'', view_status := Missing\<rparr>"

definition back_view :: PeerSampleView where
  "back_view = PeerSampleView_default\<lparr>view_peer_id := ''b'', view_channel := ''c'', view_status := Fresh\<rparr>"

definition two_link_node :: RuntimeNode where
  "two_link_node = (node_new (loadParams (demo_server\<lparr>ps_weaknet_enabled := Some True\<rparr>)) demo_node_policy [])
     \<lparr>rn_states := [(''a|c'', Partitioned), (''b|c'', Partitioned)]\<rparr>"

definition two_link_snapshot :: CycleSnapshot where
  "two_link_snapshot = (build_start demo_request)\<lparr>snap_samples := [lost_view, back_view]\<rparr>"

lemma two_links:
  "link_of lost_view = ''a|c''" "link_of back_view = ''b|c''"
  "lw_samples (link_window two_link_node lost_view) \<noteq> []" "lw_samples (link_window two_link_node back_view) \<noteq> []"
  "outcomes Fresh (lw_samples (link_window two_link_node lost_view)) = 0"
  "outcomes Fresh (lw_samples (link_window two_link_node back_view)) = 1"
  "length (lw_samples (link_window two_link_node lost_view)) = 1"
  "length (lw_samples (link_window two_link_node back_view)) = 1"
  by (simp_all add: link_of_def linkKey_def lost_view_def back_view_def link_window_def two_link_node_def
      node_new_def observe_def LinkHealthWindow_new_def outcomes_def)

lemma two_links_next: "link_next two_link_node lost_view = Partitioned" "link_next two_link_node back_view = Recovering"
  unfolding link_next_def next_state_def summarize_nonempty(1) [OF refl two_links(3)]
    summarize_nonempty(1) [OF refl two_links(4)] two_links
  by (simp_all add: ratio_thresholds two_link_node_def)

theorem weaknet_state_is_worst_link_witness:
  "rn_weaknet_state (publishWeaknet two_link_snapshot (RosTime 1 0) two_link_node) = Recovering \<and>
   omap_find (rn_states (publishWeaknet two_link_snapshot (RosTime 1 0) two_link_node)) ''a|c'' = Some Partitioned"
proof -
  have s: "snap_samples two_link_snapshot = [lost_view, back_view]" by (simp add: two_link_snapshot_def)
  have "np_weaknet_enabled (rn_params two_link_node)" "distinct (map link_of (snap_samples two_link_snapshot))"
    by (simp_all add: two_link_node_def node_new_def loadParams_def param_def s two_links)
  note weaknet_state_is_worst_link [OF this, of "RosTime 1 0"]
  then show ?thesis by (auto simp: s two_links two_links_next max_def)
qed

end
