(* ===== verification/Ground_Station.thy ===== *)
theory Ground_Station
  imports Runtime_Node
begin

text \<open>
  The ground station node, \<^verbatim>\<open>src/ros1/ground_station_node.cpp\<close>: it reads its parameters, checks the traffic
  budget of the whole fleet once and publishes the verdict as a latched \<^verbatim>\<open>BudgetReport\<close> and a latched
  \<^verbatim>\<open>WeakNetState\<close>. The lemmas say that it decides like the runtime node does for the same fleet, and that
  the two messages it publishes tell the same story. Its log line is left out.
\<close>

record GroundParamServer =
  gs_session_id :: "string option"
  gs_node_id :: "string option"
  gs_participant_count :: "int option"
  gs_payload_bytes_p95 :: "int option"
  gs_frequency_hz :: "double option"
  gs_max_realtime_bps :: "double option"
  gs_safety_factor :: "double option"

definition ground_input :: "GroundParamServer \<Rightarrow> ChannelBudgetInput" where
  "ground_input ps =
     (let participant_count = param (gs_participant_count ps) 1
      in \<lparr>bud_channel = ''realtime_sample'', bud_publishers = word_of_int (max 1 participant_count),
          bud_effective_fanout = word_of_int (max 0 (participant_count - 1)),
          bud_frequency_hz = param (gs_frequency_hz ps) (Fin 20),
          bud_payload_bytes_p95 = word_of_int (max 0 (param (gs_payload_bytes_p95 ps) 600)),
          bud_envelope_overhead_bytes = 128, bud_transport_overhead_bytes = 64\<rparr>)"

definition ground_budget :: "GroundParamServer \<Rightarrow> BudgetReport" where
  "ground_budget ps = computeTrafficBudget [ground_input ps] (param (gs_max_realtime_bps ps) (Fin 2000000))
     (param (gs_safety_factor ps) (dec 135 100))"

text \<open>
  \<^verbatim>\<open>main\<close> up to \<^verbatim>\<open>ros::spin\<close>: the two published messages. The subtraction \<^verbatim>\<open>participant_count - 1\<close> has no
  defined result for the smallest \<^verbatim>\<open>int\<close>.
\<close>

definition ground_main :: "GroundParamServer \<Rightarrow> RosTime \<Rightarrow> (BudgetReportMsg \<times> WeakNetStateMsg) option" where
  "ground_main ps now =
     (if param (gs_participant_count ps) 1 = - (2 ^ 31) then None
      else
        let budget = ground_budget ps
        in Some
          (\<lparr>bm_stamp = now, bm_session_id = param (gs_session_id ps) ''ground_session'',
            bm_accepted = rep_accepted budget, bm_total_realtime_bps = rep_total_realtime_bps budget,
            bm_max_realtime_bps = rep_max_realtime_bps budget, bm_utilization_ratio = rep_utilization_ratio budget,
            bm_report_json = ''{'' @ [CHR 0x22] @ ''reason'' @ [CHR 0x22] @ '':'' @ [CHR 0x22] @ rep_reason budget @
              [CHR 0x22] @ ''}''\<rparr>,
           \<lparr>ws_stamp = now, ws_node_id = param (gs_node_id ps) ''ground_station'',
            ws_previous_state = linkStateCode Good,
            ws_current_state = (if rep_accepted budget then linkStateCode Good else linkStateCode Congested),
            ws_reason = rep_reason budget,
            ws_evidence_json = ''{'' @ [CHR 0x22] @ ''budget_utilization_ratio'' @ [CHR 0x22] @ '':'' @
              to_string_double (rep_utilization_ratio budget) @ ''}'', ws_cycle_id = 0\<rparr>))"

section \<open>Agreement with the runtime node\<close>

text \<open>The channel name plays no part in the verdict.\<close>

lemma budget_ignores_channel:
  "computeTrafficBudget [x\<lparr>bud_channel := c\<rparr>] limit factor = computeTrafficBudget [x] limit factor"
  by (simp add: computeTrafficBudget_def budget_term_def Let_def)

lemma rep_reason_cases:
  "rep_reason (computeTrafficBudget inputs limit factor) \<in>
     {''max_realtime_bps must be positive'', ''within budget'', ''traffic budget exceeded''}"
  by (simp add: computeTrafficBudget_def Let_def)

lemma reason_needs_no_escape:
  "jsonEscape (rep_reason (computeTrafficBudget inputs limit factor)) =
     rep_reason (computeTrafficBudget inputs limit factor)"
  using rep_reason_cases [of inputs limit factor] by auto

definition same_fleet :: "GroundParamServer \<Rightarrow> NodeParams \<Rightarrow> SessionConfig \<Rightarrow> bool" where
  "same_fleet ps p c \<longleftrightarrow>
     param (gs_participant_count ps) 1 = int (length (sc_required_participants c)) \<and>
     param (gs_frequency_hz ps) (Fin 20) = np_frequency_hz p \<and>
     param (gs_payload_bytes_p95 ps) 600 = np_payload_bytes_p95 p \<and>
     param (gs_max_realtime_bps ps) (Fin 2000000) = np_budget_max_realtime_bps p \<and>
     param (gs_safety_factor ps) (dec 135 100) = np_budget_safety_factor p"

lemma fanout_of_count:
  assumes "0 < k" "k < 2 ^ 32"
  shows "(if (of_nat k :: u32) > 0 then of_nat k - 1 else 0) = (word_of_int (max 0 (int k - 1)) :: u32)"
proof -
  have "(of_nat k :: u32) > 0"
    using assms by (simp add: word_neq_0_conv [symmetric] word_of_nat_eq_0_iff nat_dvd_not_less)
  moreover have "(of_nat k - 1 :: u32) = word_of_int (int k - 1)" by (simp add: wi_hom_sub)
  ultimately show ?thesis using assms(1) by simp
qed

text \<open>The ground station and every runtime node of the fleet reach the same budget report.\<close>

lemma ground_budget_is_runtime_budget:
  assumes "same_fleet ps p c" "sc_required_participants c \<noteq> []" "length (sc_required_participants c) < 2 ^ 32"
  shows "ground_budget ps = computeBudgetReport p c"
proof -
  let ?k = "length (sc_required_participants c)"
  have k: "max 1 ?k = ?k" "0 < ?k" "max 1 (int ?k) = int ?k" using assms(2) by (cases "sc_required_participants c"; simp)+
  show ?thesis
    using assms(1) budget_ignores_channel [where x = "ground_input ps" and c = "np_expected_sample_channel p"]
    unfolding ground_budget_def computeBudgetReport_def Let_def k(1) fanout_of_count [OF k(2) assms(3)]
    by (simp add: same_fleet_def ground_input_def k(3))
qed

text \<open>It publishes the budget message the runtime node would, and a congested state exactly for a rejected budget.\<close>

lemma ground_publishes_runtime_budget:
  assumes "same_fleet ps (rn_params n) (rn_config n)" "sc_required_participants (rn_config n) \<noteq> []"
    and "length (sc_required_participants (rn_config n)) < 2 ^ 32"
    and "rn_budget n = computeBudgetReport (rn_params n) (rn_config n)"
    and "param (gs_session_id ps) ''ground_session'' = sc_session_id (rn_config n)"
  shows "\<exists>bm ws. ground_main ps now = Some (bm, ws) \<and>
    rn_log (publishBudget now n) = rn_log n @ [BudgetMsg bm] \<and>
    ws_current_state ws = linkStateCode (if bm_accepted bm then Good else Congested)"
proof -
  have b: "ground_budget ps = rn_budget n" using ground_budget_is_runtime_budget assms(1-4) by metis
  have e: "jsonEscape (rep_reason (rn_budget n)) = rep_reason (rn_budget n)"
    unfolding b [symmetric] ground_budget_def by (rule reason_needs_no_escape)
  have "param (gs_participant_count ps) 1 \<noteq> - (2 ^ 31)" using assms(1) by (simp add: same_fleet_def)
  then show ?thesis
    by (simp add: ground_main_def b e publishBudget_def node_publish_def assms(5) Let_def)
qed

end
