(* ===== verification/Spec2Isabelle.thy ===== *)
theory Spec2Isabelle
  imports Envelope_Roundtrip Transport Coordinator_Properties Link_Aggregation Ground_Station
begin

text \<open>
  Verification of xgc2-runtime-sync, the runtime that keeps a fleet of vehicles in step: every node derives
  numbered cycles from a common clock, exchanges samples addressed to a cycle, and at each cycle boundary
  freezes what has arrived into a snapshot. Paths are relative to the repository.

  \<^bold>\<open>The program and its parts.\<close> The core library (\<^verbatim>\<open>src/core\<close>) has the wire format of samples, the keys and an
  in-memory transport that carry them, the receive buffer, the deadline checker and the snapshot builder
  that judge them, and the session manager and cycle scheduler that say when. \<^verbatim>\<open>src/core/weaknet\<close> judges
  links and limits traffic; the clock monitor (\<^verbatim>\<open>src/core/clock_monitor.cpp\<close>) judges the local clock. Three
  ROS nodes use the library: the runtime node (\<^verbatim>\<open>src/ros1/runtime_node.cpp\<close>) composes it on each vehicle, the
  ground station node (\<^verbatim>\<open>src/ros1/ground_station_node.cpp\<close>) checks the budget of the fleet, and the sync
  coordinator (\<^verbatim>\<open>src/sync_coordinator_node.cpp\<close>) triggers rounds and supervises the participants by their
  acknowledgements.

  \<^bold>\<open>Shared theories.\<close>
  \<^item> \<open>Prelude\<close>: the C++ integer types as words, signed comparison, sequencing of checks, and the locale
    \<open>preserved\<close>, an invariant of a step relation.
  \<^item> \<open>Ordered_Map\<close>: what the code uses of \<^verbatim>\<open>std::map\<close>; the locale \<open>ordered_map\<close> is its contract.
  \<^item> \<open>Double\<close>: binary64 arithmetic with rounding to nearest even, infinities and NaN, and when it is exact.
  \<^item> \<open>Types\<close>: the value types of \<^verbatim>\<open>types.hpp\<close> and \<^verbatim>\<open>sample_envelope.hpp\<close>, ROS times and parameters.

  \<^bold>\<open>Core components.\<close>
  \<^item> \<open>Envelope_Codec\<close> is \<^verbatim>\<open>envelope_codec.cpp\<close>: writers, bounded readers, \<open>encode\<close>, \<open>decode\<close>, \<open>validate\<close> and the
    CRC-32C. \<open>Envelope_Roundtrip\<close> shows that decoding inverts encoding (the locale \<open>field_codec\<close>, one
    interpretation per kind of field), that truncated input is rejected, that accepted input is valid, that
    a changed byte changes the checksum, and which encoded envelopes cannot be decoded.
  \<^item> \<open>Transport_Keys\<close> is \<^verbatim>\<open>transport_keys.cpp\<close>: the keys that validate are the keys that can be built, and
    different fields give different keys.
  \<^item> \<open>Transport\<close> is \<^verbatim>\<open>transport.cpp\<close>: subscriber tables by key. It refines an abstract list of live
    subscriptions on all sequences of operations (locale \<open>subscriber_table\<close>).
  \<^item> \<open>Sample_Buffer\<close> is \<^verbatim>\<open>sample_buffer.cpp\<close>: soundness and bounds on all histories, exact eviction, and the
    accounting of gaps, duplicates and last good samples of a stream.
  \<^item> \<open>Deadline_Checker\<close> is \<^verbatim>\<open>deadline_checker.cpp\<close>: exactly which samples are usable, late or for another cycle.
  \<^item> \<open>Snapshot_Builder\<close> is \<^verbatim>\<open>snapshot_builder.cpp\<close>: what a snapshot contains and when it is complete, over the
    contract \<open>sample_source\<close> of its buffer, and that its counters partition the expected samples.
  \<^item> \<open>Session\<close> is \<^verbatim>\<open>session.cpp\<close> and \<open>Cycle_Scheduler\<close> is \<^verbatim>\<open>cycle_scheduler.cpp\<close>: a session runs only after a
    due start with a usable clock; cycles and times convert into each other, a scheduler emits each cycle in
    which it is ticked exactly once, in increasing order and with bounded jitter.
  \<^item> \<open>Clock_Monitor\<close> is \<^verbatim>\<open>clock_monitor.cpp\<close>: parsing of chronyc output and the evidence behind a good clock.
  \<^item> \<open>Weaknet_Guards\<close> and \<open>Link_Health\<close> are \<^verbatim>\<open>src/core/weaknet\<close>: channel profiles, cycle window, payload and
    budget guards, send stagger; link windows, their state machine and the recommendations. Link judgements
    computed in floating point are shown to equal exact arithmetic, and budget totals to be within one unit
    per channel of it.

  \<^bold>\<open>Nodes.\<close>
  \<^item> \<open>Sync_Coordinator\<close> models the coordinator node as a transition system over its callbacks, timers and
    spin loop; \<open>Coordinator_Invariant\<close> proves its invariant and \<open>Coordinator_Properties\<close> what follows: triggers
    only after everyone was ready, statistics that add up, bounded memory, and how a status gets better.
  \<^item> \<open>Adapter_Config\<close> is \<^verbatim>\<open>src/ros1/adapter_config.cpp\<close>: accepted configurations have separate routes.
  \<^item> \<open>Runtime_Messages\<close>, \<open>Runtime_Node\<close> and \<open>Runtime_Properties\<close> are the runtime node: its messages, its
    callbacks on the record \<open>RuntimeNode\<close>, and the agreement of its components in all reachable states, the
    cycles that follow an accepted start, and the effect of a rejected one. \<open>Link_Aggregation\<close> shows how the
    node advances its links and that it reports the worst of them, in an order that hides a partition.
  \<^item> \<open>Ground_Station\<close> is the ground station node, which decides and reports as the runtime nodes do.
  \<^item> This theory relates the two classifiers of received samples, the deadline checker and the cycle window.

  \<^bold>\<open>How the code is represented.\<close> A class is a record and a member function is a function on it; integers are
  words of the code's width, so overflow wraps as in two's complement, and theorems that exclude it say so;
  sizes of containers are natural numbers. Strings are byte lists; \<^verbatim>\<open>std::map\<close> is a key-sorted list, \<^verbatim>\<open>std::set\<close>
  a sorted list. A function with an error text returns a sum. Loops over containers are folds, all other
  loops are recursive functions with termination proofs, so nothing needs fuel. A conversion without a
  defined result in C++ is \<open>None\<close>. Mutexes protect whole member functions and ROS serves one callback at a
  time, so concurrent use is an arbitrary sequence of calls. A published message is appended to a log.

  \<^bold>\<open>Parameters.\<close> Code outside the repository appears as an argument: ROS time arithmetic (\<open>RosEnv\<close>,
  \<open>RosLib\<close>), XML-RPC values (\<open>XmlRpc\<close>), the output of chronyc (the command runner), \<^verbatim>\<open>std::hash\<close>, and the
  subscribers' callbacks. No theorem assumes more of them than it states.

  \<^bold>\<open>Not modelled.\<close> Starting the chronyc process (\<^verbatim>\<open>runCommand\<close>), logging, the creation of publishers, services
  and timers, and the \<^verbatim>\<open>main\<close> functions' calls of \<^verbatim>\<open>ros::init\<close> and \<^verbatim>\<open>ros::spin\<close>, which are input and output only;
  parameters and message fields that the code never uses; launch files, scripts and tests.
\<close>

section \<open>Two classifiers of received samples\<close>

text \<open>What the cycle window is told about a received envelope, according to the channel's rules.\<close>

definition window_view :: "SampleEnvelope \<Rightarrow> i64 \<Rightarrow> ChannelTiming \<Rightarrow> SampleTiming" where
  "window_view e received timing =
     \<lparr>smp_target_cycle = env_target_cycle e, smp_local_receive_ns = received, smp_sender_clock_ok = env_clock_ok e,
      smp_schema_ok = ((tim_payload_type timing = [] \<or> env_payload_type e = tim_payload_type timing) \<and>
        (tim_schema_id timing = [] \<or> env_schema_id e = tim_schema_id timing)),
      smp_payload_ok = ((tim_allow_empty_payload timing \<or> env_payload e \<noteq> []) \<and> verifyPayloadCrc e),
      smp_producer_ok = (env_producer_status e = ProducerStatus_Success), smp_duplicate = False\<rparr>"

text \<open>
  C10. The deadline checker and the weak-network cycle window agree. If the channel has no publish deadline,
  both use the same receive cutoff and the same time to live, and either there is no time to live or the
  sample was published at the start of the cycle (the window counts its time to live from there, the
  checker from the publication), then both give every received envelope the same status, whatever its
  content and arrival time, even where the sums of times wrap around.
\<close>
theorem two_classifiers_agree:
  assumes "sint (tim_publish_deadline_ns timing) \<le> 0"
    and "win_receive_cutoff_offset_ns window = tim_receive_cutoff_ns timing"
    and "win_ttl_ns window = (if 0 < sint (tim_ttl_ns timing) then tim_ttl_ns timing else env_ttl_ns e)"
    and "sint (win_ttl_ns window) \<le> 0 \<or> env_t_publish_ns e = start"
  shows "wd_status (classify window cycle start (window_view e received timing)) =
      dd_status (checkReceivedSample e cycle start received timing) \<and>
    wd_usable_for_cycle (classify window cycle start (window_view e received timing)) =
      dd_usable (checkReceivedSample e cycle start received timing)"
proof -
  have late: "wd_status (if b then window_drop Late LatePocket True w else window_drop Late Expired False w') = Late"
    "wd_usable_for_cycle (if b then window_drop Late LatePocket True w else window_drop Late Expired False w') = False"
    for b w w' by (simp_all add: window_drop_def)
  have ttl: "i64_less 0 (win_ttl_ns window) \<and> i64_less (start + win_ttl_ns window) received \<longleftrightarrow>
      i64_less 0 (win_ttl_ns window) \<and> i64_less (env_t_publish_ns e + win_ttl_ns window) received"
    using assms(4) by auto
  have pub: "\<not> i64_less 0 (tim_publish_deadline_ns timing)" using assms(1) by simp
  have w: "(if i64_less 0 (tim_ttl_ns timing) then tim_ttl_ns timing else env_ttl_ns e) = win_ttl_ns window"
    using assms(3) by simp
  show ?thesis
    unfolding classify_def checkReceivedSample_def Let_def window_view_def SampleTiming.simps assms(2) ttl w
    using pub by (simp add: window_drop_def)
qed

definition demo_agree_window :: CycleWindowConfig where
  "demo_agree_window = \<lparr>win_period_ns = 10000, win_receive_cutoff_offset_ns = 8000, win_late_record_window_ns = 0,
     win_ttl_ns = 0\<rparr>"

theorem two_classifiers_agree_witness:
  "wd_status (classify demo_agree_window 7 100000 (window_view demo_received 108001
     (demo_timing\<lparr>tim_publish_deadline_ns := 0\<rparr>))) = Late"
proof -
  let ?t = "demo_timing\<lparr>tim_publish_deadline_ns := 0\<rparr>"
  have "dd_status (checkReceivedSample demo_received 7 100000 108001 ?t) = Late"
    by (simp add: checkReceivedSample_def demo_received_def demo_timing_def ChannelTiming_default_def
        SampleEnvelope_default_def verifyPayloadCrc_def crc32c_def)
  moreover have "sint (tim_publish_deadline_ns ?t) \<le> 0"
    "win_receive_cutoff_offset_ns demo_agree_window = tim_receive_cutoff_ns ?t"
    "win_ttl_ns demo_agree_window = (if 0 < sint (tim_ttl_ns ?t) then tim_ttl_ns ?t else env_ttl_ns demo_received)"
    "sint (win_ttl_ns demo_agree_window) \<le> 0 \<or> env_t_publish_ns demo_received = 100000"
    by (simp_all add: demo_agree_window_def demo_timing_def demo_received_def ChannelTiming_default_def
        SampleEnvelope_default_def)
  ultimately show ?thesis using two_classifiers_agree [of ?t demo_agree_window demo_received 100000 7 108001] by simp
qed

end
